(* ===== verification/NL_Prelude.thy ===== *)
theory NL_Prelude
  imports Main "HOL-Library.Word" "HOL-Library.AList"
begin

text \<open>
  Shared vocabulary of the NexusLink development.

  \<^item> Bytes, Go strings as byte sequences, and the big-endian integer encodings of
    \<^verbatim>\<open>encoding/binary\<close> that the wire formats use.
  \<^item> Go maps as association lists with distinct keys. A \<^verbatim>\<open>range\<close> loop over a Go map
    visits the entries in an unspecified order; a theorem about every association list
    covers every such order.
  \<^item> Byte streams as the readers of \<^verbatim>\<open>io.ReadFull\<close> see them, and the interface
    \<open>frame_codec\<close> of a self-delimiting framing over such a stream.
\<close>

named_theorems byte_simps \<open>facts on bytes, big-endian numbers and slices\<close>
named_theorems gomap_simps \<open>facts on Go maps\<close>

type_synonym byte = "8 word"
type_synonym bytes = "byte list"

section \<open>Bytes and strings\<close>

definition byte_of_char :: "char \<Rightarrow> byte" where
  "byte_of_char c = word_of_nat (of_char c)"

definition char_of_byte :: "byte \<Rightarrow> char" where
  "char_of_byte b = char_of (unat b)"

definition bytes_of_string :: "string \<Rightarrow> bytes" where
  "bytes_of_string s = map byte_of_char s"

definition string_of_bytes :: "bytes \<Rightarrow> string" where
  "string_of_bytes bs = map char_of_byte bs"

text \<open>\<^verbatim>\<open>PutUint16/32/64\<close> write the \<open>k\<close> low bytes of a number, most significant first.\<close>

primrec be_enc :: "nat \<Rightarrow> nat \<Rightarrow> bytes" where
  "be_enc 0 n = []"
| "be_enc (Suc k) n = be_enc k (n div 256) @ [word_of_nat n]"

definition be_dec :: "bytes \<Rightarrow> nat" where
  "be_dec bs = foldl (\<lambda>acc b. acc * 256 + unat b) 0 bs"

definition PutUint16 :: "16 word \<Rightarrow> bytes" where
  "PutUint16 w = be_enc 2 (unat w)"

definition PutUint32 :: "32 word \<Rightarrow> bytes" where
  "PutUint32 w = be_enc 4 (unat w)"

definition PutUint64 :: "64 word \<Rightarrow> bytes" where
  "PutUint64 w = be_enc 8 (unat w)"

definition Uint16 :: "bytes \<Rightarrow> 16 word" where
  "Uint16 bs = word_of_nat (be_dec (take 2 bs))"

definition Uint32 :: "bytes \<Rightarrow> 32 word" where
  "Uint32 bs = word_of_nat (be_dec (take 4 bs))"

definition Uint64 :: "bytes \<Rightarrow> 64 word" where
  "Uint64 bs = word_of_nat (be_dec (take 8 bs))"

text \<open>The slice expression \<open>bs[lo:hi]\<close> (used only with \<open>lo \<le> hi \<le> len\<close>).\<close>

definition slice :: "nat \<Rightarrow> nat \<Rightarrow> 'a list \<Rightarrow> 'a list" where
  "slice lo hi xs = take (hi - lo) (drop lo xs)"

lemma unat_less: "unat (w :: 'a::len word) < 2 ^ LENGTH('a)"
  by (rule unsigned_less)

lemma unat_byte_less [simp]: "unat (b :: byte) < 256"
  using unat_less [of b] by simp

lemma char_of_byte_of_char [simp]: "char_of_byte (byte_of_char c) = c"
proof -
  have "of_char c mod 256 = (of_char c :: nat)" by simp
  then show ?thesis
    by (simp add: char_of_byte_def byte_of_char_def unat_of_nat)
qed

lemma byte_of_char_of_byte [simp]: "byte_of_char (char_of_byte b) = b"
proof -
  have "unat b mod 256 = unat b" by simp
  then show ?thesis
    by (simp add: char_of_byte_def byte_of_char_def)
qed

lemma string_of_bytes_of_string [simp]: "string_of_bytes (bytes_of_string s) = s"
  by (simp add: string_of_bytes_def bytes_of_string_def comp_def)

lemma bytes_of_string_of_bytes [simp]: "bytes_of_string (string_of_bytes bs) = bs"
  by (simp add: string_of_bytes_def bytes_of_string_def comp_def)

lemma length_bytes_of_string [simp]: "length (bytes_of_string s) = length s"
  by (simp add: bytes_of_string_def)

lemma length_string_of_bytes [simp]: "length (string_of_bytes s) = length s"
  by (simp add: string_of_bytes_def)

lemma bytes_of_string_inject [simp]: "bytes_of_string s = bytes_of_string t \<longleftrightarrow> s = t"
  by (metis string_of_bytes_of_string)

lemma length_be_enc [simp, byte_simps]: "length (be_enc k n) = k"
  by (induction k arbitrary: n) auto

lemma be_dec_Nil [simp]: "be_dec [] = 0"
  by (simp add: be_dec_def)

lemma be_dec_snoc [simp]: "be_dec (bs @ [b]) = be_dec bs * 256 + unat b"
  by (simp add: be_dec_def)

lemma be_dec_be_enc [byte_simps]: "be_dec (be_enc k n) = n mod 256 ^ k"
proof (induction k arbitrary: n)
  case 0
  then show ?case by simp
next
  case (Suc k)
  have "be_dec (be_enc (Suc k) n) = n div 256 mod 256 ^ k * 256 + n mod 256"
    by (simp add: Suc unat_of_nat)
  also have "\<dots> = n mod (256 * 256 ^ k)"
    by (simp add: mod_mult2_eq)
  finally show ?case by simp
qed

lemma be_dec_bound: "be_dec bs < 256 ^ length bs"
proof (induction bs rule: rev_induct)
  case Nil
  then show ?case by simp
next
  case (snoc b bs)
  have "be_dec bs + 1 \<le> 256 ^ length bs" using snoc by simp
  then have "(be_dec bs + 1) * 256 \<le> 256 ^ length bs * 256" by (rule mult_le_mono1)
  with unat_byte_less [of b] show ?case by (simp add: algebra_simps del: unat_byte_less)
qed

lemma be_enc_be_dec: "length bs = k \<Longrightarrow> be_enc k (be_dec bs) = bs"
proof (induction bs arbitrary: k rule: rev_induct)
  case Nil
  then show ?case by simp
next
  case (snoc b bs)
  have b: "unat b < 256" by simp
  have "(word_of_nat (be_dec bs * 256 + unat b) :: byte) = b"
    by (simp add: word_unat_eq_iff unat_of_nat b del: of_nat_add of_nat_mult)
  then show ?case using snoc b by auto
qed

lemma length_PutUint [simp]:
  "length (PutUint16 w) = 2" "length (PutUint32 v) = 4" "length (PutUint64 u) = 8"
  by (simp_all add: PutUint16_def PutUint32_def PutUint64_def)

lemma Uint16_PutUint16 [simp]: "Uint16 (PutUint16 w) = w"
  using unat_less [of w] by (simp add: Uint16_def PutUint16_def be_dec_be_enc)

lemma Uint32_PutUint32 [simp]: "Uint32 (PutUint32 w) = w"
  using unat_less [of w] by (simp add: Uint32_def PutUint32_def be_dec_be_enc)

lemma Uint64_PutUint64 [simp]: "Uint64 (PutUint64 w) = w"
  using unat_less [of w] by (simp add: Uint64_def PutUint64_def be_dec_be_enc)

lemma PutUint16_Uint16: "length bs = 2 \<Longrightarrow> PutUint16 (Uint16 bs) = bs"
  using be_dec_bound [of bs]
  by (simp add: Uint16_def PutUint16_def unat_of_nat be_enc_be_dec)

lemma PutUint32_Uint32: "length bs = 4 \<Longrightarrow> PutUint32 (Uint32 bs) = bs"
  using be_dec_bound [of bs]
  by (simp add: Uint32_def PutUint32_def unat_of_nat be_enc_be_dec)

lemma PutUint64_Uint64: "length bs = 8 \<Longrightarrow> PutUint64 (Uint64 bs) = bs"
  using be_dec_bound [of bs]
  by (simp add: Uint64_def PutUint64_def unat_of_nat be_enc_be_dec)

lemma slice_append_left [byte_simps]:
  "length xs = lo \<Longrightarrow> slice lo hi (xs @ ys) = take (hi - lo) ys"
  by (simp add: slice_def)

lemma slice_all [byte_simps]: "slice 0 n xs = take n xs"
  by (simp add: slice_def)

lemma length_slice [byte_simps]:
  "hi \<le> length xs \<Longrightarrow> length (slice lo hi xs) = hi - lo"
  by (simp add: slice_def)

lemma take_slice_drop:
  assumes "a \<le> b" "b \<le> length xs"
  shows "take a xs @ slice a b xs @ drop b xs = xs"
proof -
  have "take (b - a) (drop a xs) @ drop b xs = drop a xs"
    using assms by (metis append_take_drop_id drop_drop le_add_diff_inverse2)
  then show ?thesis by (simp add: slice_def)
qed

section \<open>Go maps\<close>

type_synonym ('k, 'v) gomap = "('k \<times> 'v) list"

text \<open>\<open>m[k] = v\<close>, \<open>delete(m, k)\<close>, \<open>m[k]\<close> with the zero value of the element type, and \<open>len(m)\<close>.\<close>

abbreviation gput :: "'k \<Rightarrow> 'v \<Rightarrow> ('k, 'v) gomap \<Rightarrow> ('k, 'v) gomap" where
  "gput k v m \<equiv> AList.update k v m"

abbreviation gdel :: "'k \<Rightarrow> ('k, 'v) gomap \<Rightarrow> ('k, 'v) gomap" where
  "gdel k m \<equiv> AList.delete k m"

definition gat :: "'v \<Rightarrow> ('k, 'v) gomap \<Rightarrow> 'k \<Rightarrow> 'v" where
  "gat z m k = (case map_of m k of None \<Rightarrow> z | Some v \<Rightarrow> v)"

definition gwf :: "('k, 'v) gomap \<Rightarrow> bool" where
  "gwf m \<longleftrightarrow> distinct (map fst m)"

lemma gwf_Nil [simp]: "gwf []"
  by (simp add: gwf_def)

lemma gwf_gput [simp, intro]: "gwf m \<Longrightarrow> gwf (gput k v m)"
  by (simp add: gwf_def distinct_update)

lemma gwf_gdel [simp, intro]: "gwf m \<Longrightarrow> gwf (gdel k m)"
  by (simp add: gwf_def distinct_delete)

lemma gwf_filter [simp, intro]: "gwf m \<Longrightarrow> gwf (filter P m)"
  by (simp add: gwf_def distinct_map_filter)

lemma map_of_gput [simp, gomap_simps]:
  "map_of (gput k v m) j = (if j = k then Some v else map_of m j)"
  by (simp add: update_conv)

lemma map_of_gdel [simp, gomap_simps]:
  "map_of (gdel k m) j = (if j = k then None else map_of m j)"
  by (simp add: delete_conv)

lemma gat_gput [simp, gomap_simps]: "gat z (gput k v m) j = (if j = k then v else gat z m j)"
  by (simp add: gat_def)

lemma gat_gdel [simp, gomap_simps]: "gat z (gdel k m) j = (if j = k then z else gat z m j)"
  by (simp add: gat_def)

lemma gat_Nil [simp]: "gat z [] k = z"
  by (simp add: gat_def)

lemma map_of_filter_gwf:
  assumes "gwf m"
  shows "map_of (filter (\<lambda>(k, v). P k v) m) j =
    (case map_of m j of None \<Rightarrow> None | Some v \<Rightarrow> if P j v then Some v else None)"
  using assms
proof (induction m)
  case Nil
  then show ?case by simp
next
  case (Cons a m)
  obtain k v where a: "a = (k, v)" by fastforce
  from Cons.prems a have "gwf m" and k: "map_of m k = None"
    by (auto simp: gwf_def map_of_eq_None_iff)
  with Cons.IH a show ?case by (auto split: option.splits)
qed

lemma map_of_gwf_iff: "gwf m \<Longrightarrow> map_of m k = Some v \<longleftrightarrow> (k, v) \<in> set m"
  by (simp add: gwf_def map_of_eq_Some_iff)

lemma length_gdel_gwf:
  assumes "gwf m" "map_of m k = Some v"
  shows "length m = Suc (length (gdel k m))"
  using assms
proof (induction m)
  case Nil
  then show ?case by simp
next
  case (Cons a m)
  obtain j w where a: "a = (j, w)" by fastforce
  show ?case
  proof (cases "j = k")
    case True
    with Cons.prems a have "k \<notin> fst ` set m" by (auto simp: gwf_def)
    with a True show ?thesis by (simp add: delete_notin_dom)
  next
    case False
    with Cons a show ?thesis by (auto simp: gwf_def AList.delete_eq)
  qed
qed

section \<open>Signed 64-bit integers\<close>

text \<open>\<^verbatim>\<open>int64\<close> arithmetic: the exact result, wrapped into the range from \<open>- (2 ^ 63)\<close> to \<open>2 ^ 63 - 1\<close>.\<close>

definition i64 :: "int \<Rightarrow> int" where
  "i64 n = signed_take_bit 63 n"

lemma i64_id: "- (2 ^ 63) \<le> n \<Longrightarrow> n < 2 ^ 63 \<Longrightarrow> i64 n = n"
  by (simp add: i64_def signed_take_bit_int_eq_self)

lemma i64_0 [simp]: "i64 0 = 0"
  by (simp add: i64_def)

lemma i64_i64 [simp]: "i64 (i64 n) = i64 n"
  by (simp add: i64_def)

lemma i64_add [simp]: "i64 (i64 a + b) = i64 (a + b)" "i64 (a + i64 b) = i64 (a + b)"
  unfolding i64_def by (metis signed_take_bit_add signed_take_bit_signed_take_bit min.idem)+

lemma i64_add3 [simp]: "i64 (a + (b + i64 c)) = i64 (a + (b + c))" "i64 (a + (i64 b + c)) = i64 (a + (b + c))"
  by (metis i64_add(2) add.assoc) (metis i64_add(2) i64_add(1))

lemma i64_diff [simp]: "i64 (i64 a - b) = i64 (a - b)" "i64 (a - i64 b) = i64 (a - b)"
  unfolding i64_def by (metis signed_take_bit_diff signed_take_bit_signed_take_bit min.idem)+

lemma i64_mult [simp]: "i64 (a * i64 b) = i64 (a * b)"
  unfolding i64_def by (metis signed_take_bit_mult signed_take_bit_signed_take_bit min.idem)

section \<open>Byte streams\<close>

text \<open>
  A connection as its reader sees it: the bytes the peer still delivers and the error that
  \<^verbatim>\<open>Read\<close> gives once they are used up (the peer closed, a deadline passed, or the socket
  failed). \<^verbatim>\<open>io.ReadFull\<close> turns an \<^verbatim>\<open>EOF\<close> after a partial read into
  \<^verbatim>\<open>io.ErrUnexpectedEOF\<close>.
\<close>

datatype io_err = EOF | ErrUnexpectedEOF | NetErr

record stream =
  inb :: bytes
  tail_err :: io_err

definition ReadFull :: "nat \<Rightarrow> stream \<Rightarrow> io_err + bytes \<times> stream" where
  "ReadFull n s =
     (if n \<le> length (inb s) then Inr (take n (inb s), s\<lparr>inb := drop n (inb s)\<rparr>)
      else Inl (if tail_err s = EOF \<and> inb s \<noteq> [] then ErrUnexpectedEOF else tail_err s))"

text \<open>
  A receive loop \<^verbatim>\<open>for { m, err := read(conn); if err != nil { break }; ... }\<close>: the messages
  delivered, and the error that ended the loop. The reader is indexed by the number of the read,
  since what it accepts may depend on the clock. The fuel bounds the number of reads; \<open>None\<close>
  in the second component would mean that it ran out.
\<close>

fun drain :: "nat \<Rightarrow> (nat \<Rightarrow> stream \<Rightarrow> 'e + 'm \<times> stream) \<Rightarrow> nat \<Rightarrow> stream \<Rightarrow> 'm list \<times> 'e option" where
  "drain 0 rd i s = ([], None)"
| "drain (Suc n) rd i s =
     (case rd i s of
        Inl e \<Rightarrow> ([], Some e)
      | Inr (m, s') \<Rightarrow> (case drain n rd (Suc i) s' of (ms, r) \<Rightarrow> (m # ms, r)))"

text \<open>The bytes of a run of messages, the first of them the \<open>i\<close>-th that is written.\<close>

primrec write_run :: "(nat \<Rightarrow> 'm \<Rightarrow> bytes) \<Rightarrow> nat \<Rightarrow> 'm list \<Rightarrow> bytes" where
  "write_run enc i [] = []"
| "write_run enc i (m # ms) = enc i m @ write_run enc (Suc i) ms"

lemma ReadFull_append [simp]:
  "length xs = n \<Longrightarrow> ReadFull n \<lparr>inb = xs @ ys, tail_err = e\<rparr> = Inr (xs, \<lparr>inb = ys, tail_err = e\<rparr>)"
  by (simp add: ReadFull_def)

lemma ReadFull_Inr:
  "ReadFull n s = Inr (bs, s') \<longleftrightarrow>
     n \<le> length (inb s) \<and> bs = take n (inb s) \<and> s' = s\<lparr>inb := drop n (inb s)\<rparr>"
  by (auto simp: ReadFull_def)

lemma ReadFull_empty [simp]:
  "0 < n \<Longrightarrow> ReadFull n \<lparr>inb = [], tail_err = e\<rparr> = Inl e"
  by (simp add: ReadFull_def)

text \<open>
  The contract of a self-delimiting framing: reading a written message returns it and leaves
  exactly the bytes that follow, every successful read consumes at least one byte, and reading
  at the end of the stream reports the stream's error.
\<close>

locale frame_codec =
  fixes enc :: "nat \<Rightarrow> 'm \<Rightarrow> bytes"
    and rd :: "nat \<Rightarrow> stream \<Rightarrow> 'e + 'm \<times> stream"
    and ok :: "nat \<Rightarrow> 'm \<Rightarrow> bool"
    and at_end :: "io_err \<Rightarrow> 'e"
  assumes rd_enc:
      "ok i m \<Longrightarrow> rd i \<lparr>inb = enc i m @ rest, tail_err = e\<rparr> = Inr (m, \<lparr>inb = rest, tail_err = e\<rparr>)"
    and rd_progress: "rd i s = Inr (m, s') \<Longrightarrow> length (inb s') < length (inb s)"
    and rd_end: "rd i \<lparr>inb = [], tail_err = e\<rparr> = Inl (at_end e)"
begin

text \<open>The receive loop always ends with an error of the reader, never by lack of fuel.\<close>

lemma drain_ends: "length (inb s) < fuel \<Longrightarrow> snd (drain fuel rd i s) \<noteq> None"
proof (induction fuel arbitrary: i s)
  case 0
  then show ?case by simp
next
  case (Suc fuel)
  show ?case
  proof (cases "rd i s")
    case (Inl e)
    then show ?thesis by simp
  next
    case (Inr p)
    then obtain m s' where p: "rd i s = Inr (m, s')" by (cases p) auto
    with Suc.prems rd_progress [OF p] have "snd (drain fuel rd (Suc i) s') \<noteq> None"
      by (intro Suc.IH) simp
    with p show ?thesis by (auto split: prod.splits)
  qed
qed

text \<open>Frame synchronisation: a run of written messages is received as exactly that run.\<close>

lemma drain_write_run:
  assumes "\<forall>k < length ms. ok (i + k) (ms ! k)" and "length ms < fuel"
  shows "drain fuel rd i \<lparr>inb = write_run enc i ms, tail_err = e\<rparr> = (ms, Some (at_end e))"
  using assms
proof (induction ms arbitrary: fuel i)
  case Nil
  then obtain n where "fuel = Suc n" by (cases fuel) auto
  then show ?case by (simp add: rd_end)
next
  case (Cons m ms)
  then obtain n where n: "fuel = Suc n" by (cases fuel) auto
  have "ok i m" using Cons.prems(1) by (metis add_0_right length_greater_0_conv list.discI nth_Cons_0)
  moreover have "\<forall>k < length ms. ok (Suc i + k) (ms ! k)"
    using Cons.prems(1) by (metis add_Suc_shift length_Cons not_less_eq nth_Cons_Suc)
  ultimately show ?case using Cons n by (simp add: rd_enc)
qed

end

end
