(* ===== verification/Sha256.thy ===== *)
theory Sha256
  imports NL_Prelude
begin

unbundle bit_operations_syntax

text \<open>
  The parts of Go's standard library \<^verbatim>\<open>crypto/sha256\<close>, \<^verbatim>\<open>crypto/hmac\<close> and
  \<^verbatim>\<open>encoding/hex\<close> that NexusLink calls: SHA-256 (FIPS 180-4), HMAC (RFC 2104) over it, and
  the lower-case hexadecimal encoding. They are ordinary executable definitions, so the models
  of \<open>Sign\<close>, \<open>Verify\<close> and of the password hashes have no abstract parameter for the hash.
\<close>

section \<open>SHA-256\<close>

type_synonym u32 = "32 word"
type_synonym sha_state = "u32 \<times> u32 \<times> u32 \<times> u32 \<times> u32 \<times> u32 \<times> u32 \<times> u32"

definition rotr32 :: "nat \<Rightarrow> u32 \<Rightarrow> u32" where
  "rotr32 n w = drop_bit n w OR push_bit (32 - n) w"

text \<open>
  FIPS 180-4 defines the round constants as the first 32 bits of the fractional parts of the cube
  roots of the first 64 primes, and the initial hash value by the square roots of the first 8.
  \<open>iroot e n\<close> is the largest \<open>r < 2 ^ 40\<close> with \<open>r ^ e \<le> n\<close>, found bit by bit; scaling the
  radicand by \<open>2 ^ (32 * e)\<close> moves 32 fractional bits in front of the point.
\<close>

definition small_primes :: "nat \<Rightarrow> int list" where
  "small_primes k = take k (filter (\<lambda>p. list_all (\<lambda>d. p mod d \<noteq> 0) [2..p - 1]) [2..311])"

definition iroot :: "nat \<Rightarrow> int \<Rightarrow> int" where
  "iroot e n = foldl (\<lambda>r i. let c = r + 2 ^ i in if c ^ e \<le> n then c else r) 0 (rev [0..<40])"

definition frac_bits :: "nat \<Rightarrow> int \<Rightarrow> u32" where
  "frac_bits e p = word_of_int (iroot e (p * 2 ^ (32 * e)))"

definition sha_K :: "u32 list" where
  "sha_K = map (frac_bits 3) (small_primes 64)"

definition sha_init :: sha_state where
  "sha_init =
     (frac_bits 2 2, frac_bits 2 3, frac_bits 2 5, frac_bits 2 7,
      frac_bits 2 11, frac_bits 2 13, frac_bits 2 17, frac_bits 2 19)"

definition ssig0 :: "u32 \<Rightarrow> u32" where
  "ssig0 x = rotr32 7 x XOR rotr32 18 x XOR drop_bit 3 x"

definition ssig1 :: "u32 \<Rightarrow> u32" where
  "ssig1 x = rotr32 17 x XOR rotr32 19 x XOR drop_bit 10 x"

definition bsig0 :: "u32 \<Rightarrow> u32" where
  "bsig0 x = rotr32 2 x XOR rotr32 13 x XOR rotr32 22 x"

definition bsig1 :: "u32 \<Rightarrow> u32" where
  "bsig1 x = rotr32 6 x XOR rotr32 11 x XOR rotr32 25 x"

definition sha_pad :: "bytes \<Rightarrow> bytes" where
  "sha_pad m =
     m @ [0x80] @ replicate ((119 - length m mod 64) mod 64) 0 @ be_enc 8 (8 * length m)"

function chunks :: "nat \<Rightarrow> 'a list \<Rightarrow> 'a list list" where
  "chunks n xs = (if n = 0 \<or> xs = [] then [] else take n xs # chunks n (drop n xs))"
  by pat_completeness auto
termination
  by (relation "measure (\<lambda>(n, xs). length xs)") auto

declare chunks.simps [simp del]

text \<open>The message schedule, most recent word first.\<close>

fun sha_sched :: "nat \<Rightarrow> u32 list \<Rightarrow> u32 list" where
  "sha_sched 0 ws = ws"
| "sha_sched (Suc k) ws =
     sha_sched k ((ssig1 (ws ! 1) + ws ! 6 + ssig0 (ws ! 14) + ws ! 15) # ws)"

definition block_words :: "bytes \<Rightarrow> u32 list" where
  "block_words blk = map (\<lambda>c. word_of_nat (be_dec c)) (chunks 4 blk)"

fun sha_round :: "u32 \<times> u32 \<Rightarrow> sha_state \<Rightarrow> sha_state" where
  "sha_round (k, w) (a, b, c, d, e, f, g, h) =
     (let t1 = h + bsig1 e + ((e AND f) XOR (NOT e AND g)) + k + w;
          t2 = bsig0 a + ((a AND b) XOR (a AND c) XOR (b AND c))
      in (t1 + t2, a, b, c, d + t1, e, f, g))"

fun sha_add :: "sha_state \<Rightarrow> sha_state \<Rightarrow> sha_state" where
  "sha_add (a, b, c, d, e, f, g, h) (a', b', c', d', e', f', g', h') =
     (a + a', b + b', c + c', d + d', e + e', f + f', g + g', h + h')"

definition sha_block :: "bytes \<Rightarrow> sha_state \<Rightarrow> sha_state" where
  "sha_block blk st =
     sha_add st (fold sha_round (zip sha_K (rev (sha_sched 48 (rev (block_words blk))))) st)"

fun sha_out :: "sha_state \<Rightarrow> bytes" where
  "sha_out (a, b, c, d, e, f, g, h) = concat (map PutUint32 [a, b, c, d, e, f, g, h])"

definition Sum256 :: "bytes \<Rightarrow> bytes" where
  "Sum256 m = sha_out (fold sha_block (chunks 64 (sha_pad m)) sha_init)"

section \<open>HMAC\<close>

definition hmac_key :: "bytes \<Rightarrow> bytes" where
  "hmac_key k = (let k' = (if 64 < length k then Sum256 k else k) in k' @ replicate (64 - length k') 0)"

definition hmac_sha256 :: "bytes \<Rightarrow> bytes \<Rightarrow> bytes" where
  "hmac_sha256 k m =
     Sum256 (map (\<lambda>b. b XOR 0x5c) (hmac_key k) @
       Sum256 (map (\<lambda>b. b XOR 0x36) (hmac_key k) @ m))"

section \<open>Hexadecimal\<close>

definition hex_digit :: "nat \<Rightarrow> char" where
  "hex_digit n = ''0123456789abcdef'' ! n"

definition hex_EncodeToString :: "bytes \<Rightarrow> string" where
  "hex_EncodeToString bs = concat (map (\<lambda>b. [hex_digit (unat b div 16), hex_digit (unat b mod 16)]) bs)"

lemma length_sha_out [simp]: "length (sha_out st) = 32"
  by (cases st rule: sha_out.cases) simp

lemma length_Sum256 [simp, byte_simps]: "length (Sum256 m) = 32"
  by (simp add: Sum256_def)

lemma length_hmac_sha256 [simp, byte_simps]: "length (hmac_sha256 k m) = 32"
  by (simp add: hmac_sha256_def)

text \<open>Every padded message is a whole number of 64-byte blocks.\<close>

lemma length_sha_pad: "64 dvd length (sha_pad m)"
proof -
  define r where "r = length m mod 64"
  have len: "length (sha_pad m) = length m + 9 + (119 - r) mod 64"
    by (simp add: sha_pad_def r_def)
  have m: "length m = 64 * (length m div 64) + r" and r: "r < 64"
    by (simp_all add: r_def)
  have pad: "(119 - r) mod 64 = (if r \<le> 55 then 55 - r else 119 - r)"
    using r by (simp add: mod_if)
  have "length (sha_pad m) = 64 * (length m div 64 + (if r \<le> 55 then 1 else 2))"
    using len m r pad by (simp split: if_splits)
  then show ?thesis by (rule dvdI)
qed

lemma hex_digit_inj: "i < 16 \<Longrightarrow> j < 16 \<Longrightarrow> hex_digit i = hex_digit j \<Longrightarrow> i = j"
proof -
  assume "i < 16" "j < 16" "hex_digit i = hex_digit j"
  moreover have "distinct ''0123456789abcdef''" by simp
  ultimately show ?thesis
    unfolding hex_digit_def by (subst (asm) nth_eq_iff_index_eq) simp_all
qed

lemma length_hex [simp]: "length (hex_EncodeToString bs) = 2 * length bs"
  by (induction bs) (simp_all add: hex_EncodeToString_def)

lemma hex_inject: "hex_EncodeToString xs = hex_EncodeToString ys \<Longrightarrow> xs = ys"
proof (induction xs arbitrary: ys)
  case Nil
  then show ?case by (cases ys) (simp_all add: hex_EncodeToString_def)
next
  case (Cons x xs)
  then obtain y zs where ys: "ys = y # zs" by (cases ys) (auto simp: hex_EncodeToString_def)
  have d: "unat x div 16 = unat y div 16" "unat x mod 16 = unat y mod 16"
    using Cons.prems ys by (auto simp: hex_EncodeToString_def div_less_iff_less_mult intro!: hex_digit_inj)
  then have "unat x = unat y" by (metis div_mult_mod_eq)
  then show ?case using Cons ys by (auto simp: hex_EncodeToString_def word_unat_eq_iff)
qed

end
