(* ===== verification/Auth.thy ===== *)
theory Auth
  imports Sha256
begin

text \<open>
  Model of \<^verbatim>\<open>pkg/auth/auth.go\<close>: the packet authenticator of the data channels. A signed
  datagram is \<^verbatim>\<open>[32 bytes HMAC][8 bytes timestamp][data]\<close>; a signed frame of a TCP data
  channel has a 4-byte big-endian length in front. \<open>now\<close> is the value of
  \<^verbatim>\<open>uint64(time.Now().Unix())\<close> at the call. The 64-bit timestamp arithmetic wraps, as in the
  code.
\<close>

definition SignatureSize :: nat where [simp]: "SignatureSize = 32"
definition TimestampSize :: nat where [simp]: "TimestampSize = 8"
definition HeaderSize :: nat where [simp]: "HeaderSize = SignatureSize + TimestampSize"
definition MaxTimeOffset :: "64 word" where "MaxTimeOffset = 300"
definition LengthPrefixSize :: nat where [simp]: "LengthPrefixSize = 4"
definition FrameHeaderSize :: nat where [simp]: "FrameHeaderSize = LengthPrefixSize + HeaderSize"
definition MaxFrameData :: nat where "MaxFrameData = 16 * 1024 * 1024"

record Auth =
  secret :: bytes

definition NewAuth :: "string \<Rightarrow> Auth" where
  "NewAuth token = \<lparr>secret = bytes_of_string token\<rparr>"

definition Sign :: "Auth \<Rightarrow> 64 word \<Rightarrow> bytes \<Rightarrow> bytes" where
  "Sign a now data =
     (let tsBytes = PutUint64 now;
          signature = hmac_sha256 (secret a) (tsBytes @ data)
      in signature @ tsBytes @ data)"

text \<open>\<^verbatim>\<open>timestamp > now+MaxTimeOffset || timestamp < now-MaxTimeOffset\<close> refuses a packet.\<close>

definition inWindow :: "64 word \<Rightarrow> 64 word \<Rightarrow> bool" where
  "inWindow now timestamp \<longleftrightarrow>
     \<not> (timestamp > now + MaxTimeOffset \<or> timestamp < now - MaxTimeOffset)"

definition Verify :: "Auth \<Rightarrow> 64 word \<Rightarrow> bytes \<Rightarrow> bytes option" where
  "Verify a now signedData =
     (if length signedData < HeaderSize then None
      else
        let receivedSig = slice 0 SignatureSize signedData;
            tsBytes = slice SignatureSize HeaderSize signedData;
            data = drop HeaderSize signedData;
            timestamp = Uint64 tsBytes
        in if \<not> inWindow now timestamp then None
           else
             let expectedSig = hmac_sha256 (secret a) (tsBytes @ data)
             in if receivedSig \<noteq> expectedSig then None else Some data)"

definition SignFramed :: "Auth \<Rightarrow> 64 word \<Rightarrow> bytes \<Rightarrow> bytes" where
  "SignFramed a now data =
     (let tsBytes = PutUint64 now;
          signature = hmac_sha256 (secret a) (tsBytes @ data);
          dataLen = word_of_nat (length data) :: 32 word
      in PutUint32 dataLen @ signature @ tsBytes @ data)"

definition VerifyFramed :: "Auth \<Rightarrow> 64 word \<Rightarrow> bytes \<Rightarrow> bytes option" where
  "VerifyFramed a now frame =
     (if length frame < FrameHeaderSize then None
      else
        let dataLen = unat (Uint32 (slice 0 LengthPrefixSize frame))
        in if dataLen > length frame - FrameHeaderSize then None
           else
             let receivedSig = slice LengthPrefixSize (LengthPrefixSize + SignatureSize) frame;
                 tsBytes = slice (LengthPrefixSize + SignatureSize) FrameHeaderSize frame;
                 data = slice FrameHeaderSize (FrameHeaderSize + dataLen) frame;
                 timestamp = Uint64 tsBytes
             in if \<not> inWindow now timestamp then None
                else
                  let expectedSig = hmac_sha256 (secret a) (tsBytes @ data)
                  in if receivedSig \<noteq> expectedSig then None else Some data)"

definition ReadFramed :: "Auth \<Rightarrow> 64 word \<Rightarrow> stream \<Rightarrow> io_err + bytes \<times> stream" where
  "ReadFramed a now r =
     (case ReadFull FrameHeaderSize r of
        Inl err \<Rightarrow> Inl err
      | Inr (header, r1) \<Rightarrow>
          let dataLen = unat (Uint32 (slice 0 LengthPrefixSize header))
          in if dataLen > MaxFrameData then Inl ErrUnexpectedEOF
             else
               (case (if dataLen > 0 then ReadFull dataLen r1 else Inr ([], r1)) of
                  Inl err \<Rightarrow> Inl err
                | Inr (data, r2) \<Rightarrow>
                    (case VerifyFramed a now (header @ data) of
                       None \<Rightarrow> Inl ErrUnexpectedEOF
                     | Some payload \<Rightarrow> Inr (payload, r2))))"

text \<open>
  \<^verbatim>\<open>GenerateToken\<close> fills byte \<open>i\<close> from a fresh reading \<open>nano i\<close> of the nanosecond clock,
  shifted right by \<open>5 * i\<close> bits (an arithmetic shift of an \<^verbatim>\<open>int64\<close>).
\<close>

definition GenerateToken :: "(nat \<Rightarrow> int) \<Rightarrow> string" where
  "GenerateToken nano =
     hex_EncodeToString (map (\<lambda>i. word_of_int (drop_bit (i * 5) (nano i))) [0..<16])"

section \<open>Datagrams\<close>

lemma drop_slice_split:
  "40 \<le> length sd \<Longrightarrow> sd = take 32 sd @ slice 32 40 sd @ drop 40 sd"
  using take_slice_drop [of 32 40 sd] by simp

lemma Sign_alt: "Sign a t d = hmac_sha256 (secret a) (PutUint64 t @ d) @ PutUint64 t @ d"
  by (simp add: Sign_def Let_def)

lemma length_Sign [simp]: "length (Sign a t d) = 40 + length d"
  by (simp add: Sign_alt)

lemma Verify_Sign: "Verify a now (Sign a t d) = (if inWindow now t then Some d else None)"
  by (simp add: Verify_def Sign_alt Let_def slice_def)

lemma Verify_Some_iff:
  "Verify a now sd = Some d \<longleftrightarrow> (\<exists>t. sd = Sign a t d \<and> inWindow now t)"
proof
  assume L: "Verify a now sd = Some d"
  let ?ts = "slice 32 40 sd"
  from L have len: "40 \<le> length sd" and w: "inWindow now (Uint64 ?ts)"
    and d: "d = drop 40 sd" and s: "take 32 sd = hmac_sha256 (secret a) (?ts @ d)"
    by (auto simp: Verify_def Let_def byte_simps split: if_splits)
  have "PutUint64 (Uint64 ?ts) = ?ts"
    using len by (intro PutUint64_Uint64) (simp add: length_slice)
  with drop_slice_split [OF len] s d have "sd = Sign a (Uint64 ?ts) d"
    by (simp add: Sign_alt)
  with w show "\<exists>t. sd = Sign a t d \<and> inWindow now t" by blast
next
  assume "\<exists>t. sd = Sign a t d \<and> inWindow now t"
  then show "Verify a now sd = Some d" by (auto simp: Verify_Sign)
qed

text \<open>The window test on machine words is the distance test, away from both ends of the range.\<close>

lemma inWindow_iff:
  assumes "300 \<le> unat now" and "unat now + 300 < 2 ^ 64"
  shows "inWindow now t \<longleftrightarrow> \<bar>int (unat t) - int (unat now)\<bar> \<le> 300"
proof -
  have p: "unat (now + 300) = unat now + 300"
    using assms(2) by (simp add: unat_word_ariths)
  have m: "unat (now - 300) = unat now - 300"
    using assms(1) by (simp add: unat_sub_if')
  show ?thesis
    unfolding inWindow_def MaxTimeOffset_def word_less_nat_alt p m using assms(1) by arith
qed

text \<open>In the first five minutes after the epoch the lower bound wraps and nothing passes.\<close>

lemma inWindow_near_epoch:
  assumes "unat now < 300" shows "\<not> inWindow now t"
proof -
  have p: "unat (now + 300) = unat now + 300"
    using assms by (simp add: unat_word_ariths)
  have m: "unat (now - 300) = 2 ^ 64 + unat now - 300"
    using assms by (simp add: unat_sub_if')
  show ?thesis
    unfolding inWindow_def MaxTimeOffset_def word_less_nat_alt p m using assms by auto
qed

section \<open>Frames\<close>

lemma SignFramed_alt:
  "SignFramed a t d = PutUint32 (word_of_nat (length d)) @ Sign a t d"
  by (simp add: SignFramed_def Sign_def Let_def)

lemma length_SignFramed [simp]: "length (SignFramed a t d) = 44 + length d"
  by (simp add: SignFramed_alt)

lemma VerifyFramed_split:
  assumes "length hd4 = 4"
  shows "VerifyFramed a now (hd4 @ sd) =
    (let n = unat (Uint32 hd4) in
     if length sd < 40 + n then None else Verify a now (take (40 + n) sd))"
proof -
  have eq: "slice 44 (44 + n) (hd4 @ sd) = drop 40 (take (40 + n) sd)" for n
    using assms by (simp add: slice_def take_drop add.commute)
  have t: "take (32::nat) (take (40 + n) sd) = take 32 sd" "slice 32 40 (take (40 + n) sd) = slice 32 40 sd" for n
    by (simp_all add: slice_def drop_take min_def)
  have s: "slice 0 4 (hd4 @ sd) = hd4" "slice 4 36 (hd4 @ sd) = take 32 sd"
    "slice 36 44 (hd4 @ sd) = slice 32 40 sd"
    using assms by (simp_all add: slice_def)
  show ?thesis
    using assms by (auto simp: VerifyFramed_def Verify_def Let_def eq t s slice_all)
qed

lemma VerifyFramed_Some_iff:
  "VerifyFramed a now f = Some d \<longleftrightarrow>
     (\<exists>t extra. f = SignFramed a t d @ extra \<and> inWindow now t \<and> length d < 2 ^ 32)"
proof
  assume L: "VerifyFramed a now f = Some d"
  then have "44 \<le> length f" by (auto simp: VerifyFramed_def split: if_splits)
  then obtain h sd where f: "f = h @ sd" and h: "length h = 4"
    by (metis append_take_drop_id length_take min.absorb2 numeral_le_iff le_trans semiring_norm(69)
        semiring_norm(71) semiring_norm(68))
  let ?n = "unat (Uint32 h)"
  from L f h obtain t where sd: "take (40 + ?n) sd = Sign a t d" and n: "40 + ?n \<le> length sd"
    and w: "inWindow now t"
    by (auto simp: VerifyFramed_split Let_def Verify_Some_iff split: if_splits)
  have ld: "length d = ?n" using arg_cong [OF sd, of length] n by simp
  then have "h = PutUint32 (word_of_nat (length d))" using h by (simp add: PutUint32_Uint32)
  then have "f = SignFramed a t d @ drop (40 + ?n) sd"
    using f sd by (metis SignFramed_alt append.assoc append_take_drop_id)
  moreover have "length d < 2 ^ 32" using ld unat_less [of "Uint32 h"] by simp
  ultimately show "\<exists>t extra. f = SignFramed a t d @ extra \<and> inWindow now t \<and> length d < 2 ^ 32"
    using w by blast
next
  assume "\<exists>t extra. f = SignFramed a t d @ extra \<and> inWindow now t \<and> length d < 2 ^ 32"
  then show "VerifyFramed a now f = Some d"
    by (auto simp: SignFramed_alt VerifyFramed_split Let_def unat_of_nat Verify_Sign)
qed

lemma VerifyFramed_exact:
  assumes "length f = 44 + n" "Uint32 (take 4 f) = word_of_nat n" "n < 2 ^ 32"
  shows "VerifyFramed a now f = Some d \<longleftrightarrow> (\<exists>t. f = SignFramed a t d \<and> inWindow now t)"
proof
  assume "VerifyFramed a now f = Some d"
  then obtain t x where f: "f = SignFramed a t d @ x" "inWindow now t" "length d < 2 ^ 32"
    by (auto simp: VerifyFramed_Some_iff)
  then have "take 4 f = PutUint32 (word_of_nat (length d))" by (simp add: SignFramed_alt)
  with assms(2) have "unat (word_of_nat (length d) :: 32 word) = unat (word_of_nat n :: 32 word)" by simp
  with assms(3) f(3) have "length d = n" by (simp add: unat_of_nat)
  with assms(1) f show "\<exists>t. f = SignFramed a t d \<and> inWindow now t" by auto
next
  assume "\<exists>t. f = SignFramed a t d \<and> inWindow now t"
  moreover from this assms(1,3) have "length d < 2 ^ 32" by auto
  ultimately show "VerifyFramed a now f = Some d"
    by (subst VerifyFramed_Some_iff) (metis append_Nil2)
qed

lemma ReadFramed_eq:
  "ReadFramed a now s = Inr (d, s') \<longleftrightarrow>
     (\<exists>n. n = unat (Uint32 (take 4 (inb s))) \<and> 44 + n \<le> length (inb s) \<and>
        n \<le> MaxFrameData \<and> VerifyFramed a now (take (44 + n) (inb s)) = Some d \<and>
        s' = s\<lparr>inb := drop (44 + n) (inb s)\<rparr>)"
proof -
  define n where "n = unat (Uint32 (take 4 (inb s)))"
  have n: "unat (Uint32 (slice 0 4 (take 44 (inb s)))) = n"
    by (simp add: n_def slice_all)
  have rd2: "(if n > 0 then ReadFull n (s\<lparr>inb := drop 44 (inb s)\<rparr>) else Inr ([], s\<lparr>inb := drop 44 (inb s)\<rparr>))
     = ReadFull n (s\<lparr>inb := drop 44 (inb s)\<rparr>)"
    by (simp add: ReadFull_def)
  have tk: "take 44 (inb s) @ take n (drop 44 (inb s)) = take (44 + n) (inb s)"
    by (simp add: take_add)
  show ?thesis
  proof (cases "44 + n \<le> length (inb s)")
    case True
    then have "ReadFramed a now s =
      (if n > MaxFrameData then Inl ErrUnexpectedEOF
       else case VerifyFramed a now (take (44 + n) (inb s)) of
          None \<Rightarrow> Inl ErrUnexpectedEOF | Some p \<Rightarrow> Inr (p, s\<lparr>inb := drop (44 + n) (inb s)\<rparr>))"
      unfolding ReadFramed_def
      by (simp add: ReadFull_def [of 44] Let_def n rd2) (auto simp: ReadFull_def tk add.commute [of n] split: option.split)
    then show ?thesis using True unfolding n_def [symmetric] by (auto split: option.splits)
  next
    case False
    then have "ReadFramed a now s \<noteq> Inr (d, s')"
      unfolding ReadFramed_def
      by (cases "44 \<le> length (inb s)")
        (simp_all add: ReadFull_def [of 44] Let_def n rd2, auto simp: ReadFull_def)
    with False show ?thesis unfolding n_def [symmetric] by auto
  qed
qed

text \<open>
  Reading a frame succeeds exactly on a frame that the holder of the secret signed at a time
  in the window, and leaves exactly the bytes behind it.
\<close>

lemma ReadFramed_Inr_iff:
  "ReadFramed a now s = Inr (d, s') \<longleftrightarrow>
     (\<exists>t. inb s = SignFramed a t d @ inb s' \<and> tail_err s' = tail_err s \<and> inWindow now t \<and>
        length d \<le> MaxFrameData)"
proof
  assume "ReadFramed a now s = Inr (d, s')"
  then obtain n where n: "n = unat (Uint32 (take 4 (inb s)))" "44 + n \<le> length (inb s)"
      "n \<le> MaxFrameData" "VerifyFramed a now (take (44 + n) (inb s)) = Some d"
      "s' = s\<lparr>inb := drop (44 + n) (inb s)\<rparr>"
    by (auto simp: ReadFramed_eq)
  have "n < 2 ^ 32" using n(1) unat_less [of "Uint32 (take 4 (inb s))"] by simp
  moreover have "Uint32 (take 4 (take (44 + n) (inb s))) = word_of_nat n" using n(1) by (simp add: min_def)
  ultimately obtain t where t: "take (44 + n) (inb s) = SignFramed a t d" "inWindow now t"
    using VerifyFramed_exact [of "take (44 + n) (inb s)" n a now d] n(2,4) by auto
  have "length d = n" using arg_cong [OF t(1), of length] n(2) by simp
  with n t show "\<exists>t. inb s = SignFramed a t d @ inb s' \<and> tail_err s' = tail_err s \<and> inWindow now t \<and>
      length d \<le> MaxFrameData"
    by (metis append_take_drop_id stream.select_convs(1) stream.select_convs(2) stream.surjective
        stream.update_convs(1))
next
  assume "\<exists>t. inb s = SignFramed a t d @ inb s' \<and> tail_err s' = tail_err s \<and> inWindow now t \<and>
      length d \<le> MaxFrameData"
  then obtain t where t: "inb s = SignFramed a t d @ inb s'" "tail_err s' = tail_err s"
      "inWindow now t" "length d \<le> MaxFrameData" by blast
  let ?n = "length d"
  have n: "?n < 2 ^ 32" using t(4) by (simp add: MaxFrameData_def)
  have "take 4 (inb s) = PutUint32 (word_of_nat ?n)" using t(1) by (simp add: SignFramed_alt)
  then have "unat (Uint32 (take 4 (inb s))) = ?n" using n by (simp add: unat_of_nat)
  moreover have "VerifyFramed a now (take (44 + ?n) (inb s)) = Some d"
    using t n by (subst VerifyFramed_Some_iff) auto
  ultimately show "ReadFramed a now s = Inr (d, s')"
    using t by (auto simp: ReadFramed_eq)
qed

interpretation framed: frame_codec "\<lambda>i. SignFramed a (ts i)" "\<lambda>i. ReadFramed a (clk i)"
    "\<lambda>i d. length d \<le> MaxFrameData \<and> inWindow (clk i) (ts i)" "\<lambda>e. e" for a ts clk
proof unfold_locales
  fix i and m rest :: bytes and e
  assume "length m \<le> MaxFrameData \<and> inWindow (clk i) (ts i)"
  then show "ReadFramed a (clk i) \<lparr>inb = SignFramed a (ts i) m @ rest, tail_err = e\<rparr> =
      Inr (m, \<lparr>inb = rest, tail_err = e\<rparr>)"
    by (auto simp: ReadFramed_Inr_iff)
next
  fix i s m s'
  assume "ReadFramed a (clk i) s = Inr (m, s')"
  then show "length (inb s') < length (inb s)" by (auto simp: ReadFramed_Inr_iff)
next
  fix i e
  show "ReadFramed a (clk i) \<lparr>inb = [], tail_err = e\<rparr> = Inl e" by (simp add: ReadFramed_def)
qed

lemma SignFramed_inject:
  "SignFramed a t d = SignFramed a t' d' \<longleftrightarrow> t = t' \<and> d = d'"
proof
  assume eq: "SignFramed a t d = SignFramed a t' d'"
  then have "Sign a t d = Sign a t' d'" by (simp add: SignFramed_alt)
  then have "PutUint64 t @ d = PutUint64 t' @ d'" by (simp add: Sign_alt)
  then show "t = t' \<and> d = d'" by (auto dest: arg_cong [of _ _ Uint64])
qed simp

section \<open>Properties\<close>

text \<open>
  C1: \<open>Verify\<close> returns data exactly for the byte strings that \<open>Sign\<close> with the same secret makes of
  that data at a time at most 300 seconds away from the verifier's clock (for a clock more than
  five minutes away from either end of the 64-bit range). So a datagram in which a single bit of
  the signature, the timestamp or the data was changed is accepted only if the changed bytes are
  again an HMAC-valid packet.
\<close>
theorem verify_accepts_exactly_fresh_signed:
  assumes "300 \<le> unat now" and "unat now + 300 < 2 ^ 64"
  shows "Verify a now sd = Some d \<longleftrightarrow>
    (\<exists>t. sd = Sign a t d \<and> \<bar>int (unat t) - int (unat now)\<bar> \<le> 300)"
  by (simp add: Verify_Some_iff inWindow_iff [OF assms])

theorem verify_accepts_exactly_fresh_signed_witness:
  "Verify (NewAuth ''k'') 1000 (Sign (NewAuth ''k'') 1300 [1, 2]) = Some [1, 2]"
  using verify_accepts_exactly_fresh_signed
      [of 1000 "NewAuth ''k''" "Sign (NewAuth ''k'') 1300 [1, 2]" "[1, 2]"]
  by fastforce

text \<open>
  C2: The receive loop of a TCP data channel, run on any byte stream whatsoever, delivers only
  payloads that were signed under the channel's secret at a time inside the window of the reading
  clock, in the order in which their frames stand in the stream, with no byte skipped between
  them; and it never stops for lack of fuel when the fuel exceeds the stream's length.
\<close>
theorem receive_loop_delivers_only_authentic:
  assumes "drain fuel (\<lambda>i. ReadFramed a (clk i)) i s = (ds, r)" and "length (inb s) < fuel"
  shows "r \<noteq> None \<and> (\<exists>ts rest. (\<forall>k < length ds. inWindow (clk (i + k)) (ts (i + k))) \<and>
    inb s = write_run (\<lambda>j. SignFramed a (ts j)) i ds @ rest)"
proof -
  have "r \<noteq> None" using framed.drain_ends [OF assms(2), of a clk i] assms(1) by simp
  moreover have "\<exists>ts rest. (\<forall>k < length ds. inWindow (clk (i + k)) (ts (i + k))) \<and>
      inb s = write_run (\<lambda>j. SignFramed a (ts j)) i ds @ rest"
    using assms(1)
  proof (induction fuel arbitrary: i s ds)
    case 0
    then show ?case by auto
  next
    case (Suc fuel)
    show ?case
    proof (cases "ReadFramed a (clk i) s")
      case (Inl e)
      with Suc.prems show ?thesis by auto
    next
      case (Inr p)
      obtain d s' where rd: "ReadFramed a (clk i) s = Inr (d, s')" using Inr by (cases p) auto
      then obtain t where t: "inb s = SignFramed a t d @ inb s'" "inWindow (clk i) t"
        by (auto simp: ReadFramed_Inr_iff)
      from Suc.prems rd obtain ds' where ds: "ds = d # ds'"
          "drain fuel (\<lambda>i. ReadFramed a (clk i)) (Suc i) s' = (ds', r)"
        by (auto split: prod.splits)
      from Suc.IH [OF ds(2)] obtain ts rest where
          IH: "\<forall>k < length ds'. inWindow (clk (Suc i + k)) (ts (Suc i + k))"
            "inb s' = write_run (\<lambda>j. SignFramed a (ts j)) (Suc i) ds' @ rest" by blast
      have "write_run (\<lambda>j. SignFramed a ((ts(i := t)) j)) m ds' = write_run (\<lambda>j. SignFramed a (ts j)) m ds'"
        if "i < m" for m using that by (induction ds' arbitrary: m) auto
      with t ds(1) IH show ?thesis
        by (intro exI [of _ "ts(i := t)"] exI [of _ rest]) (auto simp: less_Suc_eq_0_disj)
    qed
  qed
  ultimately show ?thesis by blast
qed

theorem receive_loop_delivers_only_authentic_witness:
  "\<exists>ts rest. inWindow 1000 (ts 0) \<and>
     SignFramed (NewAuth ''k'') 900 [7, 8] = write_run (\<lambda>j. SignFramed (NewAuth ''k'') (ts j)) 0 [[7, 8]] @ rest"
proof -
  let ?s = "\<lparr>inb = write_run (\<lambda>_. SignFramed (NewAuth ''k'') 900) 0 [[7, 8]], tail_err = EOF\<rparr>"
  have "inWindow 1000 900" by (simp add: inWindow_def MaxTimeOffset_def)
  then have d: "drain 100 (\<lambda>i. ReadFramed (NewAuth ''k'') 1000) 0 ?s = ([[7, 8]], Some EOF)"
    by (intro framed.drain_write_run) (simp_all add: MaxFrameData_def)
  have "length (inb ?s) < 100" by simp
  from receive_loop_delivers_only_authentic [OF d this] show ?thesis by auto
qed

text \<open>
  Stateless verification: one signed datagram is accepted at every moment in the 300 seconds
  from its signing, any number of times. The time window bounds how late a captured packet can be
  replayed; it does not stop the replay itself.
\<close>
theorem replay_within_window_accepted:
  assumes "300 \<le> unat t" and "unat t + 600 < 2 ^ 64"
    and "\<forall>now \<in> set nows. unat t \<le> unat now \<and> unat now \<le> unat t + 300"
  shows "map (\<lambda>now. Verify a now (Sign a t d)) nows = replicate (length nows) (Some d)"
proof -
  have "Verify a now (Sign a t d) = Some d" if "now \<in> set nows" for now
  proof -
    from assms that have n: "300 \<le> unat now" "unat now + 300 < 2 ^ 64" by fastforce+
    from assms(3) that have "unat t \<le> unat now \<and> unat now \<le> unat t + 300" by blast
    then have "\<bar>int (unat t) - int (unat now)\<bar> \<le> 300" by arith
    then have "inWindow now t" by (simp only: inWindow_iff [OF n])
    then show ?thesis by (simp add: Verify_Sign)
  qed
  then have "map (\<lambda>now. Verify a now (Sign a t d)) nows = map (\<lambda>_. Some d) nows" by simp
  then show ?thesis by (simp add: map_replicate_const)
qed

theorem replay_within_window_accepted_witness:
  "map (\<lambda>now. Verify (NewAuth ''k'') now (Sign (NewAuth ''k'') 1000 [9])) [1000, 1000, 1299] =
     [Some [9], Some [9], Some [9]]"
  using replay_within_window_accepted [of 1000 "[1000, 1000, 1299]" "NewAuth ''k''" "[9]"] by simp

text \<open>
  The \<open>random\<close> token of \<^verbatim>\<open>-gen-token\<close> is a function of clock readings only, and its last three
  bytes are always zero: for a clock that is a non-negative 63-bit nanosecond count, every
  generated token ends in six zero digits.
\<close>
theorem GenerateToken_zero_suffix:
  assumes "\<forall>i < 16. 0 \<le> nano i \<and> nano i < 2 ^ 63"
  shows "length (GenerateToken nano) = 32 \<and> drop 26 (GenerateToken nano) = ''000000''"
proof -
  let ?b = "\<lambda>i. word_of_int (drop_bit (i * 5) (nano i)) :: byte"
  have z: "?b i = 0" if "13 \<le> i" "i < 16" for i
  proof -
    have "nano i < 2 ^ (i * 5)"
      using assms that power_increasing [of 63 "i * 5" "2 :: int"] by force
    then show ?thesis using assms that by (simp add: drop_bit_eq_div)
  qed
  have "[0..<16] = [0..<13] @ [13, 14, 15]" by (simp add: upt_rec)
  then have "GenerateToken nano = hex_EncodeToString (map ?b [0..<13]) @ hex_EncodeToString [?b 13, ?b 14, ?b 15]"
    unfolding GenerateToken_def by (simp add: hex_EncodeToString_def)
  moreover have "hex_EncodeToString [?b 13, ?b 14, ?b 15] = ''000000''"
    using z [of 13] z [of 14] z [of 15] by (simp add: hex_EncodeToString_def hex_digit_def)
  ultimately show ?thesis by simp
qed

theorem GenerateToken_zero_suffix_witness:
  "length (GenerateToken (\<lambda>_. 1700000000123456789)) = 32 \<and>
   drop 26 (GenerateToken (\<lambda>_. 1700000000123456789)) = ''000000''"
  by (rule GenerateToken_zero_suffix) simp

end
