(* ===== verification/Protocol.thy ===== *)
theory Protocol
  imports NL_Prelude
begin

text \<open>
  Model of \<^verbatim>\<open>pkg/protocol/message.go\<close>: the messages of the control channel, their framing
  \<^verbatim>\<open>[magic 2][version 1][type 1][length 4][payload]\<close>, and the compact envelope of the UDP data
  channel. The JSON encoder and decoder of the payload are arguments (\<open>mar\<close>, \<open>unm\<close>) of the
  operations that call them; no theorem depends on what they are. Go's \<^verbatim>\<open>int\<close> fields (64 bits, ports
  and counts) are \<open>int\<close>.
\<close>

section \<open>Constants and messages\<close>

definition MagicNumber :: "16 word" where "MagicNumber = 0x4E4C"
definition ProtocolVersion :: byte where "ProtocolVersion = 1"
definition MsgHeaderSize :: nat where [simp]: "MsgHeaderSize = 8"
definition MaxMessageSize :: nat where "MaxMessageSize = 10 * 1024 * 1024"

type_synonym MessageType = byte

definition TypeLogin :: MessageType where "TypeLogin = 0x01"
definition TypeLoginResp :: MessageType where "TypeLoginResp = 0x02"
definition TypeNewProxy :: MessageType where "TypeNewProxy = 0x03"
definition TypeNewProxyResp :: MessageType where "TypeNewProxyResp = 0x04"
definition TypeNewConn :: MessageType where "TypeNewConn = 0x05"
definition TypeCloseProxy :: MessageType where "TypeCloseProxy = 0x06"
definition TypeHeartbeat :: MessageType where "TypeHeartbeat = 0x07"
definition TypeHeartbeatResp :: MessageType where "TypeHeartbeatResp = 0x08"
definition TypeDataConn :: MessageType where "TypeDataConn = 0x09"
definition TypeSyncProxies :: MessageType where "TypeSyncProxies = 0x0A"
definition TypeSyncProxiesResp :: MessageType where "TypeSyncProxiesResp = 0x0B"
definition maxValidType :: MessageType where "maxValidType = 0x0F"

lemmas message_type_defs =
  TypeLogin_def TypeLoginResp_def TypeNewProxy_def TypeNewProxyResp_def TypeNewConn_def
  TypeCloseProxy_def TypeHeartbeat_def TypeHeartbeatResp_def TypeDataConn_def
  TypeSyncProxies_def TypeSyncProxiesResp_def

type_synonym ProxyType = string

definition ProxyTCP :: ProxyType where "ProxyTCP = ''tcp''"
definition ProxyUDP :: ProxyType where "ProxyUDP = ''udp''"

record Login =
  lg_Version :: string
  lg_Token :: string

record LoginResp =
  lr_Success :: bool
  lr_Error :: string

record NewProxy =
  np_Name :: string
  np_Type :: ProxyType
  np_RemotePort :: int
  np_LocalAddr :: string
  np_LocalPort :: int

record SyncProxyItem =
  si_Name :: string
  si_Type :: ProxyType
  si_RemotePort :: int
  si_LocalAddr :: string
  si_LocalPort :: int

record SyncProxiesResp =
  sr_Proxies :: "SyncProxyItem list"

record NewProxyResp =
  nr_Name :: string
  nr_Success :: bool
  nr_Error :: string
  nr_RemotePort :: int
  nr_UDPDataPort :: int

record NewConn =
  nc_ProxyName :: string
  nc_ConnID :: string
  nc_DataPort :: int

record CloseProxyMsg =
  cp_Name :: string

record Message =
  msg_Type :: MessageType
  msg_Data :: bytes

record DataConnIdentify =
  di_ConnID :: string

section \<open>Control-channel framing\<close>

definition frameMessage :: "MessageType \<Rightarrow> bytes \<Rightarrow> bytes" where
  "frameMessage msgType payload =
     PutUint16 MagicNumber @ [ProtocolVersion] @ [msgType] @
     PutUint32 (word_of_nat (length payload)) @ payload"

definition WriteMessage :: "('a \<Rightarrow> bytes option) \<Rightarrow> MessageType \<Rightarrow> 'a \<Rightarrow> bytes option" where
  "WriteMessage mar msgType data =
     (case mar data of None \<Rightarrow> None | Some payload \<Rightarrow> Some (frameMessage msgType payload))"

datatype proto_err =
  IoErr io_err | BadMagic "16 word" | BadVersion byte | BadType byte | TooLarge "32 word"

definition ReadMessage :: "stream \<Rightarrow> proto_err + Message \<times> stream" where
  "ReadMessage conn =
     (case ReadFull MsgHeaderSize conn of
        Inl err \<Rightarrow> Inl (IoErr err)
      | Inr (header, c1) \<Rightarrow>
          let magic = Uint16 (slice 0 2 header) in
          if magic \<noteq> MagicNumber then Inl (BadMagic magic)
          else let version = header ! 2 in
          if version \<noteq> ProtocolVersion then Inl (BadVersion version)
          else let msgType = header ! 3 in
          if msgType = 0 \<or> msgType > maxValidType then Inl (BadType msgType)
          else let len = Uint32 (slice 4 8 header) in
          if unat len > MaxMessageSize then Inl (TooLarge len)
          else
            (case (if unat len > 0 then ReadFull (unat len) c1 else Inr ([], c1)) of
               Inl err \<Rightarrow> Inl (IoErr err)
             | Inr (data, c2) \<Rightarrow> Inr (\<lparr>msg_Type = msgType, msg_Data = data\<rparr>, c2)))"

definition ParseMessage :: "(bytes \<Rightarrow> 'a option) \<Rightarrow> Message \<Rightarrow> 'a option" where
  "ParseMessage unm msg = unm (msg_Data msg)"

section \<open>UDP envelopes\<close>

record UDPEnvelope =
  env_Kind :: byte
  env_SessionID :: string
  env_Data :: bytes

definition UDPMaxPayload :: nat where "UDPMaxPayload = 65400"

definition MarshalEnvelope :: "UDPEnvelope \<Rightarrow> bytes" where
  "MarshalEnvelope e =
     (let sid = bytes_of_string (env_SessionID e) in
      [env_Kind e] @ PutUint16 (word_of_nat (length sid)) @ sid @ env_Data e)"

definition UnmarshalEnvelope :: "bytes \<Rightarrow> UDPEnvelope option" where
  "UnmarshalEnvelope b =
     (if length b < 3 then None
      else
        let kind = b ! 0; sidLen = unat (Uint16 (slice 1 3 b)) in
        if length b < 3 + sidLen then None
        else Some \<lparr>env_Kind = kind,
                   env_SessionID = string_of_bytes (slice 3 (3 + sidLen) b),
                   env_Data = drop (3 + sidLen) b\<rparr>)"

section \<open>Lemmas\<close>

definition valid_message :: "Message \<Rightarrow> bool" where
  "valid_message m \<longleftrightarrow> msg_Type m \<noteq> 0 \<and> msg_Type m \<le> maxValidType \<and> length (msg_Data m) \<le> MaxMessageSize"

abbreviation wire :: "Message \<Rightarrow> bytes" where
  "wire m \<equiv> frameMessage (msg_Type m) (msg_Data m)"

lemma length_frameMessage [simp]: "length (frameMessage t p) = 8 + length p"
  by (simp add: frameMessage_def)

text \<open>A header that passed the first two checks is determined by its type and length fields.\<close>

lemma header_shape:
  assumes "length h = 8" "Uint16 (slice 0 2 h) = MagicNumber" "h ! 2 = ProtocolVersion"
  shows "h = PutUint16 MagicNumber @ [ProtocolVersion] @ [h ! 3] @ PutUint32 (Uint32 (slice 4 8 h))"
proof -
  have "PutUint16 (Uint16 (slice 0 2 h)) = take 2 h"
    using assms(1) by (subst PutUint16_Uint16) (simp_all add: byte_simps)
  moreover have "PutUint32 (Uint32 (slice 4 8 h)) = drop 4 h"
    using assms(1) by (subst PutUint32_Uint32) (simp_all add: slice_def)
  moreover have "h = take 2 h @ [h ! 2] @ [h ! 3] @ drop 4 h"
    using id_take_nth_drop [of 2 h] Cons_nth_drop_Suc [of 3 h] assms(1) by simp
  ultimately show ?thesis using assms(2,3) by simp
qed

lemma ReadMessage_frame:
  assumes "valid_message m"
  shows "ReadMessage \<lparr>inb = wire m @ rest, tail_err = e\<rparr> = Inr (m, \<lparr>inb = rest, tail_err = e\<rparr>)"
proof -
  let ?n = "length (msg_Data m)"
  let ?h = "PutUint16 MagicNumber @ [ProtocolVersion] @ [msg_Type m] @ PutUint32 (word_of_nat ?n)"
  have n: "unat (word_of_nat ?n :: 32 word) = ?n"
    using assms by (simp add: valid_message_def MaxMessageSize_def unat_of_nat)
  have w: "wire m @ rest = ?h @ (msg_Data m @ rest)" by (simp add: frameMessage_def)
  have h: "length ?h = 8" "slice 0 2 ?h = PutUint16 MagicNumber" "?h ! 2 = ProtocolVersion"
      "?h ! 3 = msg_Type m" "slice 4 8 ?h = PutUint32 (word_of_nat ?n)"
    by (simp_all add: slice_def nth_append numeral_3_eq_3)
  have rd: "ReadFull 8 \<lparr>inb = wire m @ rest, tail_err = e\<rparr> =
      Inr (?h, \<lparr>inb = msg_Data m @ rest, tail_err = e\<rparr>)"
    unfolding w using h(1) by (rule ReadFull_append)
  show ?thesis
    unfolding ReadMessage_def MsgHeaderSize_def rd using assms
    by (simp only: sum.case prod.case Let_def h) (auto simp: valid_message_def n not_less)
qed

lemma ReadMessage_Inr_iff:
  "ReadMessage s = Inr (m, s') \<longleftrightarrow>
     valid_message m \<and> inb s = wire m @ inb s' \<and> tail_err s' = tail_err s"
proof
  assume L: "ReadMessage s = Inr (m, s')"
  obtain h c1 where r1: "ReadFull 8 s = Inr (h, c1)"
    using L by (auto simp: ReadMessage_def split: sum.splits)
  let ?n = "unat (Uint32 (slice 4 8 h))"
  from L r1 have ok: "Uint16 (slice 0 2 h) = MagicNumber" "h ! 2 = ProtocolVersion"
      "h ! 3 \<noteq> 0" "h ! 3 \<le> maxValidType" "?n \<le> MaxMessageSize"
    and body: "(if ?n > 0 then ReadFull ?n c1 else Inr ([], c1)) = Inr (msg_Data m, s')"
    and ty: "msg_Type m = h ! 3"
    by (auto simp: ReadMessage_def Let_def not_less split: sum.splits if_splits)
  from r1 have len: "length h = 8" and s: "inb s = h @ inb c1" "tail_err c1 = tail_err s"
    by (auto simp: ReadFull_Inr)
  from body have d: "length (msg_Data m) = ?n" "inb c1 = msg_Data m @ inb s'" "tail_err s' = tail_err c1"
    by (auto simp: ReadFull_Inr split: if_splits)
  have "wire m = h @ msg_Data m"
    using header_shape [OF len ok(1,2)] by (simp add: frameMessage_def ty d(1))
  then show "valid_message m \<and> inb s = wire m @ inb s' \<and> tail_err s' = tail_err s"
    using ok d s ty by (simp add: valid_message_def)
next
  assume R: "valid_message m \<and> inb s = wire m @ inb s' \<and> tail_err s' = tail_err s"
  then show "ReadMessage s = Inr (m, s')"
    using ReadMessage_frame [of m "inb s'" "tail_err s'"] by (cases s; cases s') simp
qed

interpretation control: frame_codec "\<lambda>_. wire" "\<lambda>_. ReadMessage" "\<lambda>_. valid_message" IoErr
proof unfold_locales
  fix i :: nat and m rest e
  assume "valid_message m"
  then show "ReadMessage \<lparr>inb = wire m @ rest, tail_err = e\<rparr> = Inr (m, \<lparr>inb = rest, tail_err = e\<rparr>)"
    by (rule ReadMessage_frame)
next
  fix i :: nat and s m s'
  assume "ReadMessage s = Inr (m, s')"
  then show "length (inb s') < length (inb s)" by (auto simp: ReadMessage_Inr_iff)
next
  fix i :: nat and e
  show "ReadMessage \<lparr>inb = [], tail_err = e\<rparr> = Inl (IoErr e)" by (simp add: ReadMessage_def)
qed

lemma UnmarshalEnvelope_iff:
  "UnmarshalEnvelope b = Some e \<longleftrightarrow> b = MarshalEnvelope e \<and> length (env_SessionID e) < 2 ^ 16"
proof
  assume L: "UnmarshalEnvelope b = Some e"
  define S n where "S = slice 1 3 b" and "n = unat (Uint16 S)"
  from L have len: "3 + n \<le> length b"
    and e: "env_Kind e = b ! 0" "env_SessionID e = string_of_bytes (slice 3 (3 + n) b)"
      "env_Data e = drop (3 + n) b"
    by (auto simp: UnmarshalEnvelope_def Let_def S_def n_def split: if_splits)
  have sl: "length (slice 3 (3 + n) b) = n" using len by (simp add: length_slice)
  have p: "PutUint16 (word_of_nat n) = S"
    using len by (simp add: n_def S_def length_slice PutUint16_Uint16)
  have "b = take 1 b @ S @ drop 3 b" using len take_slice_drop [of 1 3 b] by (simp add: S_def)
  moreover have "drop 3 b = slice 3 (3 + n) b @ drop (3 + n) b"
    by (simp add: slice_def) (metis append_take_drop_id drop_drop add.commute)
  moreover have "take 1 b = [b ! 0]" using len by (cases b) auto
  ultimately have "b = [b ! 0] @ S @ slice 3 (3 + n) b @ drop (3 + n) b" by simp
  then have "b = MarshalEnvelope e" by (simp add: MarshalEnvelope_def Let_def e sl p)
  moreover have "n < 2 ^ 16" using unat_less [of "Uint16 S"] by (simp add: n_def)
  moreover have "length (env_SessionID e) = n" by (simp add: e sl)
  ultimately show "b = MarshalEnvelope e \<and> length (env_SessionID e) < 2 ^ 16" by simp
next
  assume R: "b = MarshalEnvelope e \<and> length (env_SessionID e) < 2 ^ 16"
  let ?n = "length (env_SessionID e)"
  have n: "unat (word_of_nat ?n :: 16 word) = ?n" using R by (simp add: unat_of_nat)
  have b: "b = [env_Kind e] @ PutUint16 (word_of_nat ?n) @ bytes_of_string (env_SessionID e) @ env_Data e"
    using R by (simp add: MarshalEnvelope_def Let_def)
  have "slice 1 3 b = PutUint16 (word_of_nat ?n)" "b ! 0 = env_Kind e"
      "slice 3 (3 + ?n) b = bytes_of_string (env_SessionID e)" "drop (3 + ?n) b = env_Data e"
      "length b = 3 + ?n + length (env_Data e)"
    unfolding b by (simp_all add: slice_def numeral_3_eq_3)
  then show "UnmarshalEnvelope b = Some e" by (simp add: UnmarshalEnvelope_def Let_def n)
qed

lemma length_MarshalEnvelope [simp]:
  "length (MarshalEnvelope e) = 3 + length (env_SessionID e) + length (env_Data e)"
  by (simp add: MarshalEnvelope_def Let_def)

section \<open>Properties\<close>

text \<open>
  C11: \<open>ReadMessage\<close> succeeds exactly when the stream starts with the bytes that \<open>WriteMessage\<close>
  puts on the wire for the returned message, that message has a type in 1 to 15 and a payload of at
  most 10 MiB; it then consumes exactly those bytes. Every other stream is refused with an error.
\<close>
theorem ReadMessage_accepts_exactly_wire_format:
  "ReadMessage s = Inr (m, s') \<longleftrightarrow>
      msg_Type m \<noteq> 0 \<and> msg_Type m \<le> maxValidType \<and> length (msg_Data m) \<le> MaxMessageSize \<and>
      inb s = frameMessage (msg_Type m) (msg_Data m) @ inb s' \<and> tail_err s' = tail_err s"
  by (auto simp: ReadMessage_Inr_iff valid_message_def)

text \<open>
  C21: Frame synchronisation of the control channel: whatever sequence of messages a peer writes
  (each with a valid type and at most 10 MiB), the receive loop on the other side gets exactly that
  sequence, and then the error with which the connection ended.
\<close>
theorem control_channel_roundtrip:
  assumes "\<forall>m \<in> set ms. msg_Type m \<noteq> 0 \<and> msg_Type m \<le> maxValidType \<and> length (msg_Data m) \<le> MaxMessageSize"
    and "length ms < fuel"
  shows "drain fuel (\<lambda>_. ReadMessage) 0 \<lparr>inb = concat (map wire ms), tail_err = e\<rparr> = (ms, Some (IoErr e))"
proof -
  have "write_run (\<lambda>_. wire) i ms = concat (map wire ms)" for i
    by (induction ms arbitrary: i) simp_all
  moreover have "drain fuel (\<lambda>_. ReadMessage) 0 \<lparr>inb = write_run (\<lambda>_. wire) 0 ms, tail_err = e\<rparr> =
      (ms, Some (IoErr e))"
    using assms by (intro control.drain_write_run) (simp_all add: valid_message_def)
  ultimately show ?thesis by simp
qed

theorem control_channel_roundtrip_witness:
  "drain 3 (\<lambda>_. ReadMessage) 0
     \<lparr>inb = concat (map wire [\<lparr>msg_Type = TypeHeartbeat, msg_Data = []\<rparr>, \<lparr>msg_Type = TypeLogin, msg_Data = [123, 125]\<rparr>]),
      tail_err = EOF\<rparr> =
   ([\<lparr>msg_Type = TypeHeartbeat, msg_Data = []\<rparr>, \<lparr>msg_Type = TypeLogin, msg_Data = [123, 125]\<rparr>], Some (IoErr EOF))"
  by (rule control_channel_roundtrip)
    (simp_all add: TypeHeartbeat_def TypeLogin_def maxValidType_def MaxMessageSize_def)

text \<open>
  The header checks come in the order magic, version, type, length, and all of them come before
  any byte of the body is read: the verdict on a header is the same whatever follows it.
\<close>
theorem ReadMessage_header_checked_first:
  assumes "length h = 8"
  shows "(let magic = Uint16 (take 2 h); len = Uint32 (drop 4 h) in
    (magic \<noteq> MagicNumber \<longrightarrow> ReadMessage \<lparr>inb = h @ body, tail_err = e\<rparr> = Inl (BadMagic magic)) \<and>
    (magic = MagicNumber \<and> h ! 2 \<noteq> ProtocolVersion \<longrightarrow>
       ReadMessage \<lparr>inb = h @ body, tail_err = e\<rparr> = Inl (BadVersion (h ! 2))) \<and>
    (magic = MagicNumber \<and> h ! 2 = ProtocolVersion \<and> (h ! 3 = 0 \<or> maxValidType < h ! 3) \<longrightarrow>
       ReadMessage \<lparr>inb = h @ body, tail_err = e\<rparr> = Inl (BadType (h ! 3))) \<and>
    (magic = MagicNumber \<and> h ! 2 = ProtocolVersion \<and> h ! 3 \<noteq> 0 \<and> h ! 3 \<le> maxValidType \<and>
       MaxMessageSize < unat len \<longrightarrow>
       ReadMessage \<lparr>inb = h @ body, tail_err = e\<rparr> = Inl (TooLarge len)))"
proof -
  have "slice 0 2 h = take 2 h" "slice 4 8 h = drop 4 h"
    using assms by (simp_all add: slice_def)
  then show ?thesis
    using assms by (auto simp: ReadMessage_def Let_def not_less)
qed

theorem ReadMessage_header_checked_first_witness:
  "ReadMessage \<lparr>inb = [0x4E, 0x4C, 1, 1, 0xFF, 0xFF, 0xFF, 0xFF] @ [1, 2, 3], tail_err = NetErr\<rparr> =
     Inl (TooLarge 0xFFFFFFFF)"
  using ReadMessage_header_checked_first [of "[0x4E, 0x4C, 1, 1, 0xFF, 0xFF, 0xFF, 0xFF]" "[1, 2, 3]" NetErr]
  by (simp add: Let_def Uint16_def Uint32_def be_dec_def MagicNumber_def ProtocolVersion_def
      maxValidType_def MaxMessageSize_def)

text \<open>
  The UDP envelope encoding is a bijection: parsing a byte string yields an envelope exactly when
  the string is the encoding of that envelope and its session id is shorter than 64 KiB. So parsing
  inverts encoding, and no two byte strings parse to the same envelope.
\<close>
theorem envelope_bijection:
  "UnmarshalEnvelope b = Some e \<longleftrightarrow> b = MarshalEnvelope e \<and> length (env_SessionID e) < 2 ^ 16"
  by (rule UnmarshalEnvelope_iff)

end
