(* ===== verification/Net_Addr.thy ===== *)
theory Net_Addr
  imports NL_Prelude
begin

unbundle bit_operations_syntax

text \<open>
  The parts of Go's \<^verbatim>\<open>net\<close> and \<^verbatim>\<open>strings\<close> packages that the connection guard uses to read its
  whitelist: \<open>ParseIP\<close>, \<open>ParseCIDR\<close>, \<open>IP.To4\<close>, \<open>IP.Mask\<close>, \<open>IPNet.Contains\<close> and
  \<open>TrimSpace\<close> (on ASCII text). An address is a byte list of length 4 or 16. Addresses with a zone
  (\<^verbatim>\<open>%\<close>) are refused by both parsers.
\<close>

datatype addr = V4 bytes | V6 bytes

fun splitOn :: "char \<Rightarrow> string \<Rightarrow> string list" where
  "splitOn c [] = [[]]"
| "splitOn c (x # xs) =
     (if x = c then [] # splitOn c xs
      else (case splitOn c xs of [] \<Rightarrow> [[x]] | w # ws \<Rightarrow> (x # w) # ws))"

definition is_digit :: "char \<Rightarrow> bool" where
  "is_digit c \<longleftrightarrow> (of_char c :: nat) \<in> {48..57}"

definition digit_val :: "char \<Rightarrow> nat" where
  "digit_val c = of_char c - 48"

definition dec_val :: "string \<Rightarrow> nat" where
  "dec_val s = foldl (\<lambda>acc c. acc * 10 + digit_val c) 0 s"

definition parse_octet :: "string \<Rightarrow> byte option" where
  "parse_octet s =
     (if s = [] \<or> \<not> list_all is_digit s then None
      else if length s > 1 \<and> hd s = CHR ''0'' then None
      else if length s > 3 \<or> dec_val s > 255 then None
      else Some (word_of_nat (dec_val s)))"

fun seq_option :: "'a option list \<Rightarrow> 'a list option" where
  "seq_option [] = Some []"
| "seq_option (None # xs) = None"
| "seq_option (Some x # xs) = map_option ((#) x) (seq_option xs)"

definition parseIPv4Fields :: "string \<Rightarrow> bytes option" where
  "parseIPv4Fields s =
     (let fs = splitOn (CHR ''.'') s in
      if length fs = 4 then seq_option (map parse_octet fs) else None)"

definition hex_val :: "char \<Rightarrow> nat option" where
  "hex_val c =
     (let n = of_char c :: nat in
      if n \<in> {48..57} then Some (n - 48)
      else if n \<in> {97..102} then Some (n - 87)
      else if n \<in> {65..70} then Some (n - 55)
      else None)"

definition is_hex :: "char \<Rightarrow> bool" where
  "is_hex c \<longleftrightarrow> hex_val c \<noteq> None"

definition hex_num :: "string \<Rightarrow> nat" where
  "hex_num s = foldl (\<lambda>acc c. acc * 16 + (case hex_val c of None \<Rightarrow> 0 | Some d \<Rightarrow> d)) 0 s"

text \<open>
  The group loop of \<^verbatim>\<open>parseIPv6\<close>: \<open>n\<close> iterations left (eight 16-bit groups), the bytes read so
  far, the position of the ellipsis, and the rest of the string. The result is the bytes, the
  ellipsis and the unread rest.
\<close>

fun v6_groups :: "nat \<Rightarrow> bytes \<Rightarrow> nat option \<Rightarrow> string \<Rightarrow> (bytes \<times> nat option \<times> string) option" where
  "v6_groups 0 ip ell s = Some (ip, ell, s)"
| "v6_groups (Suc n) ip ell s =
     (let g = takeWhile is_hex s; r = dropWhile is_hex s in
      if g = [] \<or> length g > 4 then None
      else if r \<noteq> [] \<and> hd r = CHR ''.'' then
        (if ell = None \<and> length ip \<noteq> 12 then None
         else if length ip + 4 > 16 then None
         else case parseIPv4Fields s of None \<Rightarrow> None | Some q \<Rightarrow> Some (ip @ q, ell, []))
      else
        let ip' = ip @ be_enc 2 (hex_num g) in
        if r = [] then Some (ip', ell, [])
        else if hd r \<noteq> CHR '':'' \<or> length r = 1 then None
        else
          let s' = tl r in
          if hd s' = CHR '':'' then
            (if ell \<noteq> None then None
             else if tl s' = [] then Some (ip', Some (length ip'), [])
             else v6_groups n ip' (Some (length ip')) (tl s'))
          else v6_groups n ip' ell s')"

definition parseIPv6 :: "string \<Rightarrow> bytes option" where
  "parseIPv6 s =
     (let lead = (length s \<ge> 2 \<and> take 2 s = ''::'');
          s1 = (if lead then drop 2 s else s) in
      if lead \<and> s1 = [] then Some (replicate 16 0)
      else
        (case v6_groups 8 [] (if lead then Some 0 else None) s1 of
           None \<Rightarrow> None
         | Some (ip, ell, rest) \<Rightarrow>
             if rest \<noteq> [] then None
             else if length ip < 16 then
               (case ell of None \<Rightarrow> None
                | Some k \<Rightarrow> Some (take k ip @ replicate (16 - length ip) 0 @ drop k ip))
             else (if ell \<noteq> None then None else Some ip)))"

fun first_sep :: "string \<Rightarrow> char option" where
  "first_sep [] = None"
| "first_sep (c # cs) = (if c \<in> {CHR ''.'', CHR '':'', CHR ''%''} then Some c else first_sep cs)"

definition ParseAddr :: "string \<Rightarrow> addr option" where
  "ParseAddr s =
     (if CHR ''%'' \<in> set s then None
      else case first_sep s of
        Some c \<Rightarrow> (if c = CHR ''.'' then map_option V4 (parseIPv4Fields s) else map_option V6 (parseIPv6 s))
      | None \<Rightarrow> None)"

definition v4InV6Prefix :: bytes where
  "v4InV6Prefix = replicate 10 0 @ [0xff, 0xff]"

fun As16 :: "addr \<Rightarrow> bytes" where
  "As16 (V4 b) = v4InV6Prefix @ b"
| "As16 (V6 b) = b"

definition ParseIP :: "string \<Rightarrow> bytes option" where
  "ParseIP s = map_option As16 (ParseAddr s)"

record IPNet =
  net_IP :: bytes
  net_Mask :: bytes

definition To4 :: "bytes \<Rightarrow> bytes option" where
  "To4 ip =
     (if length ip = 4 then Some ip
      else if length ip = 16 \<and> take 12 ip = v4InV6Prefix then Some (drop 12 ip)
      else None)"

text \<open>\<open>CIDRMask ones bits\<close>: the first \<open>ones\<close> of \<open>bits\<close> bits are set.\<close>

definition mask_byte :: "nat \<Rightarrow> byte" where
  "mask_byte k = (if 8 \<le> k then 0xff else NOT (drop_bit k 0xff))"

definition CIDRMask :: "nat \<Rightarrow> nat \<Rightarrow> bytes" where
  "CIDRMask ones bits = map (\<lambda>i. mask_byte (ones - 8 * i)) [0..<bits div 8]"

definition IP_Mask :: "bytes \<Rightarrow> bytes \<Rightarrow> bytes" where
  "IP_Mask ip mk =
     (let mk' = (if length mk = 16 \<and> length ip = 4 \<and> list_all (\<lambda>b. b = 0xff) (take 12 mk)
                   then drop 12 mk else mk);
          ip' = (if length mk' = 4 \<and> length ip = 16 \<and> take 12 ip = v4InV6Prefix then drop 12 ip else ip)
      in if length ip' \<noteq> length mk' then [] else map2 (AND) ip' mk')"

definition dtoi_ok :: "string \<Rightarrow> bool" where
  "dtoi_ok s \<longleftrightarrow> s \<noteq> [] \<and> list_all is_digit s \<and> int (dec_val s) < 0xFFFFFF"

definition ParseCIDR :: "string \<Rightarrow> IPNet option" where
  "ParseCIDR s =
     (if CHR ''/'' \<notin> set s then None
      else
        let a = takeWhile (\<lambda>c. c \<noteq> CHR ''/'') s; m = tl (dropWhile (\<lambda>c. c \<noteq> CHR ''/'') s) in
        case ParseAddr a of
          None \<Rightarrow> None
        | Some ad \<Rightarrow>
            let bits = (case ad of V4 _ \<Rightarrow> 32 | V6 _ \<Rightarrow> 128) in
            if \<not> dtoi_ok m \<or> dec_val m > bits then None
            else let mk = CIDRMask (dec_val m) bits
                 in Some \<lparr>net_IP = IP_Mask (As16 ad) mk, net_Mask = mk\<rparr>)"

definition networkNumberAndMask :: "IPNet \<Rightarrow> (bytes \<times> bytes) option" where
  "networkNumberAndMask n =
     (case (case To4 (net_IP n) of Some ip \<Rightarrow> Some ip
            | None \<Rightarrow> if length (net_IP n) = 16 then Some (net_IP n) else None) of
        None \<Rightarrow> None
      | Some ip \<Rightarrow>
          let m = net_Mask n in
          if length m = 4 then (if length ip \<noteq> 4 then None else Some (ip, m))
          else if length m = 16 then Some (ip, if length ip = 4 then drop 12 m else m)
          else None)"

definition Contains :: "IPNet \<Rightarrow> bytes \<Rightarrow> bool" where
  "Contains n ip =
     (case networkNumberAndMask n of
        None \<Rightarrow> length ip = 0
      | Some (nn, m) \<Rightarrow>
          let x = (case To4 ip of Some y \<Rightarrow> y | None \<Rightarrow> ip) in
          if length x \<noteq> length nn then False
          else map2 (AND) nn m = map2 (AND) x m)"

definition is_space :: "char \<Rightarrow> bool" where
  "is_space c \<longleftrightarrow> (of_char c :: nat) \<in> {9..13} \<or> c = CHR '' ''"

definition TrimSpace :: "string \<Rightarrow> string" where
  "TrimSpace s = rev (dropWhile is_space (rev (dropWhile is_space s)))"

lemma seq_option_length: "seq_option xs = Some ys \<Longrightarrow> length ys = length xs"
  by (induction xs arbitrary: ys rule: seq_option.induct) auto

lemma parseIPv4Fields_length: "parseIPv4Fields s = Some b \<Longrightarrow> length b = 4"
  by (auto simp: parseIPv4Fields_def Let_def split: if_splits dest: seq_option_length)

lemma list_eq_four: "length b = 4 \<Longrightarrow> \<exists>p q r s. b = [p, q, r, s]"
  by (auto simp: numeral_eq_Suc length_Suc_conv)

lemma length_v4InV6Prefix [simp]: "length v4InV6Prefix = 12"
  by (simp add: v4InV6Prefix_def)

lemma CIDRMask_32_32: "CIDRMask 32 32 = [0xff, 0xff, 0xff, 0xff]"
  by code_simp

lemma word8_and_ff [simp]: "(b :: byte) AND 0xff = b"
proof -
  have "(0xff :: byte) = - 1" by simp
  then show ?thesis by (simp only: and.right_neutral)
qed

lemma seq_option_all: "seq_option xs = Some ys \<Longrightarrow> None \<notin> set xs"
  by (induction xs arbitrary: ys rule: seq_option.induct) auto

lemma set_splitOn: "set s \<subseteq> insert c (\<Union> (set ` set (splitOn c s)))"
proof (induction s)
  case Nil
  then show ?case by simp
next
  case (Cons a s)
  then show ?case by (cases "splitOn c s") auto
qed

lemma parseIPv4Fields_chars:
  assumes "parseIPv4Fields s = Some b" and "x \<in> set s"
  shows "x = CHR ''.'' \<or> is_digit x"
proof (rule ccontr)
  assume n: "\<not> (x = CHR ''.'' \<or> is_digit x)"
  with assms(2) set_splitOn [of s "CHR ''.''"] obtain f
    where f: "f \<in> set (splitOn (CHR ''.'') s)" "x \<in> set f" by auto
  with n have "parse_octet f = None" by (auto simp: parse_octet_def list_all_iff)
  moreover from assms(1) have "None \<notin> set (map parse_octet (splitOn (CHR ''.'') s))"
    by (auto simp: parseIPv4Fields_def Let_def split: if_splits dest: seq_option_all)
  ultimately show False using f(1) by (metis image_eqI set_map)
qed

lemma ParseAddr_V4_D: "ParseAddr s = Some (V4 b) \<Longrightarrow> parseIPv4Fields s = Some b"
  by (auto simp: ParseAddr_def split: if_splits option.splits)

text \<open>
  A single IPv4 address with \<^verbatim>\<open>/32\<close> appended denotes the network that contains exactly that
  address, however the candidate address is represented.
\<close>

lemma ParseCIDR_single_v4:
  assumes "ParseAddr s = Some (V4 b)"
  shows "ParseCIDR (s @ ''/32'') = Some \<lparr>net_IP = b, net_Mask = [0xff, 0xff, 0xff, 0xff]\<rparr>"
proof -
  from assms have p: "parseIPv4Fields s = Some b" by (rule ParseAddr_V4_D)
  have ns: "CHR ''/'' \<notin> set s"
  proof
    assume "CHR ''/'' \<in> set s"
    from parseIPv4Fields_chars [OF p this] show False by (simp add: is_digit_def)
  qed
  obtain w x y z where b: "b = [w, x, y, z]" using list_eq_four [OF parseIPv4Fields_length [OF p]] by blast
  have t: "takeWhile (\<lambda>c. c \<noteq> CHR ''/'') (s @ ''/32'') = s"
    using ns by (subst takeWhile_append2) auto
  have d: "dropWhile (\<lambda>c. c \<noteq> CHR ''/'') (s @ ''/32'') = ''/32''"
    using ns by (subst dropWhile_append2) auto
  have m: "dtoi_ok ''32''" "dec_val ''32'' = 32"
    by (simp_all add: dtoi_ok_def dec_val_def is_digit_def digit_val_def)
  have "IP_Mask (As16 (V4 b)) (CIDRMask 32 32) = b"
    by (simp add: IP_Mask_def CIDRMask_32_32 b)
  then show ?thesis
    by (simp only: ParseCIDR_def t d) (simp add: assms m CIDRMask_32_32)
qed

lemma Contains_single_v4:
  assumes "length b = 4" and "length ip = 16"
  shows "Contains \<lparr>net_IP = b, net_Mask = [0xff, 0xff, 0xff, 0xff]\<rparr> ip \<longleftrightarrow> ip = v4InV6Prefix @ b"
proof -
  obtain w x y z where b: "b = [w, x, y, z]" using list_eq_four [OF assms(1)] by blast
  have nn: "networkNumberAndMask \<lparr>net_IP = b, net_Mask = [0xff, 0xff, 0xff, 0xff]\<rparr> =
      Some (b, [0xff, 0xff, 0xff, 0xff])"
    by (simp add: networkNumberAndMask_def To4_def b)
  show ?thesis
  proof (cases "take 12 ip = v4InV6Prefix")
    case True
    then have ip: "ip = v4InV6Prefix @ drop 12 ip" by (metis append_take_drop_id)
    have "length (drop 12 ip) = 4" using assms(2) by simp
    then obtain p q r s where d: "drop 12 ip = [p, q, r, s]" using list_eq_four by blast
    have "To4 ip = Some [p, q, r, s]" using True assms(2) d by (simp add: To4_def)
    then have "Contains \<lparr>net_IP = b, net_Mask = [0xff, 0xff, 0xff, 0xff]\<rparr> ip \<longleftrightarrow> b = [p, q, r, s]"
      using nn unfolding b by (auto simp: Contains_def)
    then show ?thesis using ip d by (metis same_append_eq)
  next
    case False
    then have "To4 ip = None" using assms(2) by (simp add: To4_def)
    then have "\<not> Contains \<lparr>net_IP = b, net_Mask = [0xff, 0xff, 0xff, 0xff]\<rparr> ip"
      using assms by (simp add: Contains_def nn)
    moreover have "ip \<noteq> v4InV6Prefix @ b" using False by auto
    ultimately show ?thesis by blast
  qed
qed

lemma ParseAddr_V4_no_slash:
  assumes "ParseAddr s = Some (V4 b)"
  shows "CHR ''/'' \<notin> set s"
proof
  assume "CHR ''/'' \<in> set s"
  from parseIPv4Fields_chars [OF ParseAddr_V4_D [OF assms] this] show False by (simp add: is_digit_def)
qed

lemma TrimSpace_id: "\<forall>c \<in> set s. \<not> is_space c \<Longrightarrow> TrimSpace s = s"
proof -
  assume a: "\<forall>c \<in> set s. \<not> is_space c"
  have h: "dropWhile is_space xs = xs" if "\<forall>c \<in> set xs. \<not> is_space c" for xs
    using that by (cases xs) auto
  show ?thesis using a h [of s] h [of "rev s"] by (simp add: TrimSpace_def)
qed

lemma TrimSpace_V4:
  assumes "ParseAddr s = Some (V4 b)"
  shows "TrimSpace s = s"
proof (rule TrimSpace_id, rule ballI)
  fix c assume "c \<in> set s"
  from parseIPv4Fields_chars [OF ParseAddr_V4_D [OF assms] this]
  show "\<not> is_space c" by (auto simp: is_digit_def is_space_def)
qed

lemma v6_groups_length:
  "v6_groups n ip ell s = Some (ip', ell', rest) \<Longrightarrow> length ip + 2 * n \<le> 16 \<Longrightarrow> length ip' \<le> 16"
proof (induction n arbitrary: ip ell s)
  case 0
  then show ?case by simp
next
  case (Suc n)
  then show ?case
    by (force simp: Let_def split: if_splits option.splits dest: parseIPv4Fields_length)
qed

lemma parseIPv6_length: "parseIPv6 s = Some ip \<Longrightarrow> length ip = 16"
  by (fastforce simp: parseIPv6_def Let_def split: if_splits option.splits dest: v6_groups_length)

lemma ParseIP_length:
  assumes "ParseIP s = Some ip"
  shows "length ip = 16"
proof -
  from assms obtain a where a: "ParseAddr s = Some a" "ip = As16 a" by (auto simp: ParseIP_def)
  show ?thesis
  proof (cases a)
    case (V4 b)
    with a parseIPv4Fields_length [of s b] show ?thesis by (simp add: ParseAddr_V4_D)
  next
    case (V6 b)
    with a show ?thesis
      by (auto simp: ParseAddr_def split: if_splits option.splits dest: parseIPv6_length)
  qed
qed

end
