(* ===== verification/ConnGuard.thy ===== *)
theory ConnGuard
  imports Net_Addr
begin

text \<open>
  Model of \<^verbatim>\<open>pkg/security/connguard.go\<close>: the connection guard in front of the control port. Times
  and durations are nanosecond counts (\<open>int\<close>); each operation reads the clock once (\<open>now\<close>). The
  mutex makes every operation atomic, so concurrent use is a sequence of steps
  (\<open>guard_step\<close>). The peer address of a connection is either a \<^verbatim>\<open>*net.TCPAddr\<close>, given by the text
  of its IP, or any other address, given by its text.
\<close>

section \<open>State and operations\<close>

datatype RemoteAddr = TCPAddr string | OtherAddr string

record ConnGuard =
  connCount :: "(string, int) gomap"
  lastConn :: "(string, int) gomap"
  blacklist :: "(string, int) gomap"
  misbehavior :: "(string, int) gomap"
  whitelist :: "IPNet list"
  maxConn :: int
  minInterval :: int
  banDuration :: int
  banThreshold :: int

definition Second :: int where "Second = 1000000000"
definition Minute :: int where "Minute = 60 * Second"

definition NewConnGuard :: ConnGuard where
  "NewConnGuard =
     \<lparr>connCount = [], lastConn = [], blacklist = [], misbehavior = [], whitelist = [],
      maxConn = 200, minInterval = 1 * Second, banDuration = 1 * Minute, banThreshold = 3\<rparr>"

fun register_whitelist :: "ConnGuard \<Rightarrow> string list \<Rightarrow> string + ConnGuard" where
  "register_whitelist g [] = Inr g"
| "register_whitelist g (c # cs) =
     (let entry = TrimSpace c in
      if entry = [] then register_whitelist g cs
      else
        let entry' = (if CHR ''/'' \<notin> set entry then entry @ ''/32'' else entry) in
        case ParseCIDR entry' of
          None \<Rightarrow> Inl c
        | Some ipnet \<Rightarrow> register_whitelist (g\<lparr>whitelist := whitelist g @ [ipnet]\<rparr>) cs)"

definition NewConnGuardWithWhitelist :: "string list \<Rightarrow> string + ConnGuard" where
  "NewConnGuardWithWhitelist wl = register_whitelist NewConnGuard wl"

definition isWhitelisted :: "ConnGuard \<Rightarrow> string \<Rightarrow> bool" where
  "isWhitelisted g ipStr =
     (if whitelist g = [] then False
      else case ParseIP ipStr of
        None \<Rightarrow> False
      | Some ip \<Rightarrow> list_ex (\<lambda>n. Contains n ip) (whitelist g))"

definition isLoopback :: "string \<Rightarrow> bool" where
  "isLoopback ip \<longleftrightarrow> ip = ''127.0.0.1'' \<or> ip = ''::1'' \<or> ip = ''localhost''"

text \<open>The backward scan for the last colon; without a colon the whole text is the address.\<close>

definition before_last_colon :: "string \<Rightarrow> string" where
  "before_last_colon s =
     (if CHR '':'' \<in> set s then rev (tl (dropWhile (\<lambda>c. c \<noteq> CHR '':'') (rev s))) else s)"

fun getIP :: "RemoteAddr \<Rightarrow> string" where
  "getIP (TCPAddr ip) = ip"
| "getIP (OtherAddr s) = before_last_colon s"

definition ban :: "ConnGuard \<Rightarrow> int \<Rightarrow> string \<Rightarrow> ConnGuard" where
  "ban g now ip = g\<lparr>blacklist := gput ip now (blacklist g)\<rparr>"

text \<open>Count one misbehaviour; at the threshold, ban and restart the count.\<close>

definition strike :: "ConnGuard \<Rightarrow> int \<Rightarrow> string \<Rightarrow> ConnGuard" where
  "strike g now ip =
     (let g1 = g\<lparr>misbehavior := gput ip (gat 0 (misbehavior g) ip + 1) (misbehavior g)\<rparr> in
      if gat 0 (misbehavior g1) ip \<ge> banThreshold g1
      then let g2 = ban g1 now ip in g2\<lparr>misbehavior := gput ip 0 (misbehavior g2)\<rparr>
      else g1)"

definition Check :: "ConnGuard \<Rightarrow> int \<Rightarrow> RemoteAddr \<Rightarrow> bool \<times> ConnGuard" where
  "Check g now conn =
     (let ip = getIP conn in
      if isWhitelisted g ip then (True, g)
      else if isLoopback ip then
        (True, g\<lparr>lastConn := gput ip now (lastConn g),
                 connCount := gput ip (gat 0 (connCount g) ip + 1) (connCount g)\<rparr>)
      else
        case (case map_of (blacklist g) ip of
                None \<Rightarrow> Some g
              | Some banTime \<Rightarrow>
                  if now - banTime < banDuration g then None
                  else Some (g\<lparr>blacklist := gdel ip (blacklist g)\<rparr>)) of
          None \<Rightarrow> (False, g)
        | Some g1 \<Rightarrow>
            if (case map_of (lastConn g1) ip of None \<Rightarrow> False | Some lastT \<Rightarrow> now - lastT < minInterval g1)
            then (False, strike g1 now ip)
            else if gat 0 (connCount g1) ip \<ge> maxConn g1 then (False, strike g1 now ip)
            else
              (True, g1\<lparr>lastConn := gput ip now (lastConn g1),
                        connCount := gput ip (gat 0 (connCount g1) ip + 1) (connCount g1)\<rparr>))"

definition Release :: "ConnGuard \<Rightarrow> RemoteAddr \<Rightarrow> ConnGuard" where
  "Release g conn =
     (let ip = getIP conn in
      if gat 0 (connCount g) ip > 0
      then g\<lparr>connCount := gput ip (gat 0 (connCount g) ip - 1) (connCount g)\<rparr>
      else g)"

definition BanForBadBehavior :: "ConnGuard \<Rightarrow> int \<Rightarrow> RemoteAddr \<Rightarrow> ConnGuard" where
  "BanForBadBehavior g now conn =
     (let ip = getIP conn in if isWhitelisted g ip then g else strike g now ip)"

definition ClearMisbehavior :: "ConnGuard \<Rightarrow> string \<Rightarrow> ConnGuard" where
  "ClearMisbehavior g ip = g\<lparr>misbehavior := gdel ip (misbehavior g)\<rparr>"

definition BanIP :: "ConnGuard \<Rightarrow> int \<Rightarrow> string \<Rightarrow> ConnGuard" where
  "BanIP g now ip = (if isWhitelisted g ip then g else ban g now ip)"

definition IsBanned :: "ConnGuard \<Rightarrow> int \<Rightarrow> string \<Rightarrow> bool" where
  "IsBanned g now ip =
     (case map_of (blacklist g) ip of None \<Rightarrow> False | Some banTime \<Rightarrow> now - banTime < banDuration g)"

definition GetStats :: "ConnGuard \<Rightarrow> int \<Rightarrow> (nat \<times> int) \<times> ConnGuard" where
  "GetStats g now =
     (let g1 = g\<lparr>blacklist := filter (\<lambda>(ip, banTime). \<not> now - banTime \<ge> banDuration g) (blacklist g)\<rparr>
      in ((length (blacklist g1), sum_list (map snd (connCount g1))), g1))"

section \<open>Interleavings\<close>

text \<open>
  The world around the guard: the clock, the connections that passed \<open>Check\<close> and were not yet
  released, and the log of accepted connections, latest first. \<^verbatim>\<open>handleClient\<close> releases a
  connection only after \<open>Check\<close> accepted it, so \<open>Release\<close> is called for live connections only.
\<close>

record guard_world =
  gw_g :: ConnGuard
  gw_now :: int
  gw_live :: "RemoteAddr list"
  gw_log :: "(string \<times> int) list"

inductive guard_step :: "guard_world \<Rightarrow> guard_world \<Rightarrow> bool" where
  tick: "0 \<le> d \<Longrightarrow> guard_step w (w\<lparr>gw_now := gw_now w + d\<rparr>)"
| accept: "Check (gw_g w) (gw_now w) c = (True, g) \<Longrightarrow>
     guard_step w (w\<lparr>gw_g := g, gw_live := c # gw_live w, gw_log := (getIP c, gw_now w) # gw_log w\<rparr>)"
| refuse: "Check (gw_g w) (gw_now w) c = (False, g) \<Longrightarrow> guard_step w (w\<lparr>gw_g := g\<rparr>)"
| release: "c \<in> set (gw_live w) \<Longrightarrow>
     guard_step w (w\<lparr>gw_g := Release (gw_g w) c, gw_live := remove1 c (gw_live w)\<rparr>)"
| bad: "guard_step w (w\<lparr>gw_g := BanForBadBehavior (gw_g w) (gw_now w) c\<rparr>)"
| clear: "guard_step w (w\<lparr>gw_g := ClearMisbehavior (gw_g w) ip\<rparr>)"
| banip: "guard_step w (w\<lparr>gw_g := BanIP (gw_g w) (gw_now w) ip\<rparr>)"
| stats: "guard_step w (w\<lparr>gw_g := snd (GetStats (gw_g w) (gw_now w))\<rparr>)"

inductive guard_reach :: "guard_world \<Rightarrow> bool" where
  start: "NewConnGuardWithWhitelist wl = Inr g \<Longrightarrow>
     guard_reach \<lparr>gw_g = g, gw_now = t0, gw_live = [], gw_log = []\<rparr>"
| step: "guard_reach w \<Longrightarrow> guard_step w w' \<Longrightarrow> guard_reach w'"

inductive_cases guard_stepE: "guard_step w w'"

section \<open>Lemmas\<close>

text \<open>Two guards with the same whitelist and limits; every operation keeps them.\<close>

definition same_config :: "ConnGuard \<Rightarrow> ConnGuard \<Rightarrow> bool" where
  "same_config g h \<longleftrightarrow> whitelist h = whitelist g \<and> maxConn h = maxConn g \<and>
     minInterval h = minInterval g \<and> banDuration h = banDuration g \<and> banThreshold h = banThreshold g"

lemma isWhitelisted_same_config: "same_config g h \<Longrightarrow> isWhitelisted h = isWhitelisted g"
  by (rule ext) (simp add: same_config_def isWhitelisted_def split: option.split)

lemma strike_simps [simp]:
  "connCount (strike g now ip) = connCount g" "lastConn (strike g now ip) = lastConn g"
  "whitelist (strike g now ip) = whitelist g" "maxConn (strike g now ip) = maxConn g"
  "minInterval (strike g now ip) = minInterval g" "banDuration (strike g now ip) = banDuration g"
  "banThreshold (strike g now ip) = banThreshold g"
  by (simp_all add: strike_def ban_def Let_def)

lemma misbehavior_strike:
  "gat 0 (misbehavior (strike g now ip)) j =
     (if j = ip then (if gat 0 (misbehavior g) ip + 1 \<ge> banThreshold g then 0 else gat 0 (misbehavior g) ip + 1)
      else gat 0 (misbehavior g) j)"
  by (simp add: strike_def ban_def Let_def)

lemma blacklist_strike:
  "map_of (blacklist (strike g now ip)) j =
     (if j = ip \<and> gat 0 (misbehavior g) ip + 1 \<ge> banThreshold g then Some now else map_of (blacklist g) j)"
  by (simp add: strike_def ban_def Let_def)

lemma blacklist_strike_below:
  "gat 0 (misbehavior g) ip + 1 < banThreshold g \<Longrightarrow> blacklist (strike g now ip) = blacklist g"
  by (simp add: strike_def Let_def)

lemma gwf_blacklist_strike: "gwf (blacklist g) \<Longrightarrow> gwf (blacklist (strike g now ip))"
  by (simp add: strike_def ban_def Let_def)

text \<open>The state on which the limits are tested: an expired ban is lifted first.\<close>

definition lift_ban :: "ConnGuard \<Rightarrow> string \<Rightarrow> ConnGuard" where
  "lift_ban g ip = (if map_of (blacklist g) ip = None then g else g\<lparr>blacklist := gdel ip (blacklist g)\<rparr>)"

lemma lift_ban_simps [simp]:
  "connCount (lift_ban g ip) = connCount g" "lastConn (lift_ban g ip) = lastConn g"
  "misbehavior (lift_ban g ip) = misbehavior g"
  "whitelist (lift_ban g ip) = whitelist g" "maxConn (lift_ban g ip) = maxConn g"
  "minInterval (lift_ban g ip) = minInterval g" "banDuration (lift_ban g ip) = banDuration g"
  "banThreshold (lift_ban g ip) = banThreshold g"
  by (simp_all add: lift_ban_def)

definition too_soon :: "ConnGuard \<Rightarrow> int \<Rightarrow> string \<Rightarrow> bool" where
  "too_soon g now ip \<longleftrightarrow> (\<exists>t. map_of (lastConn g) ip = Some t \<and> now - t < minInterval g)"

lemma Check_eq:
  "Check g now c =
     (let ip = getIP c in
      if isWhitelisted g ip then (True, g)
      else if isLoopback ip then
        (True, g\<lparr>lastConn := gput ip now (lastConn g),
                 connCount := gput ip (gat 0 (connCount g) ip + 1) (connCount g)\<rparr>)
      else if IsBanned g now ip then (False, g)
      else if too_soon g now ip \<or> gat 0 (connCount g) ip \<ge> maxConn g
        then (False, strike (lift_ban g ip) now ip)
      else (True, (lift_ban g ip)\<lparr>lastConn := gput ip now (lastConn g),
                 connCount := gput ip (gat 0 (connCount g) ip + 1) (connCount g)\<rparr>))"
  by (auto simp: Check_def Let_def IsBanned_def lift_ban_def too_soon_def split: option.splits)

lemma same_config_ops:
  "same_config g g"
  "Check g now c = (b, g') \<Longrightarrow> same_config g g'"
  "same_config g (Release g c)" "same_config g (BanForBadBehavior g now c)"
  "same_config g (ClearMisbehavior g ip)" "same_config g (BanIP g now ip)"
  "same_config g (snd (GetStats g now))"
  by (auto simp: same_config_def Check_eq Release_def BanForBadBehavior_def ClearMisbehavior_def
      BanIP_def ban_def GetStats_def Let_def split: if_splits)

lemma same_config_step: "guard_step w w' \<Longrightarrow> same_config (gw_g w) (gw_g w')"
  by (erule guard_stepE) (auto simp: same_config_ops)

lemma register_whitelist_state:
  "register_whitelist g wl = Inr h \<Longrightarrow> \<exists>ns. h = g\<lparr>whitelist := whitelist g @ ns\<rparr>"
proof (induction g wl rule: register_whitelist.induct)
  case (1 g)
  then show ?case by (intro exI [of _ "[]"]) simp
next
  case (2 g c cs)
  then show ?case by (fastforce simp: Let_def split: if_splits option.splits)
qed

section \<open>Invariants\<close>

abbreviation live_count :: "RemoteAddr list \<Rightarrow> string \<Rightarrow> nat" where
  "live_count L ip \<equiv> length (filter (\<lambda>c. getIP c = ip) L)"

definition times_of :: "string \<Rightarrow> (string \<times> int) list \<Rightarrow> int list" where
  "times_of ip A = map snd (filter (\<lambda>p. fst p = ip) A)"

definition limits_inv :: "guard_world \<Rightarrow> bool" where
  "limits_inv w \<longleftrightarrow> maxConn (gw_g w) = 200 \<and> minInterval (gw_g w) = Second \<and>
     banDuration (gw_g w) = Minute \<and> banThreshold (gw_g w) = 3"

definition count_at :: "guard_world \<Rightarrow> string \<Rightarrow> bool" where
  "count_at w ip \<longleftrightarrow>
     gat 0 (connCount (gw_g w)) ip =
        (if isWhitelisted (gw_g w) ip then 0 else int (live_count (gw_live w) ip)) \<and>
     (\<not> isWhitelisted (gw_g w) ip \<and> \<not> isLoopback ip \<longrightarrow>
        gat 0 (connCount (gw_g w)) ip \<le> maxConn (gw_g w))"

definition count_inv :: "guard_world \<Rightarrow> bool" where
  "count_inv w \<longleftrightarrow> (\<forall>ip. count_at w ip)"

definition strike_inv :: "guard_world \<Rightarrow> bool" where
  "strike_inv w \<longleftrightarrow> (\<forall>ip. 0 \<le> gat 0 (misbehavior (gw_g w)) ip \<and>
      gat 0 (misbehavior (gw_g w)) ip < banThreshold (gw_g w))"

definition rate_at :: "guard_world \<Rightarrow> string \<Rightarrow> bool" where
  "rate_at w ip \<longleftrightarrow> isWhitelisted (gw_g w) ip \<or>
     (map_of (lastConn (gw_g w)) ip = map_of (gw_log w) ip \<and>
      (isLoopback ip \<or> sorted_wrt (\<lambda>x y. y + minInterval (gw_g w) \<le> x) (times_of ip (gw_log w))))"

definition rate_inv :: "guard_world \<Rightarrow> bool" where
  "rate_inv w \<longleftrightarrow> (\<forall>ip. rate_at w ip)"

definition ban_inv :: "guard_world \<Rightarrow> bool" where
  "ban_inv w \<longleftrightarrow> gwf (blacklist (gw_g w)) \<and>
     (\<forall>ip t. map_of (blacklist (gw_g w)) ip = Some t \<longrightarrow> t \<le> gw_now w)"

lemma live_count_remove1:
  assumes "c \<in> set L"
  shows "int (live_count (remove1 c L) ip) = int (live_count L ip) - (if getIP c = ip then 1 else 0)"
  using assms by (induction L) auto

lemma count_inv_step:
  assumes "guard_step w w'" and "count_inv w"
  shows "count_inv w'"
  unfolding count_inv_def
proof
  fix ip
  from assms(2) have I: "count_at w ip" by (simp add: count_inv_def)
  have wl: "isWhitelisted (gw_g w') = isWhitelisted (gw_g w)" and mc: "maxConn (gw_g w') = maxConn (gw_g w)"
    using same_config_step [OF assms(1)] isWhitelisted_same_config [OF same_config_step [OF assms(1)]]
    by (simp_all add: same_config_def)
  from assms(1) show "count_at w' ip"
  proof (cases rule: guard_step.cases)
    case (accept c g)
    then show ?thesis using I wl mc by (auto simp: count_at_def Check_eq Let_def split: if_splits)
  next
    case (refuse c g)
    then show ?thesis using I wl mc by (auto simp: count_at_def Check_eq Let_def split: if_splits)
  next
    case (release c)
    then have "0 < live_count (gw_live w) (getIP c)" by (auto simp: filter_empty_conv)
    then show ?thesis using release I wl mc
      by (auto simp: count_at_def Release_def Let_def live_count_remove1 split: if_splits)
  qed (use I wl mc in \<open>auto simp: count_at_def BanForBadBehavior_def ClearMisbehavior_def
      BanIP_def ban_def GetStats_def Let_def\<close>)
qed

lemma strike_inv_strike:
  assumes "\<forall>ip. 0 \<le> gat 0 (misbehavior g) ip \<and> gat 0 (misbehavior g) ip < banThreshold g"
  shows "0 \<le> gat 0 (misbehavior (strike g now ip)) j \<and> gat 0 (misbehavior (strike g now ip)) j < banThreshold g"
proof -
  from assms have "0 \<le> gat 0 (misbehavior g) ip" "gat 0 (misbehavior g) ip < banThreshold g"
    "0 \<le> gat 0 (misbehavior g) j" "gat 0 (misbehavior g) j < banThreshold g" by blast+
  then show ?thesis by (simp add: misbehavior_strike)
qed

lemma strike_inv_step:
  assumes "guard_step w w'" and "strike_inv w" and pos: "0 < banThreshold (gw_g w)"
  shows "strike_inv w'"
  using assms(1)
proof (cases rule: guard_step.cases)
  case (accept c g)
  then show ?thesis using assms(2) by (auto simp: strike_inv_def Check_eq Let_def split: if_splits)
next
  case (refuse c g)
  then show ?thesis using assms(2) strike_inv_strike [of "lift_ban (gw_g w) (getIP c)"]
    by (auto simp: strike_inv_def Check_eq Let_def split: if_splits)
next
  case (bad c)
  then show ?thesis using assms(2) strike_inv_strike [of "gw_g w"]
    by (auto simp: strike_inv_def BanForBadBehavior_def Let_def)
qed (use assms(2) pos in \<open>auto simp: strike_inv_def Release_def ClearMisbehavior_def BanIP_def ban_def
    GetStats_def Let_def\<close>)

lemma map_of_times: "map_of A ip = (case times_of ip A of [] \<Rightarrow> None | t # _ \<Rightarrow> Some t)"
  by (induction A) (auto simp: times_of_def split: list.splits)

lemma rate_at_accept:
  assumes "Check g now c = (True, g')" and "0 < minInterval g"
    and "map_of (lastConn g) (getIP c) = map_of A (getIP c)"
    and "sorted_wrt (\<lambda>x y. y + minInterval g \<le> x) (times_of (getIP c) A)"
    and "\<not> isWhitelisted g (getIP c)" "\<not> isLoopback (getIP c)"
  shows "sorted_wrt (\<lambda>x y. y + minInterval g \<le> x) (now # times_of (getIP c) A)"
proof (cases "times_of (getIP c) A")
  case (Cons t ts)
  with assms(3) have "map_of (lastConn g) (getIP c) = Some t" by (simp add: map_of_times)
  moreover have "\<not> too_soon g now (getIP c)"
    using assms(1,5,6) by (auto simp: Check_eq Let_def split: if_splits)
  ultimately have "t + minInterval g \<le> now" by (auto simp: too_soon_def)
  moreover from this assms(2) have "t \<le> now" by linarith
  ultimately show ?thesis using assms(4) Cons by (auto intro: order_trans)
qed simp

lemma rate_inv_step:
  assumes "guard_step w w'" and "rate_inv w" and pos: "0 < minInterval (gw_g w)"
  shows "rate_inv w'"
  unfolding rate_inv_def
proof
  fix ip
  from assms(2) have I: "rate_at w ip" by (simp add: rate_inv_def)
  have wl: "isWhitelisted (gw_g w') = isWhitelisted (gw_g w)" and mi: "minInterval (gw_g w') = minInterval (gw_g w)"
    using same_config_step [OF assms(1)] isWhitelisted_same_config [OF same_config_step [OF assms(1)]]
    by (simp_all add: same_config_def)
  from assms(1) show "rate_at w' ip"
  proof (cases rule: guard_step.cases)
    case (accept c g)
    have log: "times_of ip (gw_log w') = (if ip = getIP c then gw_now w # times_of ip (gw_log w) else times_of ip (gw_log w))"
      using accept(1) by (auto simp: times_of_def)
    have "sorted_wrt (\<lambda>x y. y + minInterval (gw_g w) \<le> x) (times_of ip (gw_log w'))"
      if "\<not> isWhitelisted (gw_g w) ip" "\<not> isLoopback ip"
      using that I rate_at_accept [OF accept(2) pos] unfolding log rate_at_def by (cases "ip = getIP c") auto
    moreover have "map_of (lastConn (gw_g w')) ip = map_of (gw_log w') ip" if n: "\<not> isWhitelisted (gw_g w) ip"
    proof -
      from accept n have "map_of (lastConn (gw_g w')) ip =
          (if ip = getIP c then Some (gw_now w) else map_of (lastConn (gw_g w)) ip)"
        by (auto simp: Check_eq Let_def split: if_splits)
      with n I show ?thesis using accept(1) by (simp add: rate_at_def)
    qed
    ultimately show ?thesis unfolding rate_at_def wl mi by blast
  next
    case (refuse c g)
    then have "lastConn (gw_g w') = lastConn (gw_g w)" "gw_log w' = gw_log w"
      by (auto simp: Check_eq Let_def split: if_splits)
    with I show ?thesis unfolding rate_at_def wl mi by simp
  qed (use I wl mi in \<open>auto simp: rate_at_def Release_def BanForBadBehavior_def
      ClearMisbehavior_def BanIP_def ban_def GetStats_def Let_def\<close>)
qed

lemma ban_inv_step:
  assumes "guard_step w w'" and "ban_inv w"
  shows "ban_inv w'"
  using assms(1)
proof (cases rule: guard_step.cases)
  case (tick d)
  then show ?thesis using assms(2) by (fastforce simp: ban_inv_def)
next
  case (accept c g)
  then show ?thesis using assms(2)
    by (auto simp: ban_inv_def Check_eq Let_def lift_ban_def split: if_splits)
next
  case (refuse c g)
  then show ?thesis using assms(2)
    by (auto simp: ban_inv_def Check_eq Let_def lift_ban_def blacklist_strike gwf_blacklist_strike split: if_splits)
qed (use assms(2) in \<open>auto simp: ban_inv_def Release_def BanForBadBehavior_def ClearMisbehavior_def
    BanIP_def ban_def GetStats_def Let_def blacklist_strike gwf_blacklist_strike map_of_filter_gwf
    split: if_splits option.splits\<close>)

lemma guard_reach_inv:
  "guard_reach w \<Longrightarrow> limits_inv w \<and> count_inv w \<and> strike_inv w \<and> rate_inv w \<and> ban_inv w"
proof (induction rule: guard_reach.induct)
  case (start wl g t0)
  then obtain ns where "g = NewConnGuard\<lparr>whitelist := ns\<rparr>"
    using register_whitelist_state [of NewConnGuard wl g]
    by (auto simp: NewConnGuardWithWhitelist_def NewConnGuard_def)
  then show ?case
    by (simp add: limits_inv_def count_inv_def count_at_def strike_inv_def rate_inv_def rate_at_def
        ban_inv_def NewConnGuard_def times_of_def)
next
  case (step w w')
  then have "limits_inv w'"
    using same_config_step [OF step(2)] by (simp add: limits_inv_def same_config_def)
  moreover have "count_inv w'" "strike_inv w'" "rate_inv w'" "ban_inv w'"
    using step count_inv_step strike_inv_step rate_inv_step ban_inv_step
    by (auto simp: limits_inv_def Second_def)
  ultimately show ?case by simp
qed

lemma exempt_step:
  assumes "guard_step w w'" and "isWhitelisted (gw_g w) ip" and "map_of (blacklist (gw_g w)) ip = None"
    and "gwf (blacklist (gw_g w))"
  shows "map_of (blacklist (gw_g w')) ip = None"
  using assms(1)
proof (cases rule: guard_step.cases)
  case (accept c g)
  then show ?thesis using assms(2,3) by (auto simp: Check_eq Let_def lift_ban_def split: if_splits)
next
  case (refuse c g)
  then show ?thesis using assms(2,3)
    by (auto simp: Check_eq Let_def lift_ban_def blacklist_strike split: if_splits)
qed (use assms(2-4) in \<open>auto simp: Release_def BanForBadBehavior_def ClearMisbehavior_def
    BanIP_def ban_def GetStats_def Let_def blacklist_strike map_of_filter_gwf\<close>)

lemma exempt_reach:
  "guard_reach w \<Longrightarrow> isWhitelisted (gw_g w) ip \<Longrightarrow> map_of (blacklist (gw_g w)) ip = None"
proof (induction rule: guard_reach.induct)
  case (start wl g t0)
  then show ?case using register_whitelist_state [of NewConnGuard wl g]
    by (auto simp: NewConnGuardWithWhitelist_def NewConnGuard_def)
next
  case (step w w')
  have "isWhitelisted (gw_g w) ip"
    using step.prems isWhitelisted_same_config [OF same_config_step [OF step(2)]] by simp
  with step show ?case using exempt_step guard_reach_inv by (auto simp: ban_inv_def)
qed

lemma ban_persists_step:
  assumes "guard_step w w'" and "map_of (blacklist (gw_g w)) ip = Some t" and "ban_inv w"
    and "gw_now w' - t < banDuration (gw_g w)"
  shows "gw_now w \<le> gw_now w' \<and> (\<exists>t'. map_of (blacklist (gw_g w')) ip = Some t' \<and> t \<le> t')"
proof -
  have t: "t \<le> gw_now w" and wf: "gwf (blacklist (gw_g w))"
    using assms(2,3) by (auto simp: ban_inv_def)
  from assms(1) show ?thesis
  proof (cases rule: guard_step.cases)
    case (accept c g)
    then show ?thesis using assms(2,4)
      by (auto simp: Check_eq Let_def lift_ban_def IsBanned_def split: if_splits)
  next
    case (refuse c g)
    then show ?thesis using assms(2,4) t
      by (auto simp: Check_eq Let_def lift_ban_def IsBanned_def blacklist_strike split: if_splits)
  qed (use assms(2,4) t wf in \<open>auto simp: Release_def BanForBadBehavior_def ClearMisbehavior_def
      BanIP_def ban_def GetStats_def Let_def blacklist_strike map_of_filter_gwf\<close>)
qed

lemma guard_steps_now: "guard_step\<^sup>*\<^sup>* w w' \<Longrightarrow> gw_now w \<le> gw_now w'"
proof (induction rule: rtranclp_induct)
  case (step y z)
  from step(2) have "gw_now y \<le> gw_now z" by (cases rule: guard_step.cases) auto
  with step show ?case by linarith
qed simp

lemma ban_persists:
  assumes "guard_step\<^sup>*\<^sup>* w w'" and "guard_reach w" and "map_of (blacklist (gw_g w)) ip = Some t"
    and "gw_now w' - t < Minute"
  shows "guard_reach w' \<and> (\<exists>t'. map_of (blacklist (gw_g w')) ip = Some t' \<and> t \<le> t')"
  using assms(1,4)
proof (induction rule: rtranclp_induct)
  case base
  then show ?case using assms(2,3) by auto
next
  case (step y z)
  have "gw_now y \<le> gw_now z" using guard_steps_now [of y z] step(2) by auto
  with step obtain t' where y: "guard_reach y" "map_of (blacklist (gw_g y)) ip = Some t'" "t \<le> t'" by auto
  have "gw_now z - t' < banDuration (gw_g y)"
    using y step.prems guard_reach_inv [OF y(1)] by (simp add: limits_inv_def)
  with ban_persists_step [OF step(2) y(2)] guard_reach_inv [OF y(1)] y step(2)
  show ?case by (meson guard_reach.step order_trans)
qed

lemma guard_reach_example:
  "guard_reach \<lparr>gw_g = NewConnGuard\<lparr>lastConn := [(''9.9.9.9'', 0)], connCount := [(''9.9.9.9'', 1)]\<rparr>,
     gw_now = 0, gw_live = [TCPAddr ''9.9.9.9''], gw_log = [(''9.9.9.9'', 0)]\<rparr>"
proof -
  let ?w = "\<lparr>gw_g = NewConnGuard, gw_now = 0, gw_live = [], gw_log = []\<rparr>"
  have "guard_reach ?w" by (rule guard_reach.start [of "[]"]) (simp add: NewConnGuardWithWhitelist_def)
  moreover have "Check (gw_g ?w) (gw_now ?w) (TCPAddr ''9.9.9.9'') =
      (True, NewConnGuard\<lparr>lastConn := [(''9.9.9.9'', 0)], connCount := [(''9.9.9.9'', 1)]\<rparr>)"
    by (simp add: Check_def Let_def isWhitelisted_def isLoopback_def NewConnGuard_def)
  from guard_step.accept [OF this] have "guard_step ?w \<lparr>gw_g = NewConnGuard\<lparr>lastConn := [(''9.9.9.9'', 0)],
      connCount := [(''9.9.9.9'', 1)]\<rparr>, gw_now = 0, gw_live = [TCPAddr ''9.9.9.9''], gw_log = [(''9.9.9.9'', 0)]\<rparr>"
    by simp
  ultimately show ?thesis by (rule guard_reach.step)
qed

section \<open>Properties\<close>

text \<open>
  C10: In every interleaving of the guard's operations, for every address outside the whitelist, the
  connection counter equals the number of accepted connections not yet released, that number never
  exceeds 200 unless the address is a loopback address, and the misbehaviour counter stays below
  the ban threshold of 3.
\<close>
theorem guard_counts_live_connections:
  assumes "guard_reach w" and "\<not> isWhitelisted (gw_g w) ip"
  shows "gat 0 (connCount (gw_g w)) ip = int (length (filter (\<lambda>c. getIP c = ip) (gw_live w))) \<and>
    (isLoopback ip \<or> length (filter (\<lambda>c. getIP c = ip) (gw_live w)) \<le> 200) \<and>
    0 \<le> gat 0 (misbehavior (gw_g w)) ip \<and> gat 0 (misbehavior (gw_g w)) ip < 3"
proof -
  have "count_at w ip" "strike_inv w" "limits_inv w"
    using guard_reach_inv [OF assms(1)] by (auto simp: count_inv_def)
  then show ?thesis using assms(2) by (auto simp: count_at_def strike_inv_def limits_inv_def)
qed

theorem guard_counts_live_connections_witness:
  "gat 0 [(''9.9.9.9'', 1)] ''9.9.9.9'' = int (length (filter (\<lambda>c. getIP c = ''9.9.9.9'') [TCPAddr ''9.9.9.9'']))"
  using guard_counts_live_connections [OF guard_reach_example, of "''9.9.9.9''"]
  by (simp add: isWhitelisted_def NewConnGuard_def)

text \<open>
  C23: In every interleaving, two accepted connections from the same address are at least one second
  apart (addresses on the whitelist and loopback addresses excepted).
\<close>
theorem guard_spaces_accepted_connections:
  assumes "guard_reach w" and "\<not> isWhitelisted (gw_g w) ip" and "\<not> isLoopback ip"
  shows "sorted_wrt (\<lambda>later earlier. earlier + 1000000000 \<le> later) (times_of ip (gw_log w))"
  using guard_reach_inv [OF assms(1)] assms(2,3)
  by (auto simp: rate_inv_def rate_at_def limits_inv_def Second_def)

theorem guard_spaces_accepted_connections_witness:
  "sorted_wrt (\<lambda>later earlier. earlier + 1000000000 \<le> later) (times_of ''9.9.9.9'' [(''9.9.9.9'', 0)])"
  using guard_spaces_accepted_connections [OF guard_reach_example, of "''9.9.9.9''"]
  by (simp add: isWhitelisted_def NewConnGuard_def isLoopback_def)

lemma loopback_can_be_banned:
  "let b = (\<lambda>g t. BanForBadBehavior g t (TCPAddr ''127.0.0.1'')) in map_of (blacklist (b (b (b NewConnGuard 1) 2) 3)) ''127.0.0.1'' = Some 3"
  by code_simp

text \<open>
  C17: A ban lasts its full minute: once an address is on the blacklist with ban time \<open>t\<close>, then
  whatever operations follow (other addresses, further strikes, cleared counters, statistics), every
  connection attempt of that address before \<open>t + 60 s\<close> is refused and changes nothing, unless it is a loopback
  address. A loopback address can be banned like any other (\<open>loopback_can_be_banned\<close>), but its connections are
  accepted all the same.
\<close>
theorem guard_ban_is_enforced:
  assumes "guard_reach w" and "map_of (blacklist (gw_g w)) ip = Some t" and "guard_step\<^sup>*\<^sup>* w w'"
    and "gw_now w' - t < Minute" and "getIP c = ip"
  shows "if isLoopback ip then fst (Check (gw_g w') (gw_now w') c) else Check (gw_g w') (gw_now w') c = (False, gw_g w')"
proof -
  obtain t' where r: "guard_reach w'" "map_of (blacklist (gw_g w')) ip = Some t'" "t \<le> t'"
    using ban_persists [OF assms(3,1,2,4)] by blast
  have "\<not> isWhitelisted (gw_g w') ip" using exempt_reach [OF r(1), of ip] r(2) by auto
  moreover have "IsBanned (gw_g w') (gw_now w') ip"
    using r assms(4) guard_reach_inv [OF r(1)] by (simp add: IsBanned_def limits_inv_def)
  ultimately show ?thesis using assms(5) by (simp add: Check_eq Let_def)
qed

theorem guard_ban_is_enforced_witness:
  "Check (BanIP NewConnGuard 0 ''9.9.9.9'') 59000000000 (TCPAddr ''9.9.9.9'') =
     (False, BanIP NewConnGuard 0 ''9.9.9.9'')"
proof -
  let ?w0 = "\<lparr>gw_g = NewConnGuard, gw_now = 0, gw_live = [], gw_log = []\<rparr>"
  let ?w1 = "\<lparr>gw_g = BanIP NewConnGuard 0 ''9.9.9.9'', gw_now = 0, gw_live = [], gw_log = []\<rparr>"
  let ?w2 = "?w1\<lparr>gw_now := gw_now ?w1 + 59000000000\<rparr>"
  have "guard_reach ?w0" by (rule guard_reach.start [of "[]"]) (simp add: NewConnGuardWithWhitelist_def)
  moreover have "guard_step ?w0 ?w1" using guard_step.banip [of ?w0 "''9.9.9.9''"] by simp
  ultimately have r: "guard_reach ?w1" by (rule guard_reach.step)
  have s: "guard_step\<^sup>*\<^sup>* ?w1 ?w2" by (rule r_into_rtranclp, rule guard_step.tick) simp
  have b: "map_of (blacklist (gw_g ?w1)) ''9.9.9.9'' = Some 0"
    by (simp add: BanIP_def isWhitelisted_def ban_def NewConnGuard_def)
  from guard_ban_is_enforced [OF r b s, of "TCPAddr ''9.9.9.9''"] show ?thesis
    by (simp add: Minute_def Second_def isLoopback_def)
qed

text \<open>
  Three strikes: from a cleared counter, one or two misbehaviours of an address leave the
  blacklist as it is, and the third puts the address on it with the time of that third one and
  clears the counter again.
\<close>
theorem guard_three_strikes:
  assumes "\<not> isWhitelisted g (getIP c)" and "gat 0 (misbehavior g) (getIP c) = 0" and "banThreshold g = 3"
  shows "blacklist (BanForBadBehavior (BanForBadBehavior g t1 c) t2 c) = blacklist g \<and>
    (let g3 = BanForBadBehavior (BanForBadBehavior (BanForBadBehavior g t1 c) t2 c) t3 c in
      map_of (blacklist g3) (getIP c) = Some t3 \<and> gat 0 (misbehavior g3) (getIP c) = 0)"
proof -
  have bb: "BanForBadBehavior h t c = strike h t (getIP c)" if "same_config g h" for h t
    using assms(1) isWhitelisted_same_config [OF that] by (simp add: BanForBadBehavior_def)
  define g1 g2 where "g1 = strike g t1 (getIP c)" and "g2 = strike g1 t2 (getIP c)"
  have sc: "same_config g g1" "same_config g g2" by (simp_all add: g1_def g2_def same_config_def)
  have e1: "BanForBadBehavior g t1 c = g1" using bb [of g] by (simp add: g1_def same_config_def)
  have e2: "BanForBadBehavior g1 t2 c = g2" using bb [OF sc(1)] by (simp add: g2_def)
  have e3: "BanForBadBehavior g2 t3 c = strike g2 t3 (getIP c)" using bb [OF sc(2)] by simp
  have m1: "gat 0 (misbehavior g1) (getIP c) = 1" "blacklist g1 = blacklist g"
    using assms(2,3) by (simp_all add: g1_def misbehavior_strike blacklist_strike_below)
  have th: "banThreshold g1 = 3" "banThreshold g2 = 3" using assms(3) by (simp_all add: g2_def g1_def)
  have m2: "gat 0 (misbehavior g2) (getIP c) = 2" "blacklist g2 = blacklist g"
    using m1 th by (simp_all add: g2_def misbehavior_strike blacklist_strike_below)
  show ?thesis unfolding e1 e2 e3
    using m2 th by (simp add: Let_def blacklist_strike misbehavior_strike)
qed

theorem guard_three_strikes_witness:
  "map_of (blacklist (BanForBadBehavior (BanForBadBehavior (BanForBadBehavior NewConnGuard 1 (TCPAddr ''9.9.9.9''))
     2 (TCPAddr ''9.9.9.9'')) 3 (TCPAddr ''9.9.9.9''))) ''9.9.9.9'' = Some 3"
  using guard_three_strikes [of NewConnGuard "TCPAddr ''9.9.9.9''" 1 2 3]
  by (simp add: isWhitelisted_def NewConnGuard_def Let_def)

text \<open>
  An accepted connection does not reset the misbehaviour counter, so the strikes that lead to a
  ban need not be consecutive: with attempts at 0, 0.5, 5, 5.5, 10 and 10.5 seconds, of which those
  at 0, 5 and 10 are accepted, the address is not banned before the last attempt and is banned by it.
\<close>
theorem guard_strikes_accumulate_across_accepts:
  "let ip = TCPAddr ''9.9.9.9'';
       chk = (\<lambda>g t. snd (Check g (t * 500000000) ip));
       g5 = foldl chk NewConnGuard [0, 1, 10, 11, 20] in
     fst (Check NewConnGuard 0 ip) \<and>
     fst (Check (foldl chk NewConnGuard [0, 1]) (10 * 500000000) ip) \<and>
     fst (Check (foldl chk NewConnGuard [0, 1, 10, 11]) (20 * 500000000) ip) \<and>
     \<not> IsBanned g5 (20 * 500000000) ''9.9.9.9'' \<and>
     IsBanned (chk g5 21) (21 * 500000000) ''9.9.9.9''"
  by code_simp

text \<open>
  The whitelist comes first: in every interleaving an address on the whitelist is never on the
  blacklist, every connection attempt of it is accepted without being counted, and neither reported
  misbehaviour nor a direct ban has any effect on it.
\<close>
theorem guard_whitelist_bypasses_everything:
  assumes "guard_reach w" and "isWhitelisted (gw_g w) (getIP c)"
  shows "Check (gw_g w) now c = (True, gw_g w) \<and> \<not> IsBanned (gw_g w) now (getIP c) \<and>
    BanForBadBehavior (gw_g w) now c = gw_g w \<and> BanIP (gw_g w) now (getIP c) = gw_g w"
  using assms exempt_reach [OF assms]
  by (simp add: Check_eq BanForBadBehavior_def BanIP_def IsBanned_def Let_def)

theorem guard_whitelist_bypasses_everything_witness:
  "\<exists>g. NewConnGuardWithWhitelist [''10.0.0.0/8''] = Inr g \<and>
     Check g 5 (TCPAddr ''10.9.9.9'') = (True, g) \<and> BanIP g 5 ''10.9.9.9'' = g"
proof -
  have "(case NewConnGuardWithWhitelist [''10.0.0.0/8''] of Inl _ \<Rightarrow> False
      | Inr g \<Rightarrow> isWhitelisted g ''10.9.9.9'')"
    by code_simp
  then obtain g where g: "NewConnGuardWithWhitelist [''10.0.0.0/8''] = Inr g" "isWhitelisted g ''10.9.9.9''"
    by (auto split: sum.splits)
  from guard_whitelist_bypasses_everything [OF guard_reach.start [OF g(1)], where c = "TCPAddr ''10.9.9.9''" and now = 5]
  show ?thesis using g by simp
qed

text \<open>
  A whitelist entry that is a single IPv4 address exempts exactly that address (in any textual
  form that denotes it) and no other.
\<close>
theorem guard_single_ipv4_entry_is_exact:
  assumes "ParseAddr s = Some (V4 b)"
  shows "\<exists>g. NewConnGuardWithWhitelist [s] = Inr g \<and>
    (\<forall>ip. isWhitelisted g ip \<longleftrightarrow> ParseIP ip = Some (As16 (V4 b)))"
proof -
  let ?n = "\<lparr>net_IP = b, net_Mask = [0xff, 0xff, 0xff, 0xff]\<rparr>"
  have "s \<noteq> []" using assms by (auto simp: ParseAddr_def)
  then have g: "NewConnGuardWithWhitelist [s] = Inr (NewConnGuard\<lparr>whitelist := [?n]\<rparr>)"
    using TrimSpace_V4 [OF assms] ParseAddr_V4_no_slash [OF assms] ParseCIDR_single_v4 [OF assms]
    by (simp add: NewConnGuardWithWhitelist_def NewConnGuard_def Let_def)
  have "length b = 4" using parseIPv4Fields_length [OF ParseAddr_V4_D [OF assms]] .
  then have "isWhitelisted (NewConnGuard\<lparr>whitelist := [?n]\<rparr>) ip \<longleftrightarrow> ParseIP ip = Some (As16 (V4 b))" for ip
    by (auto simp: isWhitelisted_def Contains_single_v4 ParseIP_length split: option.splits)
  with g show ?thesis by blast
qed

theorem guard_single_ipv4_entry_is_exact_witness:
  "\<exists>g. NewConnGuardWithWhitelist [''10.0.0.7''] = Inr g \<and>
    (\<forall>ip. isWhitelisted g ip \<longleftrightarrow> ParseIP ip = Some (As16 (V4 [10, 0, 0, 7])))"
proof -
  have "ParseAddr ''10.0.0.7'' = Some (V4 [10, 0, 0, 7])" by code_simp
  then show ?thesis by (rule guard_single_ipv4_entry_is_exact)
qed

text \<open>
  A whitelist entry that is a single IPv6 address is completed with \<^verbatim>\<open>/32\<close> as well, so it exempts
  a whole \<^verbatim>\<open>/32\<close> network: the entry \<^verbatim>\<open>100::1\<close> lets the unrelated address
  \<^verbatim>\<open>100:0:5::9\<close> bypass the guard.
\<close>
theorem guard_single_ipv6_entry_exempts_network:
  "\<exists>g. NewConnGuardWithWhitelist [''100::1''] = Inr g \<and> isWhitelisted g ''100:0:5::9'' \<and>
     ParseIP ''100:0:5::9'' \<noteq> ParseIP ''100::1''"
proof -
  have "(case NewConnGuardWithWhitelist [''100::1''] of Inl _ \<Rightarrow> False
      | Inr g \<Rightarrow> isWhitelisted g ''100:0:5::9'') \<and>
      ParseIP ''100:0:5::9'' \<noteq> ParseIP ''100::1''"
    by code_simp
  then show ?thesis by (auto split: sum.splits)
qed

end
