(* ===== verification/Config.thy ===== *)
theory Config
  imports Net_Addr
begin

text \<open>
  Model of \<^verbatim>\<open>pkg/config/config.go\<close> and of the configuration part of the client
  (\<^verbatim>\<open>hasEnvOrFlagOverride\<close>, \<^verbatim>\<open>applyEnvOverrides\<close>, \<^verbatim>\<open>fetchConfigFromAPI\<close> and the beginning of
  \<^verbatim>\<open>main\<close> in \<^verbatim>\<open>cmd/client/main.go\<close>). The YAML and JSON decoders, the resolver, the HTTP exchange and
  the file system are arguments: a file is its content or \<open>None\<close> when it cannot be read (that a file exists is
  an argument of its own), the environment is a function from
  names to values (the empty text for an unset variable). \<^verbatim>\<open>log.Fatal\<close> is an error result.
\<close>

section \<open>Configuration records\<close>

record ManagedClient =
  mc_Name :: string
  mc_Token :: string
  mc_MaxTunnels :: int
  mc_MaxTrafficBytes :: int

record ProxyACL =
  AllowNames :: "string list"
  AllowPorts :: "int list"

record ServerConfig =
  sc_BindAddr :: string
  sc_BindPort :: int
  sc_Token :: string
  sc_Clients :: "ManagedClient list"
  sc_APIKeys :: "string list"
  sc_WebEnable :: bool
  sc_WebAddr :: string
  sc_WebPort :: int
  sc_WebPassword :: string
  sc_WebTrustProxy :: bool
  sc_WebTLSCert :: string
  sc_WebTLSKey :: string
  sc_BindTLSCert :: string
  sc_BindTLSKey :: string
  sc_ProxyACL :: ProxyACL
  sc_Whitelist :: "string list"
  sc_DBPath :: string
  sc_WebhookURL :: string

record ProxyConfig =
  pc_Type :: string
  pc_Port :: int
  pc_LocalAddr :: string
  pc_LocalPort :: int

record ClientConfig =
  cc_ServerIP :: string
  cc_ServerPort :: int
  cc_Token :: string
  cc_TLSEnable :: bool
  cc_TLSCA :: string
  cc_TLSInsecure :: bool
  cc_Proxies :: "(string, ProxyConfig) gomap"

datatype cfg_err =
    ReadFile | ParseConfig | InvalidServerIP string | PortConflict string
  | NoConfig | NoToken | TunnelNotFound | ApiRequest | ApiParse | ApiError string

definition default_str :: "string \<Rightarrow> string \<Rightarrow> string" where
  "default_str v d = (if v = '''' then d else v)"

definition default_int :: "int \<Rightarrow> int \<Rightarrow> int" where
  "default_int v d = (if v = 0 then d else v)"

section \<open>Loading\<close>

definition LoadServerConfig ::
    "(bytes \<Rightarrow> ServerConfig option) \<Rightarrow> (string \<Rightarrow> string) \<Rightarrow> bytes option \<Rightarrow> cfg_err + ServerConfig" where
  "LoadServerConfig yaml env file =
     (case file of
        None \<Rightarrow> Inl ReadFile
      | Some data \<Rightarrow>
          (case yaml data of
             None \<Rightarrow> Inl ParseConfig
           | Some cfg \<Rightarrow>
               let cfg1 = (if sc_WebPassword cfg = '''' then
                             (if env ''NEXUSLINK_WEB_PASSWORD'' \<noteq> ''''
                              then cfg\<lparr>sc_WebPassword := env ''NEXUSLINK_WEB_PASSWORD''\<rparr>
                              else cfg\<lparr>sc_WebPassword := ''admin123''\<rparr>)
                           else cfg)
               in Inr (cfg1\<lparr>sc_BindAddr := default_str (sc_BindAddr cfg1) ''0.0.0.0'',
                            sc_BindPort := default_int (sc_BindPort cfg1) 7000,
                            sc_WebAddr := default_str (sc_WebAddr cfg1) ''127.0.0.1'',
                            sc_WebPort := default_int (sc_WebPort cfg1) 7001\<rparr>)))"

definition NewClientConfig :: ClientConfig where
  "NewClientConfig =
     \<lparr>cc_ServerIP = ''127.0.0.1'', cc_ServerPort = 7000, cc_Token = '''', cc_TLSEnable = False,
      cc_TLSCA = '''', cc_TLSInsecure = False, cc_Proxies = []\<rparr>"

definition LoadClientConfig ::
    "(bytes \<Rightarrow> ClientConfig option) \<Rightarrow> (string \<Rightarrow> int \<Rightarrow> bool) \<Rightarrow> bytes option \<Rightarrow> cfg_err + ClientConfig" where
  "LoadClientConfig yaml resolve file =
     (case file of
        None \<Rightarrow> Inl ReadFile
      | Some data \<Rightarrow>
          (case yaml data of
             None \<Rightarrow> Inl ParseConfig
           | Some cfg0 \<Rightarrow>
               let cfg = cfg0\<lparr>cc_ServerIP := default_str (cc_ServerIP cfg0) ''127.0.0.1'',
                              cc_ServerPort := default_int (cc_ServerPort cfg0) 7000\<rparr>
               in if \<not> (cc_ServerIP cfg = ''127.0.0.1'' \<or> cc_ServerIP cfg = ''::1'') \<and>
                     \<not> resolve (cc_ServerIP cfg) (cc_ServerPort cfg)
                  then Inl (InvalidServerIP (cc_ServerIP cfg))
                  else
                    (case find (\<lambda>(n, p). pc_Port p = cc_ServerPort cfg) (cc_Proxies cfg) of
                       Some (n, _) \<Rightarrow> Inl (PortConflict n)
                     | None \<Rightarrow> Inr cfg)))"

definition DefaultServerConfig :: ServerConfig where
  "DefaultServerConfig =
     \<lparr>sc_BindAddr = ''0.0.0.0'', sc_BindPort = 7000, sc_Token = ''change_me_to_secure_token'', sc_Clients = [],
      sc_APIKeys = [], sc_WebEnable = False, sc_WebAddr = '''', sc_WebPort = 0, sc_WebPassword = '''',
      sc_WebTrustProxy = False, sc_WebTLSCert = '''', sc_WebTLSKey = '''', sc_BindTLSCert = '''', sc_BindTLSKey = '''',
      sc_ProxyACL = \<lparr>AllowNames = [], AllowPorts = []\<rparr>, sc_Whitelist = [], sc_DBPath = '''', sc_WebhookURL = ''''\<rparr>"

definition DefaultClientConfig :: ClientConfig where
  "DefaultClientConfig =
     \<lparr>cc_ServerIP = ''1.1.1.1'', cc_ServerPort = 7000, cc_Token = ''your_token_here'', cc_TLSEnable = False,
      cc_TLSCA = '''', cc_TLSInsecure = False,
      cc_Proxies = [(''mc'', \<lparr>pc_Type = ''tcp'', pc_Port = 25565, pc_LocalAddr = ''127.0.0.1'', pc_LocalPort = 25565\<rparr>)]\<rparr>"

section \<open>The client's sources of configuration\<close>

record client_flags =
  fl_tunnelID :: string
  fl_apiAddr :: string
  fl_apiToken :: string
  fl_apiKey :: string
  fl_server :: string
  fl_port :: int

text \<open>\<^verbatim>\<open>strconv.Atoi\<close>: an optional sign and decimal digits, in the range of a 64-bit integer.\<close>

definition Atoi :: "string \<Rightarrow> int option" where
  "Atoi s =
     (let neg = (s \<noteq> [] \<and> hd s = CHR ''-'');
          ds = (if s \<noteq> [] \<and> (hd s = CHR ''-'' \<or> hd s = CHR ''+'') then tl s else s)
      in if ds = [] \<or> \<not> list_all is_digit ds then None
         else
           let v = foldl (\<lambda>acc c. acc * 10 + int (digit_val c)) 0 ds; n = (if neg then - v else v)
           in if - (2 ^ 63) \<le> n \<and> n < 2 ^ 63 then Some n else None)"

definition env_true :: "string \<Rightarrow> bool" where
  "env_true v \<longleftrightarrow> v = ''1'' \<or> v = ''true'' \<or> v = ''yes''"

definition hasEnvOrFlagOverride :: "(string \<Rightarrow> string) \<Rightarrow> client_flags \<Rightarrow> bool" where
  "hasEnvOrFlagOverride env fl \<longleftrightarrow>
     env ''NEXUSLINK_SERVER'' \<noteq> '''' \<or> env ''NEXUSLINK_PORT'' \<noteq> '''' \<or> env ''NEXUSLINK_TOKEN'' \<noteq> '''' \<or>
     fl_server fl \<noteq> '''' \<or> fl_port fl \<noteq> 0 \<or> fl_apiToken fl \<noteq> ''''"

definition env_port :: "(string \<Rightarrow> string) \<Rightarrow> int option" where
  "env_port env =
     (if env ''NEXUSLINK_PORT'' = '''' then None
      else case Atoi (env ''NEXUSLINK_PORT'') of
        None \<Rightarrow> None
      | Some p \<Rightarrow> if p > 0 \<and> p \<le> 65535 then Some p else None)"

definition applyEnvOverrides :: "(string \<Rightarrow> string) \<Rightarrow> ClientConfig \<Rightarrow> ClientConfig" where
  "applyEnvOverrides env cfg =
     (let c1 = (if env ''NEXUSLINK_SERVER'' \<noteq> '''' then cfg\<lparr>cc_ServerIP := env ''NEXUSLINK_SERVER''\<rparr> else cfg);
          c2 = (case env_port env of Some p \<Rightarrow> c1\<lparr>cc_ServerPort := p\<rparr> | None \<Rightarrow> c1);
          c3 = (if env ''NEXUSLINK_TOKEN'' \<noteq> '''' then c2\<lparr>cc_Token := env ''NEXUSLINK_TOKEN''\<rparr> else c2);
          c4 = (if env_true (env ''NEXUSLINK_TLS_ENABLE'') then c3\<lparr>cc_TLSEnable := True\<rparr> else c3);
          c5 = (if env ''NEXUSLINK_TLS_CA'' \<noteq> '''' then c4\<lparr>cc_TLSCA := env ''NEXUSLINK_TLS_CA''\<rparr> else c4)
      in if env_true (env ''NEXUSLINK_TLS_INSECURE'') then c5\<lparr>cc_TLSInsecure := True\<rparr> else c5)"

text \<open>
  \<^verbatim>\<open>fetchConfigFromAPI\<close>: the HTTP exchange gives the response body for a URL and the two
  authentication headers, or nothing; \<open>json\<close> decodes code, message and the configuration text.
\<close>

definition api_url :: "string \<Rightarrow> string \<Rightarrow> string \<Rightarrow> string" where
  "api_url apiAddr tunnelID apiKey =
     (let a = (if take 4 apiAddr = ''http'' then apiAddr else ''https://'' @ apiAddr);
          b = rev (dropWhile (\<lambda>c. c = CHR ''/'') (rev a))
      in if apiKey \<noteq> '''' then b @ ''/api/tunnel.php?action=api_config&id='' @ tunnelID
         else b @ ''/api/tunnel.php?action=config&id='' @ tunnelID)"

definition fetchConfigFromAPI ::
    "(string \<Rightarrow> string \<Rightarrow> string \<Rightarrow> bytes option) \<Rightarrow> (bytes \<Rightarrow> (int \<times> string \<times> bytes) option) \<Rightarrow>
     (bytes \<Rightarrow> ClientConfig option) \<Rightarrow> string \<Rightarrow> string \<Rightarrow> string \<Rightarrow> string \<Rightarrow> cfg_err + ClientConfig" where
  "fetchConfigFromAPI http json yaml apiAddr tunnelID token apiKey =
     (case http (api_url apiAddr tunnelID apiKey) token apiKey of
        None \<Rightarrow> Inl ApiRequest
      | Some body \<Rightarrow>
          (case json body of
             None \<Rightarrow> Inl ApiParse
           | Some (code, msg, conf) \<Rightarrow>
               if code \<noteq> 0 then Inl (ApiError msg)
               else
                 (case yaml conf of
                    None \<Rightarrow> Inl ParseConfig
                  | Some cfg \<Rightarrow>
                      Inr (cfg\<lparr>cc_ServerIP := default_str (cc_ServerIP cfg) ''127.0.0.1'',
                               cc_ServerPort := default_int (cc_ServerPort cfg) 7000\<rparr>))))"

text \<open>The command-line overrides and the final checks of \<^verbatim>\<open>main\<close>.\<close>

definition apply_flags :: "client_flags \<Rightarrow> ClientConfig \<Rightarrow> cfg_err + ClientConfig" where
  "apply_flags fl cfg =
     (let c1 = (if fl_server fl \<noteq> '''' then cfg\<lparr>cc_ServerIP := fl_server fl\<rparr> else cfg);
          c2 = (if fl_port fl \<noteq> 0 then c1\<lparr>cc_ServerPort := fl_port fl\<rparr> else c1);
          c3 = (if fl_apiToken fl \<noteq> '''' \<and> fl_apiAddr fl = '''' then c2\<lparr>cc_Token := fl_apiToken fl\<rparr> else c2)
      in if cc_Token c3 = '''' then Inl NoToken
         else
           let c4 = c3\<lparr>cc_ServerIP := default_str (cc_ServerIP c3) ''127.0.0.1'',
                       cc_ServerPort := default_int (cc_ServerPort c3) 7000\<rparr>
           in if fl_tunnelID fl = '''' then Inr c4
              else
                let filtered = filter (\<lambda>(n, p). n = fl_tunnelID fl \<or> n = ''tunnel_'' @ fl_tunnelID fl) (cc_Proxies c4)
                in if filtered = [] then Inl TunnelNotFound else Inr (c4\<lparr>cc_Proxies := filtered\<rparr>))"

definition client_config ::
    "(string \<Rightarrow> string \<Rightarrow> string \<Rightarrow> bytes option) \<Rightarrow> (bytes \<Rightarrow> (int \<times> string \<times> bytes) option) \<Rightarrow>
     (bytes \<Rightarrow> ClientConfig option) \<Rightarrow> (string \<Rightarrow> int \<Rightarrow> bool) \<Rightarrow> (string \<Rightarrow> string) \<Rightarrow> bool \<Rightarrow> bytes option \<Rightarrow>
     client_flags \<Rightarrow> cfg_err + ClientConfig" where
  "client_config http json yaml resolve env stat_ok file fl =
     (if fl_apiAddr fl \<noteq> '''' \<and> fl_tunnelID fl \<noteq> '''' then
        fetchConfigFromAPI http json yaml (fl_apiAddr fl) (fl_tunnelID fl) (fl_apiToken fl) (fl_apiKey fl)
      else
        case (if stat_ok then LoadClientConfig yaml resolve file
              else if hasEnvOrFlagOverride env fl then Inr NewClientConfig
              else Inl NoConfig) of
          Inl e \<Rightarrow> Inl e
        | Inr cfg \<Rightarrow> apply_flags fl (applyEnvOverrides env cfg))"

section \<open>Properties\<close>

lemma applyEnvOverrides_simps:
  "cc_ServerIP (applyEnvOverrides env cfg) = default_str (env ''NEXUSLINK_SERVER'') (cc_ServerIP cfg)"
  "cc_ServerPort (applyEnvOverrides env cfg) = (case env_port env of Some p \<Rightarrow> p | None \<Rightarrow> cc_ServerPort cfg)"
  "cc_Token (applyEnvOverrides env cfg) = default_str (env ''NEXUSLINK_TOKEN'') (cc_Token cfg)"
  "cc_Proxies (applyEnvOverrides env cfg) = cc_Proxies cfg"
  by (auto simp: applyEnvOverrides_def Let_def default_str_def split: option.split)

definition overridden :: "client_flags \<Rightarrow> ClientConfig \<Rightarrow> ClientConfig" where
  "overridden fl cfg =
     cfg\<lparr>cc_ServerIP := default_str (default_str (fl_server fl) (cc_ServerIP cfg)) ''127.0.0.1'',
         cc_ServerPort := default_int (default_int (fl_port fl) (cc_ServerPort cfg)) 7000,
         cc_Token := (if fl_apiToken fl \<noteq> '''' \<and> fl_apiAddr fl = '''' then fl_apiToken fl else cc_Token cfg)\<rparr>"

lemma apply_flags_alt:
  "apply_flags fl cfg =
     (let c = overridden fl cfg in
      if cc_Token c = '''' then Inl NoToken
      else if fl_tunnelID fl = '''' then Inr c
      else
        let filtered = filter (\<lambda>(n, p). n = fl_tunnelID fl \<or> n = ''tunnel_'' @ fl_tunnelID fl) (cc_Proxies c)
        in if filtered = [] then Inl TunnelNotFound else Inr (c\<lparr>cc_Proxies := filtered\<rparr>))"
  by (simp add: apply_flags_def overridden_def Let_def default_str_def default_int_def)

lemma apply_flags_Inr:
  assumes "apply_flags fl cfg = Inr c"
  shows "cc_ServerIP c = cc_ServerIP (overridden fl cfg)"
    and "cc_ServerPort c = cc_ServerPort (overridden fl cfg)"
    and "cc_Token c = cc_Token (overridden fl cfg)"
    and "cc_Token c \<noteq> ''''"
    and "fl_tunnelID fl \<noteq> '''' \<Longrightarrow> \<forall>(n, p) \<in> set (cc_Proxies c). n = fl_tunnelID fl \<or> n = ''tunnel_'' @ fl_tunnelID fl"
  using assms unfolding apply_flags_alt by (auto simp: Let_def split: if_splits)

text \<open>
  C27: Precedence of the client's configuration outside the API mode: command line over environment over
  file over defaults, for the server address, the server port and the token; an accepted configuration
  always has a token, a server address and a non-zero port, and with \<^verbatim>\<open>-id\<close> only that tunnel.
\<close>
theorem client_config_precedence:
  assumes "client_config http json yaml resolve env stat_ok file fl = Inr c" and "fl_apiAddr fl = ''''"
    and "base = (if stat_ok then the (yaml (the file)) else NewClientConfig)"
  shows "cc_ServerIP c =
      default_str (fl_server fl) (default_str (env ''NEXUSLINK_SERVER'') (default_str (cc_ServerIP base) ''127.0.0.1'')) \<and>
    cc_ServerPort c =
      default_int (fl_port fl) (case env_port env of Some p \<Rightarrow> p | None \<Rightarrow> default_int (cc_ServerPort base) 7000) \<and>
    cc_Token c = default_str (fl_apiToken fl) (default_str (env ''NEXUSLINK_TOKEN'') (cc_Token base)) \<and>
    cc_Token c \<noteq> '''' \<and> cc_ServerIP c \<noteq> '''' \<and> cc_ServerPort c \<noteq> 0 \<and>
    (fl_tunnelID fl = '''' \<or> (\<forall>(n, p) \<in> set (cc_Proxies c). n = fl_tunnelID fl \<or> n = ''tunnel_'' @ fl_tunnelID fl))"
proof -
  obtain cfg where f: "apply_flags fl (applyEnvOverrides env cfg) = Inr c"
    and cfg: "cc_ServerIP cfg = default_str (cc_ServerIP base) ''127.0.0.1''"
      "cc_ServerPort cfg = default_int (cc_ServerPort base) 7000" "cc_Token cfg = cc_Token base"
    using assms
    by (auto simp: client_config_def LoadClientConfig_def Let_def NewClientConfig_def default_str_def default_int_def
        split: if_splits option.splits sum.splits)
  have p: "env_port env \<noteq> Some 0" by (auto simp: env_port_def split: option.splits if_splits)
  have i: "cc_ServerIP c = default_str (default_str (fl_server fl) (default_str (env ''NEXUSLINK_SERVER'') (cc_ServerIP cfg))) ''127.0.0.1''"
    using apply_flags_Inr(1) [OF f] by (simp add: overridden_def applyEnvOverrides_simps)
  have q: "cc_ServerPort c = default_int (default_int (fl_port fl) (case env_port env of Some p \<Rightarrow> p | None \<Rightarrow> cc_ServerPort cfg)) 7000"
    using apply_flags_Inr(2) [OF f] by (simp add: overridden_def applyEnvOverrides_simps)
  have t: "cc_Token c = default_str (fl_apiToken fl) (default_str (env ''NEXUSLINK_TOKEN'') (cc_Token cfg))"
    using apply_flags_Inr(3) [OF f] assms(2) by (simp add: overridden_def applyEnvOverrides_simps default_str_def)
  have "cc_ServerIP cfg \<noteq> ''''" "cc_ServerPort cfg \<noteq> 0" using cfg by (auto simp: default_str_def default_int_def)
  with i q t p cfg apply_flags_Inr(4,5) [OF f] show ?thesis
    by (auto simp: default_str_def default_int_def split: option.splits)
qed

theorem client_config_precedence_witness:
  "\<exists>c. client_config (\<lambda>_ _ _. None) (\<lambda>_. None) (\<lambda>_. Some DefaultClientConfig) (\<lambda>_ _. True)
      (\<lambda>v. if v = ''NEXUSLINK_PORT'' then ''9000'' else '''') True (Some [])
      \<lparr>fl_tunnelID = '''', fl_apiAddr = '''', fl_apiToken = ''t'', fl_apiKey = '''', fl_server = '''', fl_port = 0\<rparr> = Inr c \<and>
    cc_ServerIP c = ''1.1.1.1'' \<and> cc_ServerPort c = 9000 \<and> cc_Token c = ''t''"
proof -
  let ?env = "\<lambda>v. if v = ''NEXUSLINK_PORT'' then ''9000'' else ''''"
  let ?fl = "\<lparr>fl_tunnelID = '''', fl_apiAddr = '''', fl_apiToken = ''t'', fl_apiKey = '''', fl_server = '''', fl_port = 0\<rparr>"
  have p: "env_port ?env = Some 9000"
    by (simp add: env_port_def Atoi_def is_digit_def digit_val_def of_char_def Let_def)
  obtain c where c: "client_config (\<lambda>_ _ _. None) (\<lambda>_. None) (\<lambda>_. Some DefaultClientConfig) (\<lambda>_ _. True) ?env True (Some []) ?fl = Inr c"
    by (simp add: client_config_def LoadClientConfig_def DefaultClientConfig_def Let_def apply_flags_def
        applyEnvOverrides_def p default_str_def default_int_def env_true_def)
  from client_config_precedence [OF c _ refl] show ?thesis
    using c by (simp add: p DefaultClientConfig_def default_str_def default_int_def)
qed

end
