(* ===== verification/Store.thy ===== *)
theory Store
  imports Sha256 "HOL-Library.Char_ord" "HOL-Library.List_Lexorder"
begin

text \<open>
  Model of \<^verbatim>\<open>pkg/store/store.go\<close>: the embedded SQLite store of managed clients, API keys, tunnels,
  users and settings. A table is the list of its rows in \<^verbatim>\<open>rowid\<close> order. The SQL statements of
  the source are translated one by one: \<^verbatim>\<open>INSERT\<close> is refused when a \<^verbatim>\<open>UNIQUE\<close> column clashes
  and takes the next \<^verbatim>\<open>AUTOINCREMENT\<close> id, \<^verbatim>\<open>UPDATE\<close> and \<^verbatim>\<open>DELETE\<close> act on every row of their
  \<^verbatim>\<open>WHERE\<close> clause and report the number of affected rows, \<^verbatim>\<open>ORDER BY\<close> is a stable sort. Any
  statement may fail at any time (\<open>fails\<close>); a failed statement changes nothing. The store's mutex and
  the single connection make every operation atomic. Traffic sums are unbounded integers here; SQLite turns
  a sum of 2 to the 63 or more into a floating-point number, which is not modelled. Time stamps are the texts that \<^verbatim>\<open>now()\<close> gives;
  the bytes of \<^verbatim>\<open>crypto/rand\<close> are an argument (\<open>None\<close> when the read failed).
\<close>

section \<open>Rows and tables\<close>

record StoreClient =
  cl_ID :: nat
  cl_Name :: string
  cl_Token :: string
  cl_MaxTunnels :: int
  cl_MaxTrafficBytes :: int
  cl_BytesIn :: int
  cl_BytesOut :: int
  cl_Status :: string
  cl_Owner :: string
  cl_CreatedAt :: string
  cl_UpdatedAt :: string

record APIKey =
  ak_Key :: string
  ak_Note :: string
  ak_CreatedAt :: string

record StoreProxy =
  px_ID :: nat
  px_Name :: string
  px_Type :: string
  px_RemotePort :: int
  px_LocalAddr :: string
  px_LocalPort :: int
  px_ClientName :: string
  px_Enabled :: bool
  px_CreatedAt :: string

record User =
  us_ID :: nat
  us_Username :: string
  us_PasswordHash :: string
  us_PasswordSalt :: string
  us_Role :: string
  us_APIToken :: string
  us_Status :: string
  us_CreatedAt :: string
  us_UpdatedAt :: string

datatype db_op =
    OpSchema | OpMigrate
  | OpListClients | OpGetClient | OpGetClientByToken | OpAddClient | OpDeleteClient | OpUpdateQuota | OpAddTraffic
  | OpListAPIKeys | OpAddAPIKey | OpDeleteAPIKey | OpHasAPIKey
  | OpCreateProxy | OpListProxies | OpListProxiesByClient | OpGetProxy | OpDeleteProxy | OpUpdateProxy | OpSetProxyEnabled
  | OpCreateUser | OpListUsers | OpGetUser | OpGetUserByToken | OpUpdateUser | OpDeleteUser
  | OpGetSetting | OpSetSetting

datatype db_err = DBError | UniqueViolation

record Store =
  clients_tbl :: "StoreClient list"
  clients_seq :: nat
  users_tbl :: "User list"
  users_seq :: nat
  api_keys_tbl :: "APIKey list"
  settings_tbl :: "(string \<times> string) list"
  proxies_tbl :: "StoreProxy list"
  proxies_seq :: nat
  fails :: "db_op \<Rightarrow> bool"

section \<open>SQL statements on a table\<close>

definition sql_insert :: "('r \<Rightarrow> 'r \<Rightarrow> bool) \<Rightarrow> 'r \<Rightarrow> 'r list \<Rightarrow> 'r list option" where
  "sql_insert clash r rows = (if list_ex (clash r) rows then None else Some (rows @ [r]))"

definition sql_update :: "('r \<Rightarrow> bool) \<Rightarrow> ('r \<Rightarrow> 'r) \<Rightarrow> 'r list \<Rightarrow> 'r list" where
  "sql_update p f rows = map (\<lambda>r. if p r then f r else r) rows"

definition sql_delete :: "('r \<Rightarrow> bool) \<Rightarrow> 'r list \<Rightarrow> 'r list" where
  "sql_delete p rows = filter (\<lambda>r. \<not> p r) rows"

definition affected :: "('r \<Rightarrow> bool) \<Rightarrow> 'r list \<Rightarrow> nat" where
  "affected p rows = length (filter p rows)"

text \<open>\<^verbatim>\<open>db.Exec\<close> and \<^verbatim>\<open>db.Query\<close>: a failed or refused statement leaves the store as it was.\<close>

definition db_exec :: "db_op \<Rightarrow> Store \<Rightarrow> ('a \<times> Store) option \<Rightarrow> (db_err + 'a) \<times> Store" where
  "db_exec op s r =
     (if fails s op then (Inl DBError, s)
      else case r of None \<Rightarrow> (Inl UniqueViolation, s) | Some (v, s') \<Rightarrow> (Inr v, s'))"

definition db_query :: "db_op \<Rightarrow> Store \<Rightarrow> 'a \<Rightarrow> db_err + 'a" where
  "db_query op s v = (if fails s op then Inl DBError else Inr v)"

section \<open>Opening a database\<close>

text \<open>
  A database file as \<^verbatim>\<open>Open\<close> finds it: tables may be missing, and the \<^verbatim>\<open>clients\<close> table of an old
  version has no \<^verbatim>\<open>owner\<close> column (its rows are given with the column's value ignored).
\<close>

record disk =
  dk_clients :: "(bool \<times> StoreClient list \<times> nat) option"  \<comment> \<open>has the owner column, rows, sequence\<close>
  dk_users :: "(User list \<times> nat) option"
  dk_api_keys :: "APIKey list option"
  dk_settings :: "(string \<times> string) list option"
  dk_proxies :: "(StoreProxy list \<times> nat) option"

definition if_not_exists :: "'t \<Rightarrow> 't option \<Rightarrow> 't" where
  "if_not_exists fresh t = (case t of None \<Rightarrow> fresh | Some old \<Rightarrow> old)"

definition migrate :: "bool \<times> StoreClient list \<times> nat \<Rightarrow> StoreClient list \<times> nat" where
  "migrate t =
     (case t of (hasOwner, rows, sq) \<Rightarrow>
        ((if hasOwner then rows else map (\<lambda>r. r\<lparr>cl_Owner := ''''\<rparr>) rows), sq))"

definition initSchema :: "(db_op \<Rightarrow> bool) \<Rightarrow> disk \<Rightarrow> db_err + Store" where
  "initSchema flt d =
     (if flt OpSchema then Inl DBError
      else
        let c = if_not_exists (True, [], 0) (dk_clients d);
            u = if_not_exists ([], 0) (dk_users d);
            k = if_not_exists [] (dk_api_keys d);
            t = if_not_exists [] (dk_settings d);
            p = if_not_exists ([], 0) (dk_proxies d)
        in if flt OpMigrate then Inl DBError
           else
             let (rows, sq) = migrate c
             in Inr \<lparr>clients_tbl = rows, clients_seq = sq, users_tbl = fst u, users_seq = snd u,
                     api_keys_tbl = k, settings_tbl = t, proxies_tbl = fst p, proxies_seq = snd p,
                     fails = flt\<rparr>)"

definition Open :: "(db_op \<Rightarrow> bool) \<Rightarrow> disk \<Rightarrow> db_err + Store" where
  "Open flt d = initSchema flt d"

definition hashPassword :: "string \<Rightarrow> string \<Rightarrow> string" where
  "hashPassword password salt = hex_EncodeToString (Sum256 (bytes_of_string (salt @ password)))"

definition randomHex :: "nat \<Rightarrow> bytes option \<Rightarrow> string" where
  "randomHex n rd =
     hex_EncodeToString (case rd of Some b \<Rightarrow> b | None \<Rightarrow> map (\<lambda>i. word_of_nat (i + 1)) [0..<n])"

section \<open>Clients\<close>

definition ListClients :: "Store \<Rightarrow> db_err + StoreClient list" where
  "ListClients s = db_query OpListClients s (clients_tbl s)"

definition ListClientsByOwner :: "Store \<Rightarrow> string \<Rightarrow> db_err + StoreClient list" where
  "ListClientsByOwner s owner = db_query OpListClients s (filter (\<lambda>c. cl_Owner c = owner) (clients_tbl s))"

definition GetClient :: "Store \<Rightarrow> string \<Rightarrow> db_err + StoreClient option" where
  "GetClient s nm = db_query OpGetClient s (find (\<lambda>c. cl_Name c = nm) (clients_tbl s))"

definition GetClientByToken :: "Store \<Rightarrow> string \<Rightarrow> db_err + StoreClient option" where
  "GetClientByToken s token =
     db_query OpGetClientByToken s
       (find (\<lambda>c. cl_Token c = token \<and> cl_Status c = ''active'') (clients_tbl s))"

definition client_clash :: "StoreClient \<Rightarrow> StoreClient \<Rightarrow> bool" where
  "client_clash a b \<longleftrightarrow> cl_Name a = cl_Name b \<or> cl_Token a = cl_Token b"

definition AddClientWithOwner ::
    "Store \<Rightarrow> string \<Rightarrow> string \<Rightarrow> string \<Rightarrow> int \<Rightarrow> int \<Rightarrow> string \<Rightarrow> (db_err + unit) \<times> Store" where
  "AddClientWithOwner s now nm token maxTunnels maxTrafficBytes owner =
     db_exec OpAddClient s
       (case sql_insert client_clash
               \<lparr>cl_ID = clients_seq s + 1, cl_Name = nm, cl_Token = token, cl_MaxTunnels = maxTunnels,
                cl_MaxTrafficBytes = maxTrafficBytes, cl_BytesIn = 0, cl_BytesOut = 0,
                cl_Status = ''active'', cl_Owner = owner, cl_CreatedAt = now, cl_UpdatedAt = now\<rparr>
               (clients_tbl s) of
          None \<Rightarrow> None
        | Some rows \<Rightarrow> Some ((), s\<lparr>clients_tbl := rows, clients_seq := clients_seq s + 1\<rparr>))"

definition AddClient :: "Store \<Rightarrow> string \<Rightarrow> string \<Rightarrow> string \<Rightarrow> int \<Rightarrow> int \<Rightarrow> (db_err + unit) \<times> Store" where
  "AddClient s now nm token maxTunnels maxTrafficBytes =
     AddClientWithOwner s now nm token maxTunnels maxTrafficBytes ''''"

definition DeleteClient :: "Store \<Rightarrow> string \<Rightarrow> (db_err + bool) \<times> Store" where
  "DeleteClient s nm =
     db_exec OpDeleteClient s
       (Some (affected (\<lambda>c. cl_Name c = nm) (clients_tbl s) > 0,
              s\<lparr>clients_tbl := sql_delete (\<lambda>c. cl_Name c = nm) (clients_tbl s)\<rparr>))"

definition UpdateClientQuota :: "Store \<Rightarrow> string \<Rightarrow> string \<Rightarrow> int \<Rightarrow> int \<Rightarrow> (db_err + unit) \<times> Store" where
  "UpdateClientQuota s now nm maxTunnels maxTrafficBytes =
     db_exec OpUpdateQuota s
       (Some ((), s\<lparr>clients_tbl :=
          sql_update (\<lambda>c. cl_Name c = nm)
            (\<lambda>c. c\<lparr>cl_MaxTunnels := maxTunnels, cl_MaxTrafficBytes := maxTrafficBytes, cl_UpdatedAt := now\<rparr>)
            (clients_tbl s)\<rparr>))"

definition AddTraffic :: "Store \<Rightarrow> string \<Rightarrow> string \<Rightarrow> int \<Rightarrow> int \<Rightarrow> (db_err + unit) \<times> Store" where
  "AddTraffic s now nm bytesIn bytesOut =
     (if bytesIn = 0 \<and> bytesOut = 0 then (Inr (), s)
      else
        db_exec OpAddTraffic s
          (Some ((), s\<lparr>clients_tbl :=
             sql_update (\<lambda>c. cl_Name c = nm)
               (\<lambda>c. c\<lparr>cl_BytesIn := cl_BytesIn c + bytesIn, cl_BytesOut := cl_BytesOut c + bytesOut,
                      cl_UpdatedAt := now\<rparr>)
               (clients_tbl s)\<rparr>)))"

section \<open>API keys\<close>

definition ListAPIKeys :: "Store \<Rightarrow> db_err + APIKey list" where
  "ListAPIKeys s = db_query OpListAPIKeys s (sort_key ak_CreatedAt (api_keys_tbl s))"

definition AddAPIKey :: "Store \<Rightarrow> string \<Rightarrow> string \<Rightarrow> string \<Rightarrow> (db_err + unit) \<times> Store" where
  "AddAPIKey s now key note =
     db_exec OpAddAPIKey s
       (case sql_insert (\<lambda>a b. ak_Key a = ak_Key b) \<lparr>ak_Key = key, ak_Note = note, ak_CreatedAt = now\<rparr>
               (api_keys_tbl s) of
          None \<Rightarrow> None
        | Some rows \<Rightarrow> Some ((), s\<lparr>api_keys_tbl := rows\<rparr>))"

definition DeleteAPIKey :: "Store \<Rightarrow> string \<Rightarrow> (db_err + bool) \<times> Store" where
  "DeleteAPIKey s key =
     db_exec OpDeleteAPIKey s
       (Some (affected (\<lambda>k. ak_Key k = key) (api_keys_tbl s) > 0,
              s\<lparr>api_keys_tbl := sql_delete (\<lambda>k. ak_Key k = key) (api_keys_tbl s)\<rparr>))"

definition HasAPIKey :: "Store \<Rightarrow> string \<Rightarrow> db_err + bool" where
  "HasAPIKey s key = db_query OpHasAPIKey s (list_ex (\<lambda>k. ak_Key k = key) (api_keys_tbl s))"

section \<open>Tunnels\<close>

definition proxy_clash :: "StoreProxy \<Rightarrow> StoreProxy \<Rightarrow> bool" where
  "proxy_clash a b \<longleftrightarrow> px_ClientName a = px_ClientName b \<and> px_Name a = px_Name b"

definition CreateProxy :: "Store \<Rightarrow> string \<Rightarrow> StoreProxy \<Rightarrow> (db_err + nat) \<times> Store" where
  "CreateProxy s now p =
     db_exec OpCreateProxy s
       (case sql_insert proxy_clash (p\<lparr>px_ID := proxies_seq s + 1, px_CreatedAt := now\<rparr>) (proxies_tbl s) of
          None \<Rightarrow> None
        | Some rows \<Rightarrow> Some (proxies_seq s + 1, s\<lparr>proxies_tbl := rows, proxies_seq := proxies_seq s + 1\<rparr>))"

definition ListProxies :: "Store \<Rightarrow> db_err + StoreProxy list" where
  "ListProxies s = db_query OpListProxies s (sort_key px_ClientName (proxies_tbl s))"

definition ListProxiesByClient :: "Store \<Rightarrow> string \<Rightarrow> db_err + StoreProxy list" where
  "ListProxiesByClient s clientName =
     db_query OpListProxiesByClient s
       (filter (\<lambda>p. px_ClientName p = clientName \<and> px_Enabled p) (proxies_tbl s))"

text \<open>The query has no \<^verbatim>\<open>ORDER BY\<close> and no index on \<^verbatim>\<open>name\<close> alone: the table scan gives the oldest match.\<close>

definition GetProxy :: "Store \<Rightarrow> string \<Rightarrow> db_err + StoreProxy option" where
  "GetProxy s nm = db_query OpGetProxy s (find (\<lambda>p. px_Name p = nm) (proxies_tbl s))"

definition DeleteProxy :: "Store \<Rightarrow> string \<Rightarrow> (db_err + bool) \<times> Store" where
  "DeleteProxy s nm =
     db_exec OpDeleteProxy s
       (Some (affected (\<lambda>p. px_Name p = nm) (proxies_tbl s) > 0,
              s\<lparr>proxies_tbl := sql_delete (\<lambda>p. px_Name p = nm) (proxies_tbl s)\<rparr>))"

definition UpdateProxy ::
    "Store \<Rightarrow> string \<Rightarrow> string \<Rightarrow> int \<Rightarrow> int \<Rightarrow> string \<Rightarrow> bool \<Rightarrow> (db_err + bool) \<times> Store" where
  "UpdateProxy s nm typ remotePort localPort localAddr enabled =
     db_exec OpUpdateProxy s
       (Some (affected (\<lambda>p. px_Name p = nm) (proxies_tbl s) > 0,
              s\<lparr>proxies_tbl :=
                sql_update (\<lambda>p. px_Name p = nm)
                  (\<lambda>p. p\<lparr>px_Type := typ, px_RemotePort := remotePort, px_LocalAddr := localAddr,
                         px_LocalPort := localPort, px_Enabled := enabled\<rparr>)
                  (proxies_tbl s)\<rparr>))"

definition SetProxyEnabled :: "Store \<Rightarrow> string \<Rightarrow> bool \<Rightarrow> (db_err + bool) \<times> Store" where
  "SetProxyEnabled s nm enabled =
     db_exec OpSetProxyEnabled s
       (Some (affected (\<lambda>p. px_Name p = nm) (proxies_tbl s) > 0,
              s\<lparr>proxies_tbl :=
                sql_update (\<lambda>p. px_Name p = nm) (\<lambda>p. p\<lparr>px_Enabled := enabled\<rparr>) (proxies_tbl s)\<rparr>))"

text \<open>
  How a tunnel is kept in SQLite: \<^verbatim>\<open>enabled\<close> is an integer column, written by \<open>boolInt\<close> and read by \<open>scanProxy\<close>.
  The tables above hold the records that \<open>scanProxies\<close> gives; \<open>proxies_scanned\<close> and \<open>enabled_clause\<close> justify that.
\<close>

definition boolInt :: "bool \<Rightarrow> int" where
  "boolInt b = (if b then 1 else 0)"

record proxy_row =
  rw_id :: nat
  rw_name :: string
  rw_type :: string
  rw_remote_port :: int
  rw_local_addr :: string
  rw_local_port :: int
  rw_client_name :: string
  rw_enabled :: int
  rw_created_at :: string

definition row_of_proxy :: "StoreProxy \<Rightarrow> proxy_row" where
  "row_of_proxy p =
     \<lparr>rw_id = px_ID p, rw_name = px_Name p, rw_type = px_Type p, rw_remote_port = px_RemotePort p, rw_local_addr = px_LocalAddr p,
      rw_local_port = px_LocalPort p, rw_client_name = px_ClientName p, rw_enabled = boolInt (px_Enabled p), rw_created_at = px_CreatedAt p\<rparr>"

definition scanProxy :: "db_err + proxy_row \<Rightarrow> db_err + StoreProxy" where
  "scanProxy row =
     (case row of
        Inl err \<Rightarrow> Inl err
      | Inr r \<Rightarrow> Inr \<lparr>px_ID = rw_id r, px_Name = rw_name r, px_Type = rw_type r, px_RemotePort = rw_remote_port r,
                   px_LocalAddr = rw_local_addr r, px_LocalPort = rw_local_port r, px_ClientName = rw_client_name r,
                   px_Enabled = (rw_enabled r = 1), px_CreatedAt = rw_created_at r\<rparr>)"

text \<open>The rows that \<^verbatim>\<open>Next\<close> delivers, each with the result of its \<^verbatim>\<open>Scan\<close>, and the error the iteration ended with.\<close>

fun scan_loop :: "StoreProxy list \<Rightarrow> (db_err + proxy_row) list \<Rightarrow> db_err + StoreProxy list" where
  "scan_loop out [] = Inr out"
| "scan_loop out (row # rows) = (case scanProxy row of Inl err \<Rightarrow> Inl err | Inr p \<Rightarrow> scan_loop (out @ [p]) rows)"

definition scanProxies :: "(db_err + proxy_row) list \<Rightarrow> db_err option \<Rightarrow> db_err + StoreProxy list" where
  "scanProxies rows rowsErr =
     (case scan_loop [] rows of Inl err \<Rightarrow> Inl err | Inr out \<Rightarrow> (case rowsErr of None \<Rightarrow> Inr out | Some err \<Rightarrow> Inl err))"

section \<open>Users\<close>

definition user_clash :: "User \<Rightarrow> User \<Rightarrow> bool" where
  "user_clash a b \<longleftrightarrow> us_Username a = us_Username b \<or> us_APIToken a = us_APIToken b"

text \<open>The returned record has no id: \<^verbatim>\<open>CreateUser\<close> does not read back \<^verbatim>\<open>LastInsertId\<close>.\<close>

definition CreateUser ::
    "Store \<Rightarrow> string \<Rightarrow> bytes option \<Rightarrow> bytes option \<Rightarrow> string \<Rightarrow> string \<Rightarrow> string \<Rightarrow> (db_err + User) \<times> Store" where
  "CreateUser s now rnd1 rnd2 username password role =
     (let salt = randomHex 8 rnd1;
          hash = hashPassword password salt;
          token = randomHex 24 rnd2;
          u = \<lparr>us_ID = 0, us_Username = username, us_PasswordHash = hash, us_PasswordSalt = salt,
               us_Role = role, us_APIToken = token, us_Status = ''active'',
               us_CreatedAt = now, us_UpdatedAt = now\<rparr>
      in db_exec OpCreateUser s
           (case sql_insert user_clash (u\<lparr>us_ID := users_seq s + 1\<rparr>) (users_tbl s) of
              None \<Rightarrow> None
            | Some rows \<Rightarrow> Some (u, s\<lparr>users_tbl := rows, users_seq := users_seq s + 1\<rparr>)))"

definition ListUsers :: "Store \<Rightarrow> db_err + User list" where
  "ListUsers s = db_query OpListUsers s (users_tbl s)"

definition GetUser :: "Store \<Rightarrow> string \<Rightarrow> db_err + User option" where
  "GetUser s username = db_query OpGetUser s (find (\<lambda>u. us_Username u = username) (users_tbl s))"

definition GetUserByToken :: "Store \<Rightarrow> string \<Rightarrow> db_err + User option" where
  "GetUserByToken s token =
     db_query OpGetUserByToken s
       (find (\<lambda>u. us_APIToken u = token \<and> us_Status u = ''active'') (users_tbl s))"

definition VerifyUserPassword :: "Store \<Rightarrow> string \<Rightarrow> string \<Rightarrow> User option \<times> bool" where
  "VerifyUserPassword s username password =
     (case GetUser s username of
        Inl _ \<Rightarrow> (None, False)
      | Inr None \<Rightarrow> (None, False)
      | Inr (Some u) \<Rightarrow>
          if us_Status u \<noteq> ''active'' then (None, False)
          else (Some u, hashPassword password (us_PasswordSalt u) = us_PasswordHash u))"

definition update_user :: "Store \<Rightarrow> string \<Rightarrow> (User \<Rightarrow> User) \<Rightarrow> (bool \<times> Store)" where
  "update_user s username f =
     (affected (\<lambda>u. us_Username u = username) (users_tbl s) > 0,
      s\<lparr>users_tbl := sql_update (\<lambda>u. us_Username u = username) f (users_tbl s)\<rparr>)"

text \<open>\<^verbatim>\<open>api_token\<close> is \<^verbatim>\<open>UNIQUE\<close>: the update is refused when another user has the new token.\<close>

definition ResetUserToken :: "Store \<Rightarrow> string \<Rightarrow> bytes option \<Rightarrow> string \<Rightarrow> (db_err + string \<times> bool) \<times> Store" where
  "ResetUserToken s now rnd username =
     (let token = randomHex 24 rnd in
      db_exec OpUpdateUser s
        (if list_ex (\<lambda>u. us_Username u = username) (users_tbl s) \<and>
            list_ex (\<lambda>u. us_Username u \<noteq> username \<and> us_APIToken u = token) (users_tbl s) then None
         else
           case update_user s username (\<lambda>u. u\<lparr>us_APIToken := token, us_UpdatedAt := now\<rparr>) of
             (hit, s') \<Rightarrow> Some ((token, hit), s')))"

definition UpdateUserPassword :: "Store \<Rightarrow> string \<Rightarrow> bytes option \<Rightarrow> string \<Rightarrow> string \<Rightarrow> (db_err + bool) \<times> Store" where
  "UpdateUserPassword s now rnd username password =
     (let salt = randomHex 8 rnd; hash = hashPassword password salt in
      db_exec OpUpdateUser s
        (Some (update_user s username
           (\<lambda>u. u\<lparr>us_PasswordHash := hash, us_PasswordSalt := salt, us_UpdatedAt := now\<rparr>))))"

definition DeleteUser :: "Store \<Rightarrow> string \<Rightarrow> (db_err + bool) \<times> Store" where
  "DeleteUser s username =
     db_exec OpDeleteUser s
       (Some (affected (\<lambda>u. us_Username u = username) (users_tbl s) > 0,
              s\<lparr>users_tbl := sql_delete (\<lambda>u. us_Username u = username) (users_tbl s)\<rparr>))"

definition SetUserStatus :: "Store \<Rightarrow> string \<Rightarrow> string \<Rightarrow> string \<Rightarrow> (db_err + bool) \<times> Store" where
  "SetUserStatus s now username status =
     db_exec OpUpdateUser s
       (Some (update_user s username (\<lambda>u. u\<lparr>us_Status := status, us_UpdatedAt := now\<rparr>)))"

section \<open>Settings\<close>

definition GetSetting :: "Store \<Rightarrow> string \<Rightarrow> db_err + string option" where
  "GetSetting s key = db_query OpGetSetting s (map_of (settings_tbl s) key)"

definition SetSetting :: "Store \<Rightarrow> string \<Rightarrow> string \<Rightarrow> (db_err + unit) \<times> Store" where
  "SetSetting s key v =
     db_exec OpSetSetting s (Some ((), s\<lparr>settings_tbl := gput key v (settings_tbl s)\<rparr>))"

section \<open>Scanned rows\<close>

lemma scanProxy_row [simp]: "scanProxy (Inr (row_of_proxy p)) = Inr p"
  by (simp add: scanProxy_def row_of_proxy_def boolInt_def)

lemma scan_loop_rows: "scan_loop out (map (Inr \<circ> row_of_proxy) ps) = Inr (out @ ps)"
  by (induction ps arbitrary: out) auto

lemma proxies_scanned: "scanProxies (map (Inr \<circ> row_of_proxy) ps) None = Inr ps"
  by (simp add: scanProxies_def scan_loop_rows)

lemma scan_stops_at_error:
  "scanProxies (map (Inr \<circ> row_of_proxy) ps @ Inl err # rows) e = Inl err"
proof -
  have "scan_loop out (map (Inr \<circ> row_of_proxy) ps @ Inl err # rows) = Inl err" for out
    by (induction ps arbitrary: out) (auto simp: scanProxy_def)
  then show ?thesis by (simp add: scanProxies_def)
qed

lemma enabled_clause:
  "filter (\<lambda>r. rw_client_name r = nm \<and> rw_enabled r = 1) (map row_of_proxy ps) =
   map row_of_proxy (filter (\<lambda>p. px_ClientName p = nm \<and> px_Enabled p) ps)"
  by (induction ps) (auto simp: row_of_proxy_def boolInt_def)

text \<open>\<^verbatim>\<open>ListProxiesByClient\<close>, from the \<^verbatim>\<open>WHERE\<close> clause on the stored rows to the scanned result.\<close>

lemma ListProxiesByClient_from_rows:
  "db_query OpListProxiesByClient s ps = ListProxiesByClient s nm"
  if "scanProxies (map Inr (filter (\<lambda>r. rw_client_name r = nm \<and> rw_enabled r = 1) (map row_of_proxy (proxies_tbl s)))) None = Inr ps"
  using that by (simp add: enabled_clause ListProxiesByClient_def proxies_scanned flip: map_map [unfolded comp_def])

section \<open>Tables with a unique key\<close>

abbreviation row_at :: "('r \<Rightarrow> 'k) \<Rightarrow> 'r list \<Rightarrow> 'k \<Rightarrow> 'r option" where
  "row_at key rows k \<equiv> find (\<lambda>r. key r = k) rows"

lemma option_ext: "(\<And>v. x = Some v \<longleftrightarrow> y = Some v) \<Longrightarrow> x = y"
  by (cases x; cases y) auto

lemma find_append: "find P (xs @ ys) = (case find P xs of None \<Rightarrow> find P ys | Some x \<Rightarrow> Some x)"
  by (induction xs) auto

lemma find_filter: "find P (filter Q xs) = find (\<lambda>x. Q x \<and> P x) xs"
  by (induction xs) auto

lemma find_SomeD: "find P xs = Some x \<Longrightarrow> P x \<and> x \<in> set xs"
  by (induction xs) (auto split: if_splits)

text \<open>
  What a column (or a tuple of columns) with a \<^verbatim>\<open>UNIQUE\<close> constraint promises: rows that agree on it
  clash. The lookup by the column then behaves like a finite map under the statements.
\<close>

locale unique_key =
  fixes key :: "'r \<Rightarrow> 'k" and clash :: "'r \<Rightarrow> 'r \<Rightarrow> bool"
  assumes same_key_clashes: "key a = key b \<Longrightarrow> clash a b"
begin

lemma distinct_insert:
  "sql_insert clash r rows = Some rows' \<Longrightarrow> distinct (map key rows) \<Longrightarrow> distinct (map key rows')"
  using same_key_clashes by (fastforce simp: sql_insert_def list_ex_iff split: if_splits)

lemma distinct_delete: "distinct (map key rows) \<Longrightarrow> distinct (map key (sql_delete p rows))"
  by (simp add: sql_delete_def distinct_map_filter)

lemma keys_update: "(\<And>r. key (f r) = key r) \<Longrightarrow> map key (sql_update p f rows) = map key rows"
  by (simp add: sql_update_def comp_def)

lemma lookup_insert:
  assumes "sql_insert clash r rows = Some rows'"
  shows "row_at key rows' k = (if k = key r then Some r else row_at key rows k)"
    and "row_at key rows (key r) = None"
proof -
  from assms have i: "rows' = rows @ [r]" and n: "\<forall>x\<in>set rows. \<not> clash r x"
    by (auto simp: sql_insert_def list_ex_iff split: if_splits)
  from n same_key_clashes [of r] show e: "row_at key rows (key r) = None"
    by (auto simp: find_None_iff)
  from e i show "row_at key rows' k = (if k = key r then Some r else row_at key rows k)"
    by (auto simp: find_append split: option.split)
qed

lemma lookup_delete:
  "row_at key (sql_delete (\<lambda>r. key r = k) rows) j = (if j = k then None else row_at key rows j)"
  by (induction rows) (auto simp: sql_delete_def)

lemma lookup_update:
  assumes "\<And>r. key (f r) = key r"
  shows "row_at key (sql_update (\<lambda>r. key r = k) f rows) j =
    (if j = k then map_option f (row_at key rows k) else row_at key rows j)"
  by (induction rows) (auto simp: sql_update_def assms)

lemma affected_iff: "affected (\<lambda>r. key r = k) rows > 0 \<longleftrightarrow> row_at key rows k \<noteq> None"
  by (induction rows) (auto simp: affected_def)

lemma lookup_row:
  "distinct (map key rows) \<Longrightarrow> row_at key rows k = Some r \<longleftrightarrow> r \<in> set rows \<and> key r = k"
  by (induction rows) (auto simp: rev_image_eqI)

lemma lookup_and:
  "distinct (map key rows) \<Longrightarrow> find (\<lambda>r. key r = k \<and> P r) rows =
    (case row_at key rows k of None \<Rightarrow> None | Some r \<Rightarrow> if P r then Some r else None)"
  by (induction rows) (auto simp: find_None_iff rev_image_eqI dest: find_SomeD split: option.splits)

end

interpretation client_name: unique_key cl_Name client_clash
  by unfold_locales (simp add: client_clash_def)

interpretation client_token: unique_key cl_Token client_clash
  by unfold_locales (simp add: client_clash_def)

interpretation user_name: unique_key us_Username user_clash
  by unfold_locales (simp add: user_clash_def)

interpretation user_token: unique_key us_APIToken user_clash
  by unfold_locales (simp add: user_clash_def)

interpretation api_key: unique_key ak_Key "\<lambda>a b. ak_Key a = ak_Key b"
  by unfold_locales simp

interpretation proxy_key: unique_key "\<lambda>p. (px_ClientName p, px_Name p)" proxy_clash
  by unfold_locales (simp add: proxy_clash_def)

section \<open>Well-formed stores\<close>

definition ids_wf :: "nat list \<Rightarrow> nat \<Rightarrow> bool" where
  "ids_wf ids sq \<longleftrightarrow> sorted_wrt (<) ids \<and> (\<forall>i \<in> set ids. 0 < i \<and> i \<le> sq)"

definition clients_wf :: "StoreClient list \<Rightarrow> nat \<Rightarrow> bool" where
  "clients_wf rows sq \<longleftrightarrow>
     distinct (map cl_Name rows) \<and> distinct (map cl_Token rows) \<and> ids_wf (map cl_ID rows) sq"

definition users_wf :: "User list \<Rightarrow> nat \<Rightarrow> bool" where
  "users_wf rows sq \<longleftrightarrow>
     distinct (map us_Username rows) \<and> distinct (map us_APIToken rows) \<and> ids_wf (map us_ID rows) sq"

definition proxies_wf :: "StoreProxy list \<Rightarrow> nat \<Rightarrow> bool" where
  "proxies_wf rows sq \<longleftrightarrow>
     distinct (map (\<lambda>p. (px_ClientName p, px_Name p)) rows) \<and> ids_wf (map px_ID rows) sq"

definition store_wf :: "Store \<Rightarrow> bool" where
  "store_wf s \<longleftrightarrow>
     clients_wf (clients_tbl s) (clients_seq s) \<and> users_wf (users_tbl s) (users_seq s) \<and>
     proxies_wf (proxies_tbl s) (proxies_seq s) \<and>
     distinct (map ak_Key (api_keys_tbl s)) \<and> gwf (settings_tbl s)"

definition disk_wf :: "disk \<Rightarrow> bool" where
  "disk_wf d \<longleftrightarrow>
     (case dk_clients d of None \<Rightarrow> True | Some (_, rows, sq) \<Rightarrow> clients_wf rows sq) \<and>
     (case dk_users d of None \<Rightarrow> True | Some (rows, sq) \<Rightarrow> users_wf rows sq) \<and>
     (case dk_proxies d of None \<Rightarrow> True | Some (rows, sq) \<Rightarrow> proxies_wf rows sq) \<and>
     (case dk_api_keys d of None \<Rightarrow> True | Some rows \<Rightarrow> distinct (map ak_Key rows)) \<and>
     (case dk_settings d of None \<Rightarrow> True | Some m \<Rightarrow> gwf m)"

lemma ids_wf_snoc: "ids_wf ids sq \<Longrightarrow> ids_wf (ids @ [Suc sq]) (Suc sq)"
  by (auto simp: ids_wf_def sorted_wrt_append less_Suc_eq_le)

lemma ids_wf_filter: "ids_wf (map f rows) sq \<Longrightarrow> ids_wf (map f (filter p rows)) sq"
  by (auto simp: ids_wf_def sorted_wrt_map intro: sorted_wrt_filter)

lemma map_sql_update: "(\<And>r. g (f r) = g r) \<Longrightarrow> map g (sql_update p f rows) = map g rows"
  by (simp add: sql_update_def comp_def)

lemma sql_insert_Some: "sql_insert clash r rows = Some rows' \<Longrightarrow> rows' = rows @ [r]"
  by (simp add: sql_insert_def split: if_splits)

lemma ids_wf_insert:
  "sql_insert clash r rows = Some rows' \<Longrightarrow> g r = Suc sq \<Longrightarrow> ids_wf (map g rows) sq \<Longrightarrow>
   ids_wf (map g rows') (Suc sq)"
  by (auto simp: ids_wf_snoc dest!: sql_insert_Some)

lemmas store_ops_defs =
  AddClientWithOwner_def AddClient_def DeleteClient_def UpdateClientQuota_def AddTraffic_def
  AddAPIKey_def DeleteAPIKey_def CreateProxy_def DeleteProxy_def UpdateProxy_def SetProxyEnabled_def
  CreateUser_def ResetUserToken_def UpdateUserPassword_def DeleteUser_def SetUserStatus_def SetSetting_def

lemma clients_wf_insert:
  "clients_wf rows sq \<Longrightarrow> sql_insert client_clash r rows = Some rows' \<Longrightarrow> cl_ID r = Suc sq \<Longrightarrow>
   clients_wf rows' (Suc sq)"
  unfolding clients_wf_def
  by (elim conjE, intro conjI) (auto intro: client_name.distinct_insert client_token.distinct_insert ids_wf_insert)

lemma clients_wf_delete: "clients_wf rows sq \<Longrightarrow> clients_wf (sql_delete p rows) sq"
  by (simp add: clients_wf_def client_name.distinct_delete client_token.distinct_delete)
    (simp add: sql_delete_def ids_wf_filter)

lemma clients_wf_update:
  "clients_wf rows sq \<Longrightarrow> (\<And>r. cl_Name (f r) = cl_Name r) \<Longrightarrow> (\<And>r. cl_Token (f r) = cl_Token r) \<Longrightarrow>
   (\<And>r. cl_ID (f r) = cl_ID r) \<Longrightarrow> clients_wf (sql_update p f rows) sq"
  by (simp add: clients_wf_def map_sql_update)

lemma users_wf_insert:
  "users_wf rows sq \<Longrightarrow> sql_insert user_clash r rows = Some rows' \<Longrightarrow> us_ID r = Suc sq \<Longrightarrow>
   users_wf rows' (Suc sq)"
  unfolding users_wf_def
  by (elim conjE, intro conjI) (auto intro: user_name.distinct_insert user_token.distinct_insert ids_wf_insert)

lemma users_wf_delete: "users_wf rows sq \<Longrightarrow> users_wf (sql_delete p rows) sq"
  by (simp add: users_wf_def user_name.distinct_delete user_token.distinct_delete)
    (simp add: sql_delete_def ids_wf_filter)

lemma users_wf_update:
  "users_wf rows sq \<Longrightarrow> (\<And>r. us_Username (f r) = us_Username r) \<Longrightarrow> (\<And>r. us_APIToken (f r) = us_APIToken r) \<Longrightarrow>
   (\<And>r. us_ID (f r) = us_ID r) \<Longrightarrow> users_wf (sql_update p f rows) sq"
  by (simp add: users_wf_def map_sql_update)

lemma proxies_wf_insert:
  "proxies_wf rows sq \<Longrightarrow> sql_insert proxy_clash r rows = Some rows' \<Longrightarrow> px_ID r = Suc sq \<Longrightarrow>
   proxies_wf rows' (Suc sq)"
  unfolding proxies_wf_def
  by (elim conjE, intro conjI) (auto intro: proxy_key.distinct_insert ids_wf_insert)

lemma proxies_wf_delete: "proxies_wf rows sq \<Longrightarrow> proxies_wf (sql_delete p rows) sq"
  by (simp add: proxies_wf_def proxy_key.distinct_delete) (simp add: sql_delete_def ids_wf_filter)

lemma proxies_wf_update:
  "proxies_wf rows sq \<Longrightarrow> (\<And>r. px_ClientName (f r) = px_ClientName r) \<Longrightarrow> (\<And>r. px_Name (f r) = px_Name r) \<Longrightarrow>
   (\<And>r. px_ID (f r) = px_ID r) \<Longrightarrow> proxies_wf (sql_update p f rows) sq"
  by (simp add: proxies_wf_def map_sql_update)

text \<open>Giving one user a token that no other user has keeps the tokens distinct.\<close>

lemma distinct_token_update:
  assumes "distinct (map us_Username rows)" and "distinct (map us_APIToken rows)"
    and "\<forall>u \<in> set rows. us_Username u \<noteq> n \<longrightarrow> us_APIToken u \<noteq> token"
  shows "distinct (map us_APIToken (sql_update (\<lambda>u. us_Username u = n)
           (\<lambda>u. u\<lparr>us_APIToken := token, us_UpdatedAt := t\<rparr>) rows))"
  using assms by (induction rows) (auto simp: sql_update_def rev_image_eqI split: if_splits)

lemma users_wf_reset_token:
  assumes "users_wf rows sq"
    and "\<not> (list_ex (\<lambda>u. us_Username u = n) rows \<and> list_ex (\<lambda>u. us_Username u \<noteq> n \<and> us_APIToken u = token) rows)"
  shows "users_wf (sql_update (\<lambda>u. us_Username u = n) (\<lambda>u. u\<lparr>us_APIToken := token, us_UpdatedAt := t\<rparr>) rows) sq"
proof (cases "list_ex (\<lambda>u. us_Username u = n) rows")
  case True
  with assms have "\<forall>u \<in> set rows. us_Username u \<noteq> n \<longrightarrow> us_APIToken u \<noteq> token"
    by (auto simp: list_ex_iff)
  with assms(1) show ?thesis by (simp add: users_wf_def map_sql_update distinct_token_update)
next
  case False
  then have "sql_update (\<lambda>u. us_Username u = n) (\<lambda>u. u\<lparr>us_APIToken := token, us_UpdatedAt := t\<rparr>) rows = rows"
    by (auto simp: sql_update_def list_ex_iff intro: map_idI)
  with assms(1) show ?thesis by simp
qed

text \<open>
  A statement in the store's life: any operation that writes, with any arguments, and a change of the
  fault behaviour of the database.
\<close>

inductive store_step :: "Store \<Rightarrow> Store \<Rightarrow> bool" where
  fault: "store_step s (s\<lparr>fails := f\<rparr>)"
| add_client: "store_step s (snd (AddClientWithOwner s now nm token mt mb owner))"
| delete_client: "store_step s (snd (DeleteClient s nm))"
| quota: "store_step s (snd (UpdateClientQuota s now nm mt mb))"
| traffic: "store_step s (snd (AddTraffic s now nm i out))"
| add_key: "store_step s (snd (AddAPIKey s now key note))"
| delete_key: "store_step s (snd (DeleteAPIKey s key))"
| create_proxy: "store_step s (snd (CreateProxy s now p))"
| delete_proxy: "store_step s (snd (DeleteProxy s nm))"
| update_proxy: "store_step s (snd (UpdateProxy s nm typ rp lp la en))"
| enable_proxy: "store_step s (snd (SetProxyEnabled s nm en))"
| create_user: "store_step s (snd (CreateUser s now r1 r2 nm pw role))"
| reset_token: "store_step s (snd (ResetUserToken s now r nm))"
| set_password: "store_step s (snd (UpdateUserPassword s now r nm pw))"
| delete_user: "store_step s (snd (DeleteUser s nm))"
| user_status: "store_step s (snd (SetUserStatus s now nm st))"
| setting: "store_step s (snd (SetSetting s key v))"

inductive_cases store_stepE: "store_step s s'"

lemma db_exec_snd:
  "snd (db_exec op s r) = (if fails s op then s else case r of None \<Rightarrow> s | Some (_, t) \<Rightarrow> t)"
  by (simp add: db_exec_def split: option.split prod.split)

lemma store_wf_clients_ops:
  assumes "store_wf s"
  shows "store_wf (snd (AddClientWithOwner s now nm token mt mb owner))"
    and "store_wf (snd (DeleteClient s nm))" and "store_wf (snd (UpdateClientQuota s now nm mt mb))"
    and "store_wf (snd (AddTraffic s now nm i out))"
  using assms
  by (auto simp: store_ops_defs db_exec_snd store_wf_def clients_wf_insert clients_wf_delete clients_wf_update
      split: option.splits)

lemma store_wf_key_ops:
  assumes "store_wf s"
  shows "store_wf (snd (AddAPIKey s now key note))" and "store_wf (snd (DeleteAPIKey s key))"
    and "store_wf (snd (SetSetting s key v))"
  using assms
  by (auto simp: store_ops_defs db_exec_snd store_wf_def api_key.distinct_delete intro: api_key.distinct_insert
      split: option.splits)

lemma store_wf_proxy_ops:
  assumes "store_wf s"
  shows "store_wf (snd (CreateProxy s now p))" and "store_wf (snd (DeleteProxy s nm))"
    and "store_wf (snd (UpdateProxy s nm typ rp lp la en))" and "store_wf (snd (SetProxyEnabled s nm en))"
  using assms
  by (auto simp: store_ops_defs db_exec_snd store_wf_def proxies_wf_insert proxies_wf_delete proxies_wf_update
      split: option.splits)

lemma store_wf_user_ops:
  assumes "store_wf s"
  shows "store_wf (snd (CreateUser s now r1 r2 nm pw role))" and "store_wf (snd (ResetUserToken s now r nm))"
    and "store_wf (snd (UpdateUserPassword s now r nm pw))" and "store_wf (snd (DeleteUser s nm))"
    and "store_wf (snd (SetUserStatus s now nm st))"
  using assms
  by (auto simp: store_ops_defs db_exec_snd store_wf_def Let_def update_user_def users_wf_insert users_wf_delete
      users_wf_update users_wf_reset_token split: option.splits)

lemma store_wf_step: "store_step s s' \<Longrightarrow> store_wf s \<Longrightarrow> store_wf s'"
  by (erule store_stepE)
    (simp_all add: store_wf_clients_ops store_wf_key_ops store_wf_proxy_ops store_wf_user_ops, simp add: store_wf_def)

lemma store_wf_steps: "store_step\<^sup>*\<^sup>* s s' \<Longrightarrow> store_wf s \<Longrightarrow> store_wf s'"
  by (induction rule: rtranclp_induct) (auto dest: store_wf_step)

lemma clients_wf_migrate:
  "clients_wf rows sq \<Longrightarrow> migrate (h, rows, sq) = (rows', sq') \<Longrightarrow> clients_wf rows' sq'"
  by (auto simp: migrate_def clients_wf_def comp_def split: if_splits)

lemma wf_Nil: "clients_wf [] n" "users_wf [] n" "proxies_wf [] n"
  by (simp_all add: clients_wf_def users_wf_def proxies_wf_def ids_wf_def)

lemma store_wf_Open:
  assumes "disk_wf d" and "Open flt d = Inr s"
  shows "store_wf s"
proof -
  obtain h rows sq where c: "if_not_exists (True, [], 0) (dk_clients d) = (h, rows, sq)" by (metis prod_cases3)
  obtain rows' sq' where m: "migrate (h, rows, sq) = (rows', sq')" by fastforce
  have "clients_wf rows sq"
    using assms(1) c by (auto simp: disk_wf_def if_not_exists_def wf_Nil split: option.splits)
  then have "clients_wf rows' sq'" using m by (rule clients_wf_migrate)
  moreover have "users_wf (fst u) (snd u)" if "u = if_not_exists ([], 0) (dk_users d)" for u
    using assms(1) that by (auto simp: disk_wf_def if_not_exists_def wf_Nil split: option.splits)
  moreover have "proxies_wf (fst u) (snd u)" if "u = if_not_exists ([], 0) (dk_proxies d)" for u
    using assms(1) that by (auto simp: disk_wf_def if_not_exists_def wf_Nil split: option.splits)
  moreover have "distinct (map ak_Key (if_not_exists [] (dk_api_keys d)))"
    using assms(1) by (simp add: disk_wf_def if_not_exists_def split: option.splits)
  moreover have "gwf (if_not_exists [] (dk_settings d))"
    using assms(1) by (simp add: disk_wf_def if_not_exists_def split: option.splits)
  ultimately show ?thesis
    using assms(2) c m by (auto simp: Open_def initSchema_def store_wf_def Let_def split: if_splits)
qed

section \<open>Behaviour of the operations\<close>

lemma AddClientWithOwner_ok:
  "AddClientWithOwner s now nm token mt mb owner = (Inr (), s') \<longleftrightarrow>
     \<not> fails s OpAddClient \<and>
     (\<exists>rows. sql_insert client_clash
        \<lparr>cl_ID = Suc (clients_seq s), cl_Name = nm, cl_Token = token, cl_MaxTunnels = mt,
         cl_MaxTrafficBytes = mb, cl_BytesIn = 0, cl_BytesOut = 0, cl_Status = ''active'',
         cl_Owner = owner, cl_CreatedAt = now, cl_UpdatedAt = now\<rparr> (clients_tbl s) = Some rows \<and>
        s' = s\<lparr>clients_tbl := rows, clients_seq := Suc (clients_seq s)\<rparr>)"
  by (auto simp: AddClientWithOwner_def db_exec_def split: option.splits)

lemma DeleteClient_ok:
  "DeleteClient s nm = (Inr b, s') \<longleftrightarrow>
     \<not> fails s OpDeleteClient \<and> b = (affected (\<lambda>c. cl_Name c = nm) (clients_tbl s) > 0) \<and>
     s' = s\<lparr>clients_tbl := sql_delete (\<lambda>c. cl_Name c = nm) (clients_tbl s)\<rparr>"
  by (auto simp: DeleteClient_def db_exec_def)

text \<open>No operation gives an existing row another id, name, token or owner, and ids only grow.\<close>

definition same_identity :: "StoreClient \<Rightarrow> StoreClient \<Rightarrow> bool" where
  "same_identity a b \<longleftrightarrow> cl_ID a = cl_ID b \<and> cl_Name a = cl_Name b \<and> cl_Token a = cl_Token b \<and> cl_Owner a = cl_Owner b"

definition identities_kept :: "Store \<Rightarrow> Store \<Rightarrow> bool" where
  "identities_kept s s' \<longleftrightarrow> clients_seq s \<le> clients_seq s' \<and>
     (\<forall>c' \<in> set (clients_tbl s'). cl_ID c' \<le> clients_seq s \<longrightarrow> (\<exists>c \<in> set (clients_tbl s). same_identity c c'))"

lemma same_identity_refl: "same_identity c c"
  by (simp add: same_identity_def)

lemma same_identity_in: "c \<in> A \<Longrightarrow> \<exists>b \<in> A. same_identity b c"
  by (auto simp: same_identity_def)

lemma identities_kept_same: "clients_tbl s' = clients_tbl s \<Longrightarrow> clients_seq s' = clients_seq s \<Longrightarrow> identities_kept s s'"
  by (auto simp: identities_kept_def intro: same_identity_refl)

lemma identities_kept_update:
  "clients_tbl s' = sql_update p f (clients_tbl s) \<Longrightarrow> clients_seq s' = clients_seq s \<Longrightarrow>
   (\<And>c. same_identity c (f c)) \<Longrightarrow> identities_kept s s'"
  by (auto simp: identities_kept_def sql_update_def intro: same_identity_refl)

lemma identities_kept_step:
  assumes "store_step s s'"
  shows "identities_kept s s'"
  using assms
proof cases
  case (add_client now nm token mt mb owner)
  then show ?thesis
    by (auto simp: AddClientWithOwner_def db_exec_snd identities_kept_def
        dest!: sql_insert_Some split: option.splits intro: same_identity_in)
next
  case (delete_client nm)
  then show ?thesis
    by (auto simp: DeleteClient_def db_exec_snd identities_kept_def sql_delete_def intro: same_identity_in)
next
  case (quota now nm mt mb)
  then show ?thesis
    by (cases "fails s OpUpdateQuota")
      (auto simp: UpdateClientQuota_def db_exec_snd same_identity_def intro: identities_kept_same identities_kept_update)
next
  case (traffic now nm i out)
  then show ?thesis
    by (cases "fails s OpAddTraffic")
      (auto simp: AddTraffic_def db_exec_snd same_identity_def intro: identities_kept_same identities_kept_update)
qed (auto simp: store_ops_defs db_exec_snd Let_def update_user_def intro!: identities_kept_same split: option.splits)

lemma identities_kept_trans:
  assumes "identities_kept s t" and "identities_kept t u"
  shows "identities_kept s u"
  unfolding identities_kept_def
proof (intro conjI ballI impI)
  show "clients_seq s \<le> clients_seq u" using assms by (auto simp: identities_kept_def)
next
  fix c assume c: "c \<in> set (clients_tbl u)" "cl_ID c \<le> clients_seq s"
  then have "cl_ID c \<le> clients_seq t" using assms(1) by (simp add: identities_kept_def)
  with c assms(2) obtain b where b: "b \<in> set (clients_tbl t)" "same_identity b c"
    by (auto simp: identities_kept_def)
  with c assms(1) obtain a where "a \<in> set (clients_tbl s)" "same_identity a b"
    by (auto simp: identities_kept_def same_identity_def)
  with b show "\<exists>a \<in> set (clients_tbl s). same_identity a c"
    by (auto simp: same_identity_def intro!: bexI [of _ a])
qed

lemma identities_kept_steps: "store_step\<^sup>*\<^sup>* s s' \<Longrightarrow> identities_kept s s'"
  by (induction rule: rtranclp_induct)
    (auto intro: identities_kept_same identities_kept_trans identities_kept_step)

lemma sql_delete_inserted:
  assumes "sql_insert client_clash r rows = Some rows'"
  shows "sql_delete (\<lambda>c. cl_Name c = cl_Name r) rows' = rows"
proof -
  from assms have "rows' = rows @ [r]" "\<forall>c \<in> set rows. cl_Name c \<noteq> cl_Name r"
    by (auto simp: sql_insert_def list_ex_iff client_clash_def split: if_splits)
  then show ?thesis by (simp add: sql_delete_def)
qed

definition new_disk :: disk where
  "new_disk = \<lparr>dk_clients = None, dk_users = None, dk_api_keys = None, dk_settings = None, dk_proxies = None\<rparr>"

definition empty_store :: Store where
  "empty_store = \<lparr>clients_tbl = [], clients_seq = 0, users_tbl = [], users_seq = 0, api_keys_tbl = [],
     settings_tbl = [], proxies_tbl = [], proxies_seq = 0, fails = (\<lambda>_. False)\<rparr>"

lemma Open_new_disk: "Open (\<lambda>_. False) new_disk = Inr empty_store"
  by (simp add: Open_def initSchema_def new_disk_def empty_store_def if_not_exists_def migrate_def)

lemma new_disk_wf: "disk_wf new_disk"
  by (simp add: disk_wf_def new_disk_def)

lemma empty_store_wf: "store_wf empty_store"
  using store_wf_Open [OF new_disk_wf Open_new_disk] .

section \<open>Properties\<close>

text \<open>
  The constraints of the schema are SQLite's own guarantee, which the modelled statements carry out. The
  components that follow rely on them in every state that the operations reach, with whatever arguments and
  database failures: names, tokens and keys are distinct and ids increase.
\<close>

lemma store_constraints_hold:
  assumes "disk_wf d" and "Open flt d = Inr s" and "store_step\<^sup>*\<^sup>* s s'"
  shows "store_wf s'"
  using store_wf_steps [OF assms(3) store_wf_Open [OF assms(1,2)]] .

text \<open>
  A client id names one client for ever: after any further operations, a row whose id had already
  been given out is the row of that client, with the same name, token and owner; ids of deleted
  clients are never given to another client.
\<close>
theorem client_ids_never_reused:
  assumes "store_step\<^sup>*\<^sup>* s s'" and "c' \<in> set (clients_tbl s')" and "cl_ID c' \<le> clients_seq s"
  shows "\<exists>c \<in> set (clients_tbl s). cl_ID c = cl_ID c' \<and> cl_Name c = cl_Name c' \<and>
    cl_Token c = cl_Token c' \<and> cl_Owner c = cl_Owner c'"
  using identities_kept_steps [OF assms(1)] assms(2,3)
  by (auto simp: identities_kept_def same_identity_def)

theorem client_ids_never_reused_witness:
  "\<exists>c \<in> set (clients_tbl (snd (AddClient empty_store ''t'' ''a'' ''tok'' 1 0))). cl_ID c = 1 \<and> cl_Name c = ''a'' \<and>
    cl_Token c = ''tok'' \<and> cl_Owner c = ''''"
proof -
  let ?s = "snd (AddClient empty_store ''t'' ''a'' ''tok'' 1 0)"
  let ?c = "\<lparr>cl_ID = 1, cl_Name = ''a'', cl_Token = ''tok'', cl_MaxTunnels = 1, cl_MaxTrafficBytes = 0,
     cl_BytesIn = 5, cl_BytesOut = 6, cl_Status = ''active'', cl_Owner = '''', cl_CreatedAt = ''t'', cl_UpdatedAt = ''u''\<rparr>"
  have st: "store_step\<^sup>*\<^sup>* ?s (snd (AddTraffic ?s ''u'' ''a'' 5 6))"
    by (rule r_into_rtranclp, rule store_step.traffic)
  have e: "?c \<in> set (clients_tbl (snd (AddTraffic ?s ''u'' ''a'' 5 6)))" "cl_ID ?c \<le> clients_seq ?s"
    by (simp_all add: AddClient_def AddClientWithOwner_def AddTraffic_def db_exec_def empty_store_def
        sql_insert_def sql_update_def)
  from client_ids_never_reused [OF st e] show ?thesis by simp
qed

text \<open>
  Life of a client token: a successful registration makes the token resolve to the new active
  client with the given quotas and owner, and leaves every other token's resolution as it was; a
  successful deletion reports that a row was removed, makes the token resolve to nobody and brings
  the table back to what it was.
\<close>
theorem client_token_lifecycle:
  assumes "store_wf s" and "AddClientWithOwner s now nm token mt mb owner = (Inr (), s1)"
    and "DeleteClient s1 nm = (Inr b, s2)" and "\<not> fails s OpGetClientByToken"
  shows "(\<exists>c. GetClientByToken s1 token = Inr (Some c) \<and> cl_Name c = nm \<and> cl_Owner c = owner \<and>
        cl_MaxTunnels c = mt \<and> cl_MaxTrafficBytes c = mb \<and> cl_BytesIn c = 0 \<and> cl_BytesOut c = 0) \<and>
    (\<forall>t. t \<noteq> token \<longrightarrow> GetClientByToken s1 t = GetClientByToken s t) \<and>
    b \<and> GetClientByToken s2 token = Inr None \<and> clients_tbl s2 = clients_tbl s"
proof -
  let ?r = "\<lparr>cl_ID = Suc (clients_seq s), cl_Name = nm, cl_Token = token, cl_MaxTunnels = mt,
         cl_MaxTrafficBytes = mb, cl_BytesIn = 0, cl_BytesOut = 0, cl_Status = ''active'',
         cl_Owner = owner, cl_CreatedAt = now, cl_UpdatedAt = now\<rparr>"
  from assms(2) obtain rows where i: "sql_insert client_clash ?r (clients_tbl s) = Some rows"
    and s1: "s1 = s\<lparr>clients_tbl := rows, clients_seq := Suc (clients_seq s)\<rparr>"
    by (auto simp: AddClientWithOwner_ok)
  have d: "distinct (map cl_Token (clients_tbl s))"
    using assms(1) by (simp add: store_wf_def clients_wf_def)
  have d1: "distinct (map cl_Token rows)" using client_token.distinct_insert [OF i d] .
  have del: "sql_delete (\<lambda>c. cl_Name c = nm) rows = clients_tbl s"
    using sql_delete_inserted [OF i] by simp
  have a: "affected (\<lambda>c. cl_Name c = nm) rows > 0"
    using client_name.affected_iff [of nm rows] client_name.lookup_insert(1) [OF i, of nm] by simp
  show ?thesis
    using assms(3,4) a client_token.lookup_insert(1) [OF i] client_token.lookup_insert(2) [OF i]
    by (simp add: DeleteClient_ok s1 del GetClientByToken_def db_query_def client_token.lookup_and d d1)
qed

theorem client_token_lifecycle_witness:
  "GetClientByToken (snd (DeleteClient (snd (AddClient empty_store ''t'' ''a'' ''tok'' 1 0)) ''a'')) ''tok'' = Inr None"
proof -
  let ?s1 = "snd (AddClientWithOwner empty_store ''t'' ''a'' ''tok'' 1 0 '''')"
  have a: "AddClientWithOwner empty_store ''t'' ''a'' ''tok'' 1 0 '''' = (Inr (), ?s1)"
    by (simp add: AddClientWithOwner_def db_exec_def empty_store_def sql_insert_def)
  have b: "DeleteClient ?s1 ''a'' = (Inr True, snd (DeleteClient ?s1 ''a''))"
    by (simp add: AddClientWithOwner_def DeleteClient_def db_exec_def empty_store_def sql_insert_def affected_def)
  from client_token_lifecycle [OF empty_store_wf a b] show ?thesis
    by (simp add: AddClient_def empty_store_def)
qed

text \<open>
  The tunnel list sent to a client is exact: it holds exactly the enabled tunnels of that client,
  each once, no two of the same name, oldest first.
\<close>
theorem sync_list_exact:
  assumes "store_wf s" and "ListProxiesByClient s c = Inr ps"
  shows "set ps = {p \<in> set (proxies_tbl s). px_ClientName p = c \<and> px_Enabled p} \<and>
    distinct (map px_Name ps) \<and> sorted_wrt (<) (map px_ID ps)"
proof -
  have ps: "ps = filter (\<lambda>p. px_ClientName p = c \<and> px_Enabled p) (proxies_tbl s)"
    using assms(2) by (simp add: ListProxiesByClient_def db_query_def split: if_splits)
  have wf: "distinct (map (\<lambda>p. (px_ClientName p, px_Name p)) (proxies_tbl s))"
    "sorted_wrt (<) (map px_ID (proxies_tbl s))"
    using assms(1) by (simp_all add: store_wf_def proxies_wf_def ids_wf_def)
  have "distinct (map px_Name (filter (\<lambda>p. px_ClientName p = c \<and> px_Enabled p) rows))"
    if "distinct (map (\<lambda>p. (px_ClientName p, px_Name p)) rows)" for rows
    using that by (induction rows) (auto simp: image_iff)
  with wf ps show ?thesis by (auto simp: sorted_wrt_map intro: sorted_wrt_filter)
qed

definition demo_proxy :: "string \<Rightarrow> string \<Rightarrow> StoreProxy" where
  "demo_proxy client nm = \<lparr>px_ID = 0, px_Name = nm, px_Type = ''tcp'', px_RemotePort = 8080, px_LocalAddr = ''127.0.0.1'',
     px_LocalPort = 80, px_ClientName = client, px_Enabled = True, px_CreatedAt = ''''\<rparr>"

theorem sync_list_exact_witness:
  "distinct (map px_Name [demo_proxy ''a'' ''web''\<lparr>px_ID := 1, px_CreatedAt := ''t''\<rparr>])"
proof -
  let ?s = "snd (CreateProxy empty_store ''t'' (demo_proxy ''a'' ''web''))"
  have "ListProxiesByClient ?s ''a'' = Inr [demo_proxy ''a'' ''web''\<lparr>px_ID := 1, px_CreatedAt := ''t''\<rparr>]"
    by (simp add: ListProxiesByClient_def CreateProxy_def db_query_def db_exec_def empty_store_def sql_insert_def demo_proxy_def)
  from sync_list_exact [OF store_wf_proxy_ops(1) [OF empty_store_wf] this] show ?thesis by blast
qed

text \<open>
  Passwords: after a successful \<open>CreateUser\<close>, and again after a successful \<open>UpdateUserPassword\<close>
  of an active user, the password check succeeds for exactly the passwords whose SHA-256 digest,
  prefixed with the stored salt, is that of the password last set; the password itself is accepted.
\<close>
theorem password_check_exact:
  assumes "CreateUser s now r1 r2 nm pw role = (Inr u, s1)" and "\<not> fails s OpGetUser"
    and "UpdateUserPassword s1 now2 r3 nm pw2 = (Inr hit, s2)"
  shows "(snd (VerifyUserPassword s1 nm p) \<longleftrightarrow>
       Sum256 (bytes_of_string (randomHex 8 r1 @ p)) = Sum256 (bytes_of_string (randomHex 8 r1 @ pw))) \<and>
    (snd (VerifyUserPassword s2 nm p) \<longleftrightarrow>
       Sum256 (bytes_of_string (randomHex 8 r3 @ p)) = Sum256 (bytes_of_string (randomHex 8 r3 @ pw2))) \<and>
    snd (VerifyUserPassword s1 nm pw) \<and> snd (VerifyUserPassword s2 nm pw2)"
proof -
  let ?u = "\<lparr>us_ID = users_seq s + 1, us_Username = nm, us_PasswordHash = hashPassword pw (randomHex 8 r1),
     us_PasswordSalt = randomHex 8 r1, us_Role = role, us_APIToken = randomHex 24 r2,
     us_Status = ''active'', us_CreatedAt = now, us_UpdatedAt = now\<rparr>"
  from assms(1) obtain rows where i: "sql_insert user_clash ?u (users_tbl s) = Some rows"
    and s1: "s1 = s\<lparr>users_tbl := rows, users_seq := users_seq s + 1\<rparr>"
    by (auto simp: CreateUser_def db_exec_def Let_def split: option.splits if_splits)
  have l1: "row_at us_Username rows nm = Some ?u" using user_name.lookup_insert(1) [OF i, of nm] by simp
  let ?f = "\<lambda>u. u\<lparr>us_PasswordHash := hashPassword pw2 (randomHex 8 r3), us_PasswordSalt := randomHex 8 r3, us_UpdatedAt := now2\<rparr>"
  have l2: "row_at us_Username (sql_update (\<lambda>u. us_Username u = nm) ?f rows) nm = Some (?f ?u)"
    using user_name.lookup_update [where f = ?f and k = nm and j = nm and rows = rows] l1 by simp
  have s2: "s2 = s1\<lparr>users_tbl := sql_update (\<lambda>u. us_Username u = nm) ?f (users_tbl s1)\<rparr>"
    using assms(3) by (auto simp: UpdateUserPassword_def update_user_def db_exec_def Let_def split: if_splits)
  have g: "GetUser s1 nm = Inr (Some ?u)" "GetUser s2 nm = Inr (Some (?f ?u))"
    using assms(2) l1 l2 by (simp_all add: GetUser_def db_query_def s1 s2)
  show ?thesis unfolding VerifyUserPassword_def g by (auto simp: hashPassword_def dest: hex_inject)
qed

theorem password_check_exact_witness:
  "\<exists>s1 s2. snd (CreateUser empty_store ''t'' None None ''bob'' ''secret'' ''user'') = s1 \<and>
     snd (UpdateUserPassword s1 ''u'' None ''bob'' ''other'') = s2 \<and>
     snd (VerifyUserPassword s1 ''bob'' ''secret'') \<and> snd (VerifyUserPassword s2 ''bob'' ''other'')"
proof -
  obtain u s1 where a: "CreateUser empty_store ''t'' None None ''bob'' ''secret'' ''user'' = (Inr u, s1)"
    by (simp add: CreateUser_def db_exec_def empty_store_def sql_insert_def Let_def)
  then have "\<not> fails s1 OpUpdateUser"
    by (auto simp: CreateUser_def db_exec_def empty_store_def sql_insert_def Let_def)
  then obtain hit s2 where b: "UpdateUserPassword s1 ''u'' None ''bob'' ''other'' = (Inr hit, s2)"
    by (simp add: UpdateUserPassword_def db_exec_def update_user_def Let_def)
  have "\<not> fails empty_store OpGetUser" by (simp add: empty_store_def)
  from password_check_exact [OF a this b] a b show ?thesis by simp
qed

text \<open>
  Revocation of a user's API token: after a successful reset, the old token resolves to nobody
  (unless the random generator repeated it), the new token resolves to exactly that user as long as
  the user is active, and the tokens of all other users resolve as before.
\<close>
theorem user_token_reset_revokes:
  assumes "store_wf s" and "row_at us_Username (users_tbl s) nm = Some u" and "\<not> fails s OpGetUserByToken"
    and "ResetUserToken s now rnd nm = (Inr (token, hit), s')" and "us_Status u = ''active''"
  shows "hit \<and>
    GetUserByToken s' token = Inr (Some (u\<lparr>us_APIToken := token, us_UpdatedAt := now\<rparr>)) \<and>
    (us_APIToken u \<noteq> token \<longrightarrow> GetUserByToken s' (us_APIToken u) = Inr None) \<and>
    (\<forall>t. t \<noteq> token \<and> t \<noteq> us_APIToken u \<longrightarrow> GetUserByToken s' t = GetUserByToken s t)"
proof -
  let ?f = "\<lambda>u. u\<lparr>us_APIToken := token, us_UpdatedAt := now\<rparr>"
  let ?rows = "sql_update (\<lambda>u. us_Username u = nm) ?f (users_tbl s)"
  have s': "s' = s\<lparr>users_tbl := ?rows\<rparr>" and hit: "hit"
    using assms(2,4) user_name.affected_iff [of nm "users_tbl s"]
    by (auto simp: ResetUserToken_def update_user_def db_exec_def Let_def split: if_splits)
  have "store_wf s'" using store_wf_user_ops(2) [OF assms(1), of now rnd nm] assms(4) by simp
  then have d': "distinct (map us_APIToken ?rows)" by (simp add: s' store_wf_def users_wf_def)
  have d: "distinct (map us_APIToken (users_tbl s))" "distinct (map us_Username (users_tbl s))"
    using assms(1) by (simp_all add: store_wf_def users_wf_def)
  have u: "u \<in> set (users_tbl s)" "us_Username u = nm" using assms(2) user_name.lookup_row [OF d(2)] by auto
  have by_name: "v = u" if "v \<in> set (users_tbl s)" "us_Username v = nm" for v
    using user_name.lookup_row [OF d(2), of nm v] assms(2) that by simp
  have by_token: "v = u" if "v \<in> set (users_tbl s)" "us_APIToken v = us_APIToken u" for v
    using user_token.lookup_row [OF d(1), of "us_APIToken u" v] user_token.lookup_row [OF d(1), of "us_APIToken u" u] that u
    by simp
  have in_rows: "v \<in> set ?rows \<longleftrightarrow> v = ?f u \<or> v \<in> set (users_tbl s) \<and> us_Username v \<noteq> nm" for v
    using u user_name.lookup_row [OF d(2), of nm] assms(2) by (force simp: sql_update_def)
  have "row_at us_APIToken ?rows token = Some (?f u)"
    using user_token.lookup_row [OF d', of token "?f u"] in_rows by simp
  moreover have other: "row_at us_APIToken ?rows t = (if t = us_APIToken u then None else row_at us_APIToken (users_tbl s) t)"
    if "t \<noteq> token" for t
  proof (rule option_ext)
    fix v
    have "row_at us_APIToken ?rows t = Some v \<longleftrightarrow> v \<in> set (users_tbl s) \<and> us_Username v \<noteq> nm \<and> us_APIToken v = t"
      unfolding user_token.lookup_row [OF d', of t v] in_rows [of v] using that by auto
    also have "\<dots> \<longleftrightarrow> v \<in> set (users_tbl s) \<and> v \<noteq> u \<and> us_APIToken v = t"
      using by_name u by metis
    also have "\<dots> \<longleftrightarrow> t \<noteq> us_APIToken u \<and> v \<in> set (users_tbl s) \<and> us_APIToken v = t"
      using by_token u by metis
    finally show "row_at us_APIToken ?rows t = Some v \<longleftrightarrow>
      (if t = us_APIToken u then None else row_at us_APIToken (users_tbl s) t) = Some v"
      using user_token.lookup_row [OF d(1), of t v] by simp
  qed
  ultimately show ?thesis
    using hit assms(3,5) by (simp add: GetUserByToken_def db_query_def s' user_token.lookup_and d d')
qed

definition demo_user :: User where
  "demo_user = \<lparr>us_ID = 1, us_Username = ''bob'', us_PasswordHash = ''h'', us_PasswordSalt = ''s'', us_Role = ''user'',
     us_APIToken = ''old'', us_Status = ''active'', us_CreatedAt = ''t'', us_UpdatedAt = ''t''\<rparr>"

theorem user_token_reset_revokes_witness:
  "GetUserByToken (snd (ResetUserToken (empty_store\<lparr>users_tbl := [demo_user], users_seq := 1\<rparr>) ''u'' (Some []) ''bob'')) ''old'' = Inr None"
proof -
  let ?s = "empty_store\<lparr>users_tbl := [demo_user], users_seq := 1\<rparr>"
  let ?s' = "snd (ResetUserToken ?s ''u'' (Some []) ''bob'')"
  have w: "store_wf ?s" using empty_store_wf
    by (simp add: store_wf_def users_wf_def ids_wf_def demo_user_def empty_store_def)
  have r: "ResetUserToken ?s ''u'' (Some []) ''bob'' = (Inr ('''', True), ?s')"
    by (simp add: ResetUserToken_def randomHex_def hex_EncodeToString_def db_exec_def update_user_def
        affected_def empty_store_def demo_user_def)
  have f: "row_at us_Username (users_tbl ?s) ''bob'' = Some demo_user" by (simp add: demo_user_def)
  have n: "\<not> fails ?s OpGetUserByToken" by (simp add: empty_store_def)
  from user_token_reset_revokes [OF w f n r] show ?thesis by (simp add: demo_user_def)
qed

text \<open>
  Tunnel names are unique per client only, but \<open>GetProxy\<close>, \<open>SetProxyEnabled\<close> and \<open>DeleteProxy\<close>
  select by name alone: when two clients each have a tunnel of the same name, looking it up gives the
  older one, and disabling or deleting it by name acts on the tunnels of both clients.
\<close>
theorem proxy_name_operations_cross_clients:
  "let s = snd (CreateProxy (snd (CreateProxy empty_store ''t1'' (demo_proxy ''alice'' ''web''))) ''t2''
             (demo_proxy ''bob'' ''web''))
   in map px_ClientName (proxies_tbl s) = [''alice'', ''bob''] \<and>
      map_sum id (map_option px_ClientName) (GetProxy s ''web'') = Inr (Some ''alice'') \<and>
      map px_Enabled (proxies_tbl (snd (SetProxyEnabled s ''web'' False))) = [False, False] \<and>
      proxies_tbl (snd (DeleteProxy s ''web'')) = []"
  by (simp add: Let_def CreateProxy_def db_exec_def sql_insert_def proxy_clash_def empty_store_def demo_proxy_def
      GetProxy_def db_query_def SetProxyEnabled_def DeleteProxy_def sql_update_def sql_delete_def)

text \<open>Traffic records of one client, each written by one \<open>AddTraffic\<close>.\<close>

definition add_all_traffic :: "Store \<Rightarrow> string \<Rightarrow> string \<Rightarrow> (int \<times> int) list \<Rightarrow> Store" where
  "add_all_traffic s now nm ds = foldl (\<lambda>s (i, out). snd (AddTraffic s now nm i out)) s ds"

lemma AddTraffic_row:
  assumes "\<not> fails s OpAddTraffic"
  shows "fails (snd (AddTraffic s now nm i out)) = fails s"
    and "map_option (\<lambda>c. (cl_BytesIn c, cl_BytesOut c)) (row_at cl_Name (clients_tbl (snd (AddTraffic s now nm i out))) j) =
      map_option (\<lambda>c. if j = nm then (cl_BytesIn c + i, cl_BytesOut c + out) else (cl_BytesIn c, cl_BytesOut c))
        (row_at cl_Name (clients_tbl s) j)"
proof -
  let ?f = "\<lambda>c. c\<lparr>cl_BytesIn := cl_BytesIn c + i, cl_BytesOut := cl_BytesOut c + out, cl_UpdatedAt := now\<rparr>"
  show "fails (snd (AddTraffic s now nm i out)) = fails s" by (simp add: AddTraffic_def db_exec_snd)
  show "map_option (\<lambda>c. (cl_BytesIn c, cl_BytesOut c)) (row_at cl_Name (clients_tbl (snd (AddTraffic s now nm i out))) j) =
      map_option (\<lambda>c. if j = nm then (cl_BytesIn c + i, cl_BytesOut c + out) else (cl_BytesIn c, cl_BytesOut c))
        (row_at cl_Name (clients_tbl s) j)"
    using assms client_name.lookup_update [where f = ?f and k = nm and j = j and rows = "clients_tbl s"]
    by (auto simp: AddTraffic_def db_exec_snd option.map_comp comp_def cong: map_option_cong)
qed

text \<open>
  Traffic accounting in the store is exact: after any number of \<open>AddTraffic\<close> calls for a client the
  stored counters of that client have grown by exactly the sums of the two columns, and those of every
  other client are unchanged.
\<close>
theorem traffic_accumulates_exactly:
  assumes "\<not> fails s OpAddTraffic"
  shows "map_option (\<lambda>c. (cl_BytesIn c, cl_BytesOut c)) (row_at cl_Name (clients_tbl (add_all_traffic s now nm ds)) j) =
    map_option (\<lambda>c. (cl_BytesIn c + (if j = nm then sum_list (map fst ds) else 0),
                     cl_BytesOut c + (if j = nm then sum_list (map snd ds) else 0)))
      (row_at cl_Name (clients_tbl s) j)"
  using assms
proof (induction ds arbitrary: s)
  case Nil
  then show ?case by (simp add: add_all_traffic_def)
next
  case (Cons d ds)
  obtain i out where d: "d = (i, out)" by fastforce
  let ?t = "snd (AddTraffic s now nm i out)"
  have "add_all_traffic s now nm (d # ds) = add_all_traffic ?t now nm ds" by (simp add: add_all_traffic_def d)
  moreover have "\<not> fails ?t OpAddTraffic" using Cons.prems AddTraffic_row(1) by simp
  ultimately show ?case
    using Cons.IH [of ?t] AddTraffic_row(2) [OF Cons.prems, where now = now and nm = nm and i = i and out = out and j = j]
    by (cases "row_at cl_Name (clients_tbl s) j"; cases "row_at cl_Name (clients_tbl ?t) j") (auto simp: d)
qed

theorem traffic_accumulates_exactly_witness:
  "map_option (\<lambda>c. (cl_BytesIn c, cl_BytesOut c))
     (row_at cl_Name (clients_tbl (add_all_traffic (snd (AddClient empty_store ''t'' ''a'' ''tok'' 1 0)) ''u'' ''a'' [(5, 1), (7, 2)])) ''a'')
   = Some (12, 3)"
  using traffic_accumulates_exactly [where s = "snd (AddClient empty_store ''t'' ''a'' ''tok'' 1 0)"
      and now = "''u''" and nm = "''a''" and ds = "[(5, 1), (7, 2)]" and j = "''a''"]
  by (simp add: AddClient_def AddClientWithOwner_def db_exec_def empty_store_def sql_insert_def)

end
