(* ===== verification/Forward.thy ===== *)
theory Forward
  imports Auth
begin

text \<open>
  Model of the two \<^verbatim>\<open>forwardWithAuth\<close> functions (\<^verbatim>\<open>cmd/server/main.go\<close> and
  \<^verbatim>\<open>cmd/client/main.go\<close>): each starts two goroutines that copy between a plain connection and an
  authenticated data channel, waits for the first error of either (\<^verbatim>\<open><-errChan\<close>), and then both connections
  are closed, the data channel first (by the deferred calls of the client's function and of the server's caller),
  which ends the other loop. The three goroutines are interleaved by a list of actions. The plain
  connection is given by the results of its successive \<^verbatim>\<open>Read\<close> calls (the bytes and the error, at most 32 KiB
  each), the data channel by the byte stream it delivers; an action that is not scheduled yet is a call that
  still blocks. A \<^verbatim>\<open>Write\<close> may fail: \<open>flt i = Some k\<close> says that the \<open>i\<close>-th write of the loop fails after \<open>k\<close>
  bytes went out. \<open>clk i\<close> is the clock at the \<open>i\<close>-th frame.
\<close>

type_synonym read_result = "bytes \<times> io_err option"
type_synonym write_fault = "nat \<Rightarrow> nat option"

definition bufSize :: nat where "bufSize = 32 * 1024"

section \<open>State and steps\<close>

datatype loop = Signing | Verifying

text \<open>Where a loop stands: in \<^verbatim>\<open>Read\<close>, before the \<^verbatim>\<open>Write\<close> of what it read, or ended.\<close>

datatype sign_pc = SRead | SWrite bytes "io_err option" | SDone
datatype verify_pc = VRead | VWrite bytes | VDone
datatype conns = BothOpen | ChannelClosed | BothClosed

record fwd =
  fw_reads :: "read_result list"
  fw_stream :: stream
  fw_sign :: sign_pc
  fw_verify :: verify_pc
  fw_si :: nat
  fw_vi :: nat
  fw_errChan :: "(loop \<times> io_err) list"
  fw_conns :: conns
  fw_channel :: bytes                            \<comment> \<open>written to the data channel\<close>
  fw_plain :: bytes                              \<comment> \<open>written to the plain connection\<close>
  fw_counts :: "(loop \<times> nat) list"              \<comment> \<open>the amounts counted, in order\<close>

record fwd_env =
  fe_auth :: Auth
  fe_signClk :: "nat \<Rightarrow> 64 word"
  fe_signFault :: write_fault
  fe_verifyClk :: "nat \<Rightarrow> 64 word"
  fe_verifyFault :: write_fault

datatype fwd_action = SignStep | VerifyStep | CloseChannel | ClosePlain

definition fwd_init :: "read_result list \<Rightarrow> stream \<Rightarrow> fwd" where
  "fwd_init reads s = \<lparr>fw_reads = reads, fw_stream = s, fw_sign = SRead, fw_verify = VRead, fw_si = 0, fw_vi = 0, fw_errChan = [],
     fw_conns = BothOpen, fw_channel = [], fw_plain = [], fw_counts = []\<rparr>"

text \<open>A write on a closed connection fails, at once or in the middle.\<close>

definition write_fails :: "bool \<Rightarrow> nat option \<Rightarrow> nat option" where
  "write_fails closed flt = (if closed \<and> flt = None then Some 0 else flt)"

definition sign_end :: "io_err \<Rightarrow> fwd \<Rightarrow> fwd" where
  "sign_end e s = s\<lparr>fw_sign := SDone, fw_errChan := fw_errChan s @ [(Signing, e)]\<rparr>"

definition verify_end :: "io_err \<Rightarrow> fwd \<Rightarrow> fwd" where
  "verify_end e s = s\<lparr>fw_verify := VDone, fw_errChan := fw_errChan s @ [(Verifying, e)]\<rparr>"

definition sign_step :: "fwd_env \<Rightarrow> fwd \<Rightarrow> fwd" where
  "sign_step env s =
     (case fw_sign s of
        SRead \<Rightarrow>
          if fw_conns s = BothClosed then sign_end NetErr s
          else
            (case fw_reads s of
               [] \<Rightarrow> s
             | (buf, err) # rs \<Rightarrow>
                 if buf \<noteq> [] then
                   s\<lparr>fw_reads := rs, fw_counts := fw_counts s @ [(Signing, length buf)],
                     fw_sign := SWrite (SignFramed (fe_auth env) (fe_signClk env (fw_si s)) buf) err\<rparr>
                 else
                   (case err of
                      Some e \<Rightarrow> sign_end e (s\<lparr>fw_reads := rs\<rparr>)
                    | None \<Rightarrow> s\<lparr>fw_reads := rs\<rparr>))
      | SWrite frame err \<Rightarrow>
          (case write_fails (fw_conns s \<noteq> BothOpen) (fe_signFault env (fw_si s)) of
             Some k \<Rightarrow> sign_end NetErr (s\<lparr>fw_channel := fw_channel s @ take k frame\<rparr>)
           | None \<Rightarrow>
               let s1 = s\<lparr>fw_channel := fw_channel s @ frame, fw_si := Suc (fw_si s)\<rparr> in
               (case err of Some e \<Rightarrow> sign_end e s1 | None \<Rightarrow> s1\<lparr>fw_sign := SRead\<rparr>))
      | SDone \<Rightarrow> s)"

definition verify_step :: "fwd_env \<Rightarrow> fwd \<Rightarrow> fwd" where
  "verify_step env s =
     (case fw_verify s of
        VRead \<Rightarrow>
          if fw_conns s \<noteq> BothOpen then verify_end NetErr s
          else
            (case ReadFramed (fe_auth env) (fe_verifyClk env (fw_vi s)) (fw_stream s) of
               Inl e \<Rightarrow> verify_end e s
             | Inr (data, rest) \<Rightarrow>
                 s\<lparr>fw_stream := rest, fw_counts := fw_counts s @ [(Verifying, length data)], fw_verify := VWrite data\<rparr>)
      | VWrite data \<Rightarrow>
          (case write_fails (fw_conns s = BothClosed) (fe_verifyFault env (fw_vi s)) of
             Some k \<Rightarrow> verify_end NetErr (s\<lparr>fw_plain := fw_plain s @ take k data\<rparr>)
           | None \<Rightarrow> s\<lparr>fw_plain := fw_plain s @ data, fw_vi := Suc (fw_vi s), fw_verify := VRead\<rparr>)
      | VDone \<Rightarrow> s)"

text \<open>The function returns once \<^verbatim>\<open>errChan\<close> has an error; then the two deferred closes run.\<close>

fun fwd_step :: "fwd_env \<Rightarrow> fwd_action \<Rightarrow> fwd \<Rightarrow> fwd" where
  "fwd_step env SignStep s = sign_step env s"
| "fwd_step env VerifyStep s = verify_step env s"
| "fwd_step env CloseChannel s = (if fw_errChan s \<noteq> [] \<and> fw_conns s = BothOpen then s\<lparr>fw_conns := ChannelClosed\<rparr> else s)"
| "fwd_step env ClosePlain s = (if fw_conns s = ChannelClosed then s\<lparr>fw_conns := BothClosed\<rparr> else s)"

definition fwd_run :: "fwd_env \<Rightarrow> fwd_action list \<Rightarrow> fwd \<Rightarrow> fwd" where
  "fwd_run env acts s = foldl (\<lambda>s a. fwd_step env a s) s acts"

definition amount :: "loop \<Rightarrow> (loop \<times> nat) list \<Rightarrow> int" where
  "amount l cs = int (sum_list (map snd (filter (\<lambda>c. fst c = l) cs)))"

abbreviation counted :: "loop \<Rightarrow> fwd \<Rightarrow> int" where
  "counted l s \<equiv> amount l (fw_counts s)"

text \<open>
  One forwarded connection: its final state and what was added to the two \<^verbatim>\<open>int64\<close> counters of the tunnel,
  which start at \<open>in0\<close> and \<open>out0\<close>. The server counts its users' bytes as inbound and also passes each amount
  to \<^verbatim>\<open>addClientTraffic\<close>; the client counts what comes from the server as inbound.
\<close>

record forwarded =
  fd_state :: fwd
  fd_BytesIn :: int
  fd_BytesOut :: int
  fd_traffic :: "(int \<times> int) list"

definition server_forwardWithAuth ::
    "Auth \<Rightarrow> Auth option \<Rightarrow> (nat \<Rightarrow> 64 word) \<Rightarrow> write_fault \<Rightarrow> (nat \<Rightarrow> 64 word) \<Rightarrow> write_fault \<Rightarrow> int \<Rightarrow> int \<Rightarrow>
     read_result list \<Rightarrow> stream \<Rightarrow> fwd_action list \<Rightarrow> forwarded" where
  "server_forwardWithAuth main_auth proxy_auth clk flt clk' flt' in0 out0 userReads clientConn acts =
     (let a = (case proxy_auth of None \<Rightarrow> main_auth | Some b \<Rightarrow> b);
          s = fwd_run \<lparr>fe_auth = a, fe_signClk = clk, fe_signFault = flt, fe_verifyClk = clk', fe_verifyFault = flt'\<rparr> acts
                (fwd_init userReads clientConn)
      in \<lparr>fd_state = s, fd_BytesIn = i64 (in0 + counted Signing s), fd_BytesOut = i64 (out0 + counted Verifying s),
          fd_traffic = map (\<lambda>(l, n). if l = Signing then (int n, 0) else (0, int n)) (fw_counts s)\<rparr>)"

definition client_forwardWithAuth ::
    "Auth \<Rightarrow> (nat \<Rightarrow> 64 word) \<Rightarrow> write_fault \<Rightarrow> (nat \<Rightarrow> 64 word) \<Rightarrow> write_fault \<Rightarrow> int \<Rightarrow> int \<Rightarrow>
     read_result list \<Rightarrow> stream \<Rightarrow> fwd_action list \<Rightarrow> forwarded" where
  "client_forwardWithAuth a clk flt clk' flt' in0 out0 localReads serverConn acts =
     (let s = fwd_run \<lparr>fe_auth = a, fe_signClk = clk, fe_signFault = flt, fe_verifyClk = clk', fe_verifyFault = flt'\<rparr> acts
                (fwd_init localReads serverConn)
      in \<lparr>fd_state = s, fd_BytesIn = i64 (in0 + counted Verifying s), fd_BytesOut = i64 (out0 + counted Signing s), fd_traffic = []\<rparr>)"

section \<open>Framings that detect a cut frame\<close>

locale frame_codec_cut = frame_codec +
  assumes rd_cut: "ok i m \<Longrightarrow> k < length (enc i m) \<Longrightarrow>
    \<exists>e'. rd i \<lparr>inb = take k (enc i m), tail_err = e\<rparr> = Inl e'"
begin

text \<open>A run of messages whose last frame was cut is received without that last message.\<close>

lemma drain_cut_run:
  assumes "\<forall>j < length ms. ok (i + j) (ms ! j)" and "ok (i + length ms) m"
    and "k < length (enc (i + length ms) m)" and "length ms < fuel"
  shows "\<exists>e'. drain fuel rd i \<lparr>inb = write_run enc i ms @ take k (enc (i + length ms) m), tail_err = e\<rparr> = (ms, Some e')"
  using assms
proof (induction ms arbitrary: fuel i)
  case Nil
  then obtain n where "fuel = Suc n" by (cases fuel) auto
  with Nil rd_cut [of i m k e] show ?case by auto
next
  case (Cons x ms)
  then obtain n where n: "fuel = Suc n" by (cases fuel) auto
  have "ok i x" using Cons.prems(1) by (metis add_0_right length_greater_0_conv list.discI nth_Cons_0)
  moreover have "\<forall>j < length ms. ok (Suc i + j) (ms ! j)"
    using Cons.prems(1) by (metis add_Suc_shift length_Cons not_less_eq nth_Cons_Suc)
  with Cons.IH [of "Suc i" n] Cons.prems n
  obtain e' where "drain n rd (Suc i) \<lparr>inb = write_run enc (Suc i) ms @ take k (enc (Suc i + length ms) m), tail_err = e\<rparr> = (ms, Some e')"
    by auto
  ultimately show ?case using n by (simp add: rd_enc)
qed

end

lemma ReadFramed_cut:
  assumes "length d \<le> MaxFrameData" and "k < length (SignFramed a t d)"
  shows "\<exists>e'. ReadFramed a now \<lparr>inb = take k (SignFramed a t d), tail_err = e\<rparr> = Inl e'"
proof (cases "ReadFramed a now \<lparr>inb = take k (SignFramed a t d), tail_err = e\<rparr>")
  case (Inr p)
  then obtain d' s' where "ReadFramed a now \<lparr>inb = take k (SignFramed a t d), tail_err = e\<rparr> = Inr (d', s')"
    by (cases p) auto
  then obtain t' where e: "take k (SignFramed a t d) = SignFramed a t' d' @ inb s'" "length d' \<le> MaxFrameData"
    by (auto simp: ReadFramed_Inr_iff)
  have len: "44 + length d' \<le> k" using arg_cong [OF e(1), of length] assms(2) by simp
  have "take 4 (take k (SignFramed a t d)) = take 4 (SignFramed a t d)" using len by (simp add: min_def)
  then have "PutUint32 (word_of_nat (length d')) = PutUint32 (word_of_nat (length d))"
    unfolding e(1) by (simp add: SignFramed_alt)
  then have "(word_of_nat (length d') :: 32 word) = word_of_nat (length d)" by (metis Uint32_PutUint32)
  then have "length d' = length d"
    using assms(1) e(2) by (simp add: word_unat_eq_iff unat_of_nat MaxFrameData_def)
  then show ?thesis using len assms(2) by simp
qed auto

interpretation framed_cut: frame_codec_cut "\<lambda>i. SignFramed a (ts i)" "\<lambda>i. ReadFramed a (clk i)"
    "\<lambda>i d. length d \<le> MaxFrameData \<and> inWindow (clk i) (ts i)" "\<lambda>e. e" for a ts clk
  by unfold_locales (auto intro: ReadFramed_cut)

section \<open>The loops as runs of frames\<close>

text \<open>The chunks that the signing loop reads: the non-empty ones up to the first read error.\<close>

fun chunks_read :: "read_result list \<Rightarrow> bytes list" where
  "chunks_read [] = []"
| "chunks_read ((buf, err) # rs) =
     (if buf \<noteq> [] then [buf] else []) @ (if err = None then chunks_read rs else [])"

abbreviation frames :: "Auth \<Rightarrow> (nat \<Rightarrow> 64 word) \<Rightarrow> nat \<Rightarrow> bytes list \<Rightarrow> bytes" where
  "frames a clk \<equiv> write_run (\<lambda>j. SignFramed a (clk j))"

definition total :: "bytes list \<Rightarrow> int" where
  "total cs = int (sum_list (map length cs))"

lemma total_simps [simp]: "total [] = 0" "total (c # cs) = int (length c) + total cs"
  by (simp_all add: total_def)

lemma total_concat: "total cs = int (length (concat cs))"
  by (simp add: total_def length_concat)

lemma amount_simps [simp]: "amount l [] = 0" "amount l (cs @ [c]) = amount l cs + (if fst c = l then int (snd c) else 0)"
  by (simp_all add: amount_def)

text \<open>The loop whose error ended the connection.\<close>

fun first_is :: "loop \<Rightarrow> (loop \<times> io_err) list \<Rightarrow> bool" where
  "first_is l [] = False"
| "first_is l (e # es) = (fst e = l)"

abbreviation ended_by :: "loop \<Rightarrow> fwd \<Rightarrow> bool" where
  "ended_by l s \<equiv> first_is l (fw_errChan s)"

lemma first_is_append [simp]: "first_is l (es @ [e]) \<longleftrightarrow> (if es = [] then fst e = l else first_is l es)"
  by (cases es) auto

section \<open>Invariants\<close>

text \<open>
  What the signing loop still has to write, and that everything written is a prefix of the frames of the chunks
  read. If its own error came first and no write failed, all of it was written.
\<close>

fun sign_pending :: "fwd_env \<Rightarrow> read_result list \<Rightarrow> nat \<Rightarrow> sign_pc \<Rightarrow> bytes" where
  "sign_pending env rs i SRead = frames (fe_auth env) (fe_signClk env) i (chunks_read rs)"
| "sign_pending env rs i (SWrite frame err) =
     frame @ (if err = None then frames (fe_auth env) (fe_signClk env) (Suc i) (chunks_read rs) else [])"
| "sign_pending env rs i SDone = []"

fun sign_uncounted :: "read_result list \<Rightarrow> sign_pc \<Rightarrow> int" where
  "sign_uncounted rs SRead = total (chunks_read rs)"
| "sign_uncounted rs (SWrite frame err) = (if err = None then total (chunks_read rs) else 0)"
| "sign_uncounted rs SDone = 0"

definition sign_inv :: "fwd_env \<Rightarrow> bytes list \<Rightarrow> fwd \<Rightarrow> bool" where
  "sign_inv env cs s \<longleftrightarrow>
     (\<exists>rest. frames (fe_auth env) (fe_signClk env) 0 cs = fw_channel s @ sign_pending env (fw_reads s) (fw_si s) (fw_sign s) @ rest \<and>
        (fw_sign s \<noteq> SDone \<longrightarrow> rest = [] \<and> counted Signing s + sign_uncounted (fw_reads s) (fw_sign s) = total cs) \<and>
        (ended_by Signing s \<longrightarrow> fw_sign s = SDone \<and>
           ((\<forall>i. fe_signFault env i = None) \<longrightarrow> rest = [] \<and> counted Signing s = total cs)))"

definition open_inv :: "fwd \<Rightarrow> bool" where
  "open_inv s \<longleftrightarrow> (fw_errChan s = [] \<longrightarrow> fw_conns s = BothOpen)"

lemma frame_open: "open_inv (fwd_init rs str)" "open_inv s \<Longrightarrow> open_inv (fwd_step env a s)"
  by (simp add: open_inv_def fwd_init_def, cases a)
    (auto simp: open_inv_def sign_step_def sign_end_def verify_step_def verify_end_def Let_def
      split: sign_pc.splits verify_pc.splits list.splits prod.splits option.splits sum.splits if_splits)

text \<open>A loop does not touch what belongs to the other one.\<close>

lemma verify_step_frame:
  "fw_reads (verify_step env s) = fw_reads s" "fw_si (verify_step env s) = fw_si s" "fw_sign (verify_step env s) = fw_sign s"
  "fw_channel (verify_step env s) = fw_channel s" "counted Signing (verify_step env s) = counted Signing s"
  "ended_by Signing (verify_step env s) = ended_by Signing s"
  by (auto simp: verify_step_def verify_end_def split: verify_pc.split sum.split option.split list.split)

lemma sign_step_frame:
  "fw_stream (sign_step env s) = fw_stream s" "fw_vi (sign_step env s) = fw_vi s" "fw_verify (sign_step env s) = fw_verify s"
  "fw_plain (sign_step env s) = fw_plain s" "counted Verifying (sign_step env s) = counted Verifying s"
  "ended_by Verifying (sign_step env s) = ended_by Verifying s"
  by (auto simp: sign_step_def sign_end_def Let_def split: sign_pc.split option.split list.split)

lemma sign_inv_init: "sign_inv env (chunks_read rs) (fwd_init rs str)"
  by (simp add: sign_inv_def fwd_init_def)

lemma sign_inv_step:
  assumes inv: "sign_inv env cs s" and o: "open_inv s" shows "sign_inv env cs (sign_step env s)"
proof -
  let ?F = "frames (fe_auth env) (fe_signClk env)"
  obtain rest where r: "?F 0 cs = fw_channel s @ sign_pending env (fw_reads s) (fw_si s) (fw_sign s) @ rest"
      "fw_sign s \<noteq> SDone \<longrightarrow> rest = [] \<and> counted Signing s + sign_uncounted (fw_reads s) (fw_sign s) = total cs"
      "ended_by Signing s \<longrightarrow> fw_sign s = SDone" "fw_errChan s = [] \<longrightarrow> fw_conns s = BothOpen"
    using inv o by (auto simp: sign_inv_def open_inv_def)
  show ?thesis
  proof (cases "fw_sign s")
    case SRead
    show ?thesis
    proof (cases "fw_conns s = BothClosed")
      case True
      then show ?thesis using r SRead by (auto simp: sign_step_def sign_end_def sign_inv_def)
    next
      case False
      show ?thesis
      proof (cases "fw_reads s")
        case Nil
        then show ?thesis using inv SRead False by (simp add: sign_step_def)
      next
        case (Cons rd rs)
        obtain buf err where rd: "rd = (buf, err)" by fastforce
        show ?thesis using r SRead False Cons
          by (cases err) (auto simp: rd sign_step_def sign_end_def sign_inv_def)
      qed
    qed
  next
    case (SWrite frame err)
    show ?thesis
    proof (cases "write_fails (fw_conns s \<noteq> BothOpen) (fe_signFault env (fw_si s))")
      case None
      then show ?thesis using r SWrite
        by (cases err) (auto simp: sign_step_def sign_end_def sign_inv_def)
    next
      case (Some k)
      have "\<exists>rest. sign_pending env (fw_reads s) (fw_si s) (fw_sign s) = take k frame @ rest"
        by (metis SWrite append.assoc append_take_drop_id sign_pending.simps(2))
      then obtain rest' where rest': "?F 0 cs = fw_channel s @ take k frame @ rest'" using r(1,2) SWrite by auto
      have "fw_errChan s = [] \<Longrightarrow> fe_signFault env (fw_si s) \<noteq> None"
        using Some r(4) by (auto simp: write_fails_def split: if_splits)
      then have "ended_by Signing (sign_step env s) \<Longrightarrow> \<exists>i. fe_signFault env i \<noteq> None"
        using r(3) SWrite Some by (auto simp: sign_step_def sign_end_def split: if_splits)
      then show ?thesis using rest' SWrite Some
        by (auto simp: sign_step_def sign_end_def sign_inv_def intro!: exI [of _ rest'])
    qed
  next
    case SDone
    then show ?thesis using inv by (simp add: sign_step_def)
  qed
qed

lemma sign_inv_run:
  assumes "sign_inv env cs s" "open_inv s" shows "sign_inv env cs (fwd_run env acts s)"
proof -
  have step: "sign_inv env cs (fwd_step env a s)" if "sign_inv env cs s" "open_inv s" for a s
  proof (cases a)
    case SignStep
    then show ?thesis using sign_inv_step that by simp
  qed (use that in \<open>auto simp: sign_inv_def verify_step_frame\<close>)
  show ?thesis using assms by (induction acts arbitrary: s) (simp_all add: fwd_run_def step frame_open)
qed

text \<open>The same for the verifying loop and the run of messages \<open>ds\<close> that the stream holds.\<close>

fun verify_next :: "nat \<Rightarrow> verify_pc \<Rightarrow> nat" where
  "verify_next i (VWrite d) = Suc i"
| "verify_next i _ = i"

fun verify_pending :: "verify_pc \<Rightarrow> bytes" where
  "verify_pending (VWrite d) = d"
| "verify_pending _ = []"

definition verify_inv :: "fwd_env \<Rightarrow> bytes list \<Rightarrow> io_err option \<Rightarrow> fwd \<Rightarrow> bool" where
  "verify_inv env ds r s \<longleftrightarrow>
     (\<exists>rest. concat ds = fw_plain s @ rest) \<and>
     (fw_verify s \<noteq> VDone \<longrightarrow>
        (\<exists>fuel ds'. length (inb (fw_stream s)) < fuel \<and>
           drain fuel (\<lambda>i. ReadFramed (fe_auth env) (fe_verifyClk env i)) (verify_next (fw_vi s) (fw_verify s)) (fw_stream s) = (ds', r) \<and>
           concat ds = fw_plain s @ verify_pending (fw_verify s) @ concat ds' \<and> counted Verifying s + total ds' = total ds)) \<and>
     (ended_by Verifying s \<longrightarrow> fw_verify s = VDone \<and>
        ((\<forall>i. fe_verifyFault env i = None) \<longrightarrow> fw_plain s = concat ds \<and> counted Verifying s = total ds \<and> r = Some (snd (hd (fw_errChan s)))))"

lemma verify_inv_init:
  assumes "drain (Suc (length (inb str))) (\<lambda>i. ReadFramed (fe_auth env) (fe_verifyClk env i)) 0 str = (ds, r)"
  shows "verify_inv env ds r (fwd_init rs str)"
  unfolding verify_inv_def using assms
  by (auto simp: fwd_init_def intro!: exI [of _ "Suc (length (inb str))"] simp del: drain.simps)

lemma ReadFramed_shorter: "ReadFramed a now s = Inr (d, s') \<Longrightarrow> length (inb s') < length (inb s)"
  by (rule framed.rd_progress [of a "\<lambda>_. now" 0])

lemma verify_inv_step:
  assumes inv: "verify_inv env ds r s" and o: "open_inv s" shows "verify_inv env ds r (verify_step env s)"
proof (cases "fw_verify s")
  case VRead
  let ?rd = "\<lambda>i. ReadFramed (fe_auth env) (fe_verifyClk env i)"
  obtain fuel ds' where f: "length (inb (fw_stream s)) < fuel" "drain fuel ?rd (fw_vi s) (fw_stream s) = (ds', r)"
      "concat ds = fw_plain s @ concat ds'" "counted Verifying s + total ds' = total ds"
    using inv VRead by (auto simp: verify_inv_def)
  have ne: "\<not> ended_by Verifying s" using inv VRead by (auto simp: verify_inv_def)
  obtain n where n: "fuel = Suc n" using f(1) by (cases fuel) auto
  show ?thesis
  proof (cases "fw_conns s = BothOpen")
    case False
    then have "fw_errChan s \<noteq> []" using o by (auto simp: open_inv_def)
    then show ?thesis using False VRead f ne by (auto simp: verify_step_def verify_end_def verify_inv_def)
  next
    case True
    show ?thesis
    proof (cases "?rd (fw_vi s) (fw_stream s)")
      case (Inl e)
      then have "ds' = []" "r = Some e" using f(2) n by auto
      then show ?thesis using True VRead f ne Inl
        by (auto simp: verify_step_def verify_end_def verify_inv_def)
    next
      case (Inr p)
      obtain d str where p: "p = (d, str)" by fastforce
      obtain ds2 where d2: "drain n ?rd (Suc (fw_vi s)) str = (ds2, r)" "ds' = d # ds2"
        using f(2) n Inr p by (auto split: prod.splits)
      have "length (inb str) < n" using ReadFramed_shorter [of _ _ "fw_stream s" d str] Inr p f(1) n by fastforce
      then show ?thesis using True VRead f ne Inr p d2
        by (auto simp: verify_step_def verify_inv_def intro!: exI [of _ n] exI [of _ ds2])
    qed
  qed
next
  case (VWrite d)
  have ne: "\<not> ended_by Verifying s" using inv VWrite by (auto simp: verify_inv_def)
  show ?thesis
  proof (cases "write_fails (fw_conns s = BothClosed) (fe_verifyFault env (fw_vi s))")
    case None
    then show ?thesis using inv VWrite ne by (auto simp: verify_step_def verify_inv_def)
  next
    case (Some k)
    have "fw_errChan s = [] \<Longrightarrow> fe_verifyFault env (fw_vi s) \<noteq> None"
      using Some o by (auto simp: write_fails_def open_inv_def split: if_splits)
    moreover have "\<exists>rest. concat ds = (fw_plain s @ take k d) @ rest"
    proof -
      obtain ds' where "concat ds = fw_plain s @ d @ concat ds'" using inv VWrite by (auto simp: verify_inv_def)
      then have "concat ds = (fw_plain s @ take k d) @ (drop k d @ concat ds')" by simp
      then show ?thesis by blast
    qed
    ultimately show ?thesis using VWrite Some ne by (auto simp: verify_step_def verify_end_def verify_inv_def)
  qed
next
  case VDone
  then show ?thesis using inv by (simp add: verify_step_def)
qed

lemma verify_inv_run:
  assumes "verify_inv env ds r s" "open_inv s" shows "verify_inv env ds r (fwd_run env acts s)"
proof -
  have hd: "hd (fw_errChan (sign_step env s)) = hd (fw_errChan s)" if "ended_by Verifying s" for s
    using that by (cases "fw_errChan s") (auto simp: sign_step_def sign_end_def Let_def split: sign_pc.split option.split list.split)
  have step: "verify_inv env ds r (fwd_step env a s)" if v: "verify_inv env ds r s" "open_inv s" for a s
  proof (cases a)
    case SignStep
    then show ?thesis using v(1) hd [of s] unfolding verify_inv_def by (simp only: fwd_step.simps sign_step_frame) metis
  next
    case VerifyStep
    then show ?thesis using verify_inv_step v by simp
  qed (use v in \<open>auto simp: verify_inv_def\<close>)
  show ?thesis using assms by (induction acts arbitrary: s) (simp_all add: fwd_run_def step frame_open)
qed


section \<open>What crosses the channel\<close>

lemma length_frames: "length cs \<le> length (frames a clk i cs)"
proof (induction cs arbitrary: i)
  case (Cons c cs)
  then have "length cs \<le> length (frames a clk (Suc i) cs)" .
  then show ?case by simp
qed simp

lemma chunks_read_bound: "\<forall>(buf, err) \<in> set rs. length buf \<le> bufSize \<Longrightarrow> c \<in> set (chunks_read rs) \<Longrightarrow> length c \<le> bufSize"
  by (induction rs rule: chunks_read.induct) (auto split: if_splits)

lemma chunks_framed:
  assumes "\<forall>(buf, err) \<in> set rs. length buf \<le> bufSize" and "\<forall>j < length (chunks_read rs). inWindow (clk' j) (clk j)"
  shows "\<forall>j < length (chunks_read rs). length (chunks_read rs ! j) \<le> MaxFrameData \<and> inWindow (clk' (0 + j)) (clk (0 + j))"
  using assms chunks_read_bound [OF assms(1), OF nth_mem] by (fastforce simp: bufSize_def MaxFrameData_def)

text \<open>A prefix of a run of frames is a shorter run of frames, perhaps with the next one cut.\<close>

lemma frames_prefix:
  assumes "frames a clk i cs = w @ rest"
  shows "\<exists>n k. n \<le> length cs \<and> (w = frames a clk i (take n cs) \<or>
    n < length cs \<and> k < length (SignFramed a (clk (i + n)) (cs ! n)) \<and>
    w = frames a clk i (take n cs) @ take k (SignFramed a (clk (i + n)) (cs ! n)))" (is "\<exists>n k. ?P i cs w n k")
  using assms
proof (induction cs arbitrary: i w)
  case (Cons c cs)
  let ?f = "SignFramed a (clk i) c"
  show ?case
  proof (cases "length w < length ?f")
    case True
    have "take (length w) (?f @ frames a clk (Suc i) cs) = w" using Cons.prems by simp
    with True have "take (length w) ?f = w" by simp
    with True show ?thesis by (intro exI [of _ 0] exI [of _ "length w"]) simp
  next
    case False
    have "take (length ?f) (w @ rest) = ?f" unfolding Cons.prems [symmetric] by (simp del: length_SignFramed)
    with False have f: "take (length ?f) w = ?f" by simp
    define v where "v = drop (length ?f) w"
    have v: "w = ?f @ v" using f append_take_drop_id [of "length ?f" w] by (simp only: v_def)
    then have "frames a clk (Suc i) cs = v @ rest" using Cons.prems by simp
    note v = v this
    obtain n k where "?P (Suc i) cs v n k" using Cons.IH [OF v(2)] by blast
    with v(1) show ?thesis by (intro exI [of _ "Suc n"] exI [of _ k]) auto
  qed
qed simp

lemma drain_prefix:
  assumes "frames a clk 0 cs = w @ rest" and "\<forall>j < length cs. length (cs ! j) \<le> MaxFrameData \<and> inWindow (clk' (0 + j)) (clk (0 + j))"
  shows "\<exists>n. fst (drain (Suc (length w)) (\<lambda>i. ReadFramed a (clk' i)) 0 \<lparr>inb = w, tail_err = e\<rparr>) = take n cs"
proof -
  obtain n k where n: "n \<le> length cs" and w: "w = frames a clk 0 (take n cs) \<or>
      n < length cs \<and> k < length (SignFramed a (clk n) (cs ! n)) \<and> w = frames a clk 0 (take n cs) @ take k (SignFramed a (clk n) (cs ! n))"
    using frames_prefix [OF assms(1)] by auto
  have ok: "\<forall>j < length (take n cs). length (take n cs ! j) \<le> MaxFrameData \<and> inWindow (clk' (0 + j)) (clk (0 + j))"
    using assms(2) by simp
  have fuel: "length (take n cs) < Suc (length w)" using length_frames [of "take n cs" a clk 0] w by auto
  from w show ?thesis
  proof
    assume "w = frames a clk 0 (take n cs)"
    then show ?thesis using framed.drain_write_run [OF ok fuel, of a e] by (intro exI [of _ n]) simp
  next
    assume c: "n < length cs \<and> k < length (SignFramed a (clk n) (cs ! n)) \<and> w = frames a clk 0 (take n cs) @ take k (SignFramed a (clk n) (cs ! n))"
    then have "length (take n cs) = n" by simp
    with c assms(2) framed_cut.drain_cut_run [OF ok _ _ fuel, where m = "cs ! n" and k = k and a = a and e = e]
    show ?thesis by (intro exI [of _ n]) auto
  qed
qed

section \<open>Properties\<close>

text \<open>
  C4: End to end through a tunnel, under every interleaving of the goroutines of both sides: if the server's side of a
  connection ends because the user's connection ended, the client's side ends because the channel did (so the local
  service did not end first), no write fails while the connections are open and the clocks stay within the window, then
  the client has written to the local service exactly the bytes that the user sent, and both sides have counted
  them. (If the local service or a write ends the connection first, what was delivered is a prefix of them.)
\<close>
theorem tunnel_delivers_user_bytes:
  assumes "\<forall>(buf, err) \<in> set userReads. length buf \<le> bufSize"
    and "\<forall>j < length (chunks_read userReads). inWindow (clk' j) (clk j)"
    and "srv = server_forwardWithAuth m (Some a) clk (\<lambda>_. None) clk2 flt2 in0 out0 userReads clientConn acts"
    and "fw_errChan (fd_state srv) = (Signing, e1) # es1"
    and "cli = client_forwardWithAuth a clk3 flt3 clk' (\<lambda>_. None) in1 out1 localReads
           \<lparr>inb = fw_channel (fd_state srv), tail_err = e\<rparr> acts'"
    and "fw_errChan (fd_state cli) = (Verifying, e2) # es2"
  shows "fw_plain (fd_state cli) = concat (chunks_read userReads) \<and> e2 = e \<and>
    fd_BytesIn srv = i64 (in0 + int (length (concat (chunks_read userReads)))) \<and>
    fd_BytesIn cli = i64 (in1 + int (length (concat (chunks_read userReads))))"
proof -
  let ?cs = "chunks_read userReads"
  let ?es = "\<lparr>fe_auth = a, fe_signClk = clk, fe_signFault = (\<lambda>_. None), fe_verifyClk = clk2, fe_verifyFault = flt2\<rparr>"
  let ?ec = "\<lparr>fe_auth = a, fe_signClk = clk3, fe_signFault = flt3, fe_verifyClk = clk', fe_verifyFault = (\<lambda>_. None)\<rparr>"
  let ?str = "\<lparr>inb = frames a clk 0 ?cs, tail_err = e\<rparr>"
  have s: "fd_state srv = fwd_run ?es acts (fwd_init userReads clientConn)" "fd_BytesIn srv = i64 (in0 + counted Signing (fd_state srv))"
    by (simp_all add: assms(3) server_forwardWithAuth_def Let_def)
  have "sign_inv ?es ?cs (fd_state srv)" unfolding s(1) by (rule sign_inv_run [OF sign_inv_init frame_open(1)])
  then have w: "fw_channel (fd_state srv) = frames a clk 0 ?cs" "counted Signing (fd_state srv) = total ?cs"
    using assms(4) by (auto simp: sign_inv_def)
  have c: "fd_state cli = fwd_run ?ec acts' (fwd_init localReads ?str)" "fd_BytesIn cli = i64 (in1 + counted Verifying (fd_state cli))"
    using assms(5) w(1) by (simp_all add: client_forwardWithAuth_def Let_def)
  have "drain (Suc (length (inb ?str))) (\<lambda>i. ReadFramed a (clk' i)) 0 ?str = (?cs, Some e)"
    using framed.drain_write_run [OF chunks_framed [OF assms(1,2)], of "Suc (length (inb ?str))" a e] length_frames [of ?cs a clk 0] by simp
  then have "verify_inv ?ec ?cs (Some e) (fd_state cli)"
    unfolding c(1) by (intro verify_inv_run verify_inv_init frame_open(1)) simp
  then have "fw_plain (fd_state cli) = concat ?cs" "counted Verifying (fd_state cli) = total ?cs" "e2 = e"
    using assms(6) by (auto simp: verify_inv_def)
  then show ?thesis using s(2) c(2) w(2) by (simp add: total_concat)
qed

theorem tunnel_delivers_user_bytes_witness:
  "\<exists>srv cli. srv = server_forwardWithAuth (NewAuth ''m'') (Some (NewAuth ''k'')) (\<lambda>_. 1000) (\<lambda>_. None) (\<lambda>_. 0) (\<lambda>_. None) 0 0
       [([1, 2], None), ([], None), ([3], Some EOF)] \<lparr>inb = [], tail_err = EOF\<rparr> [SignStep, SignStep, SignStep, SignStep, SignStep, CloseChannel, ClosePlain, VerifyStep] \<and>
     cli = client_forwardWithAuth (NewAuth ''k'') (\<lambda>_. 0) (\<lambda>_. None) (\<lambda>_. 1001) (\<lambda>_. None) 7 0 [([9], None)]
       \<lparr>inb = fw_channel (fd_state srv), tail_err = EOF\<rparr> [SignStep, SignStep, VerifyStep, VerifyStep, VerifyStep, VerifyStep, VerifyStep, CloseChannel, ClosePlain, SignStep] \<and>
     fw_plain (fd_state cli) = [1, 2, 3] \<and> fd_BytesIn cli = 10"
proof -
  let ?rs = "[([1 :: byte, 2], None), ([], None), ([3], Some EOF)]"
  define srv where "srv = server_forwardWithAuth (NewAuth ''m'') (Some (NewAuth ''k'')) (\<lambda>_. 1000) (\<lambda>_. None) (\<lambda>_. 0) (\<lambda>_. None) 0 0
     ?rs \<lparr>inb = [], tail_err = EOF\<rparr> [SignStep, SignStep, SignStep, SignStep, SignStep, CloseChannel, ClosePlain, VerifyStep]"
  define cli where "cli = client_forwardWithAuth (NewAuth ''k'') (\<lambda>_. 0) (\<lambda>_. None) (\<lambda>_. 1001) (\<lambda>_. None) 7 0 [([9], None)]
     \<lparr>inb = fw_channel (fd_state srv), tail_err = EOF\<rparr> [SignStep, SignStep, VerifyStep, VerifyStep, VerifyStep, VerifyStep, VerifyStep, CloseChannel, ClosePlain, SignStep]"
  have 1: "\<forall>(buf, err) \<in> set ?rs. length buf \<le> bufSize" by (simp add: bufSize_def)
  have win: "inWindow 1001 1000" by (simp add: inWindow_def MaxTimeOffset_def)
  then have 2: "\<forall>j < length (chunks_read ?rs). inWindow ((\<lambda>_. 1001) j) ((\<lambda>_. 1000) j)" by simp
  have 3: "fw_errChan (fd_state srv) = [(Signing, EOF), (Verifying, NetErr)]"
    by (simp add: srv_def server_forwardWithAuth_def Let_def fwd_run_def fwd_init_def sign_step_def verify_step_def
        sign_end_def verify_end_def write_fails_def)
  have w: "fw_channel (fd_state srv) = SignFramed (NewAuth ''k'') 1000 [1, 2] @ SignFramed (NewAuth ''k'') 1000 [3]"
    by (simp add: srv_def server_forwardWithAuth_def Let_def fwd_run_def fwd_init_def sign_step_def verify_step_def
        sign_end_def verify_end_def write_fails_def)
  have rd: "ReadFramed (NewAuth ''k'') 1001 \<lparr>inb = SignFramed (NewAuth ''k'') 1000 d @ rest, tail_err = EOF\<rparr> = Inr (d, \<lparr>inb = rest, tail_err = EOF\<rparr>)"
    if "length d \<le> MaxFrameData" for d rest
    using framed.rd_enc [where ts = "\<lambda>_. 1000" and clk = "\<lambda>_. 1001" and i = 0 and m = d] that win by simp
  have 4: "fw_errChan (fd_state cli) = [(Verifying, EOF), (Signing, NetErr)]"
    using rd [of "[3]" "[]"] framed.rd_end [where clk = "\<lambda>_. 1001" and i = 0 and a = "NewAuth ''k''" and e = EOF]
    by (simp add: cli_def w rd client_forwardWithAuth_def Let_def fwd_run_def fwd_init_def sign_step_def verify_step_def
        sign_end_def verify_end_def write_fails_def MaxFrameData_def)
  show ?thesis using tunnel_delivers_user_bytes [OF 1 2 srv_def 3 cli_def 4] srv_def cli_def by (intro exI) (auto simp: i64_id)
qed

text \<open>
  C26: Whatever goes wrong on the way (either side closing first, a write of the server failing after any number of
  bytes, so that a frame is cut anywhere, a write of the client failing, the channel losing what was written last), and
  however the goroutines are interleaved, the bytes that the client passes to the local service are a prefix of the
  bytes that the user sent: nothing is reordered, duplicated or invented.
\<close>
theorem tunnel_faults_only_truncate:
  assumes "\<forall>(buf, err) \<in> set userReads. length buf \<le> bufSize"
    and "\<forall>j < length (chunks_read userReads). inWindow (clk' j) (clk j)"
    and "srv = server_forwardWithAuth m (Some a) clk flt clk2 flt2 in0 out0 userReads clientConn acts"
    and "cli = client_forwardWithAuth a clk3 flt3 clk' flt' in1 out1 localReads
           \<lparr>inb = take got (fw_channel (fd_state srv)), tail_err = e\<rparr> acts'"
  shows "\<exists>rest. concat (chunks_read userReads) = fw_plain (fd_state cli) @ rest"
proof -
  let ?cs = "chunks_read userReads" and ?w = "take got (fw_channel (fd_state srv))"
  let ?es = "\<lparr>fe_auth = a, fe_signClk = clk, fe_signFault = flt, fe_verifyClk = clk2, fe_verifyFault = flt2\<rparr>"
  let ?ec = "\<lparr>fe_auth = a, fe_signClk = clk3, fe_signFault = flt3, fe_verifyClk = clk', fe_verifyFault = flt'\<rparr>"
  let ?str = "\<lparr>inb = ?w, tail_err = e\<rparr>"
  have "sign_inv ?es ?cs (fd_state srv)"
    unfolding assms(3) server_forwardWithAuth_def Let_def option.case forwarded.select_convs by (rule sign_inv_run [OF sign_inv_init frame_open(1)])
  then obtain rest where "frames a clk 0 ?cs = fw_channel (fd_state srv) @ rest" by (auto simp: sign_inv_def)
  then have "frames a clk 0 ?cs = ?w @ (drop got (fw_channel (fd_state srv)) @ rest)" by simp
  then obtain n where n: "fst (drain (Suc (length ?w)) (\<lambda>i. ReadFramed a (clk' i)) 0 ?str) = take n ?cs"
    using drain_prefix chunks_framed [OF assms(1,2)] by blast
  then obtain r where "drain (Suc (length (inb ?str))) (\<lambda>i. ReadFramed a (clk' i)) 0 ?str = (take n ?cs, r)"
    by (metis prod.collapse stream.select_convs(1))
  then have "verify_inv ?ec (take n ?cs) r (fd_state cli)"
    unfolding assms(4) client_forwardWithAuth_def Let_def forwarded.select_convs by (intro verify_inv_run verify_inv_init frame_open(1)) simp
  then obtain rest where "concat (take n ?cs) = fw_plain (fd_state cli) @ rest" by (auto simp: verify_inv_def)
  then have "concat ?cs = fw_plain (fd_state cli) @ (rest @ concat (drop n ?cs))"
    by (metis append_assoc append_take_drop_id concat_append)
  then show ?thesis by blast
qed

theorem tunnel_faults_only_truncate_witness:
  "\<exists>rest. [1, 2, 3] = fw_plain (fd_state (client_forwardWithAuth (NewAuth ''k'') (\<lambda>_. 0) (\<lambda>_. None) (\<lambda>_. 1001) (\<lambda>_. None) 0 0 [([], Some EOF)]
     \<lparr>inb = take 90 (fw_channel (fd_state (server_forwardWithAuth (NewAuth ''m'') (Some (NewAuth ''k'')) (\<lambda>_. 1000) ((\<lambda>_. None)(1 := Some 20))
        (\<lambda>_. 0) (\<lambda>_. None) 0 0 [([1, 2], None), ([3], Some EOF)] \<lparr>inb = [], tail_err = EOF\<rparr> [SignStep, SignStep, SignStep, SignStep]))), tail_err = EOF\<rparr>
     [VerifyStep, SignStep, CloseChannel, VerifyStep, VerifyStep])) @ rest"
proof -
  have 1: "\<forall>(buf, err) \<in> set [([1 :: byte, 2], None), ([3], Some EOF)]. length buf \<le> bufSize"
    by (simp add: bufSize_def)
  have 2: "\<forall>j < length (chunks_read [([1, 2], None), ([3], Some EOF)]). inWindow ((\<lambda>_. 1001) j) ((\<lambda>_. 1000) j)"
    by (simp add: inWindow_def MaxTimeOffset_def)
  have 3: "concat (chunks_read [([1, 2], None), ([3 :: byte], Some EOF)]) = [1, 2, 3]" by simp
  show ?thesis unfolding 3 [symmetric] by (rule tunnel_faults_only_truncate [OF 1 2 refl refl])
qed

end
