(* ===== verification/UdpRelay.thy ===== *)
theory UdpRelay
  imports Auth Protocol ConnGuard
begin

text \<open>
  Model of the UDP relay of a tunnel in \<^verbatim>\<open>cmd/server/main.go\<close>: \<^verbatim>\<open>handleUDPConnections\<close>,
  \<^verbatim>\<open>sendUDPToClient\<close>, \<^verbatim>\<open>handleUDPDataChannel\<close>, \<^verbatim>\<open>getOrCreateSession\<close> and
  \<^verbatim>\<open>cleanupUDPSessions\<close>. The state is the UDP part of the server's \<^verbatim>\<open>Proxy\<close> struct; a UDP address
  is given by the text of its \<^verbatim>\<open>String()\<close>, which is also the key of \<^verbatim>\<open>addrIndex\<close>. Each loop body is
  one function from the received datagram to the datagrams written and the new state, composed of its regions
  under \<^verbatim>\<open>sessionMu\<close>. The two loops and the ticker are goroutines of their own: the step relation \<open>udp_step\<close>
  interleaves them at every one of these regions and at every write. The clocks are \<open>now\<close> (nanoseconds, for idle sessions)
  and \<open>unix\<close> (seconds, for signatures).
\<close>

record UDPSession =
  ses_userAddr :: string
  ses_lastActive :: int

record UdpProxy =
  up_Auth :: Auth
  clientDataAddr :: "string option"
  sessions :: "(string, UDPSession) gomap"
  addrIndex :: "(string, string) gomap"
  sessionSeq :: "64 word"
  pendingOut :: "UDPEnvelope list"

datatype datagram = ToClient string bytes | ToUser string bytes

definition new_udp_proxy :: "Auth \<Rightarrow> UdpProxy" where
  "new_udp_proxy a =
     \<lparr>up_Auth = a, clientDataAddr = None, sessions = [], addrIndex = [], sessionSeq = 0, pendingOut = []\<rparr>"

text \<open>\<^verbatim>\<open>fmt.Sprintf("%016x", n)\<close>.\<close>

definition sid_of :: "64 word \<Rightarrow> string" where
  "sid_of n = hex_EncodeToString (PutUint64 n)"

definition getOrCreateSession :: "UdpProxy \<Rightarrow> int \<Rightarrow> string \<Rightarrow> (string \<times> bool) \<times> UdpProxy" where
  "getOrCreateSession p now userAddr =
     (case map_of (addrIndex p) userAddr of
        Some sid \<Rightarrow>
          ((sid, False),
           case map_of (sessions p) sid of
             Some sess \<Rightarrow> p\<lparr>sessions := gput sid (sess\<lparr>ses_lastActive := now\<rparr>) (sessions p)\<rparr>
           | None \<Rightarrow> p)
      | None \<Rightarrow>
          let n = sessionSeq p + 1; sid = sid_of n in
          ((sid, True),
           p\<lparr>sessionSeq := n,
             sessions := gput sid \<lparr>ses_userAddr = userAddr, ses_lastActive = now\<rparr> (sessions p),
             addrIndex := gput userAddr sid (addrIndex p)\<rparr>))"

text \<open>
  \<^verbatim>\<open>sendUDPToClient\<close> reads the client's address under the read lock and, when there is none, takes the lock again to
  queue the envelope: the datagram to write, and whether the envelope is to be queued.
\<close>

definition send_lookup :: "UdpProxy \<Rightarrow> 64 word \<Rightarrow> UDPEnvelope \<Rightarrow> datagram list \<times> bool" where
  "send_lookup p unix env =
     (let packet = Sign (up_Auth p) unix (MarshalEnvelope env) in
      if length packet > 65507 then ([], False)
      else case clientDataAddr p of None \<Rightarrow> ([], True) | Some addr \<Rightarrow> ([ToClient addr packet], False))"

definition send_queue :: "UdpProxy \<Rightarrow> UDPEnvelope \<Rightarrow> UdpProxy" where
  "send_queue p env = (if length (pendingOut p) < 1024 then p\<lparr>pendingOut := pendingOut p @ [env]\<rparr> else p)"

definition sendUDPToClient :: "UdpProxy \<Rightarrow> 64 word \<Rightarrow> UDPEnvelope \<Rightarrow> datagram list \<times> UdpProxy" where
  "sendUDPToClient p unix env = (case send_lookup p unix env of (out, q) \<Rightarrow> (out, if q then send_queue p env else p))"

definition hello_env :: "string \<Rightarrow> UDPEnvelope" where
  "hello_env sid = \<lparr>env_Kind = 0x01, env_SessionID = sid, env_Data = []\<rparr>"

definition data_env :: "string \<Rightarrow> bytes \<Rightarrow> UDPEnvelope" where
  "data_env sid payload = \<lparr>env_Kind = 0x02, env_SessionID = sid, env_Data = payload\<rparr>"

text \<open>The body of the loop of \<^verbatim>\<open>handleUDPConnections\<close>: a datagram \<open>payload\<close> of a public user.\<close>

definition handleUDPConnections :: "UdpProxy \<Rightarrow> int \<Rightarrow> 64 word \<Rightarrow> string \<Rightarrow> bytes \<Rightarrow> datagram list \<times> UdpProxy" where
  "handleUDPConnections p now unix addr payload =
     (if payload = [] then ([], p)
      else
        case getOrCreateSession p now addr of ((sid, isNew), p1) \<Rightarrow>
        case (if isNew then sendUDPToClient p1 unix (hello_env sid)
              else ([], p1)) of (out1, p2) \<Rightarrow>
        case sendUDPToClient p2 unix (data_env sid payload) of (out2, p3) \<Rightarrow>
          (out1 @ out2, p3))"

text \<open>The first datagram on the data channel registers its sender and flushes the queue.\<close>

definition register_client :: "UdpProxy \<Rightarrow> 64 word \<Rightarrow> string \<Rightarrow> datagram list \<times> UdpProxy" where
  "register_client p unix addr =
     (if clientDataAddr p = None then
        (map (\<lambda>env. ToClient addr (Sign (up_Auth p) unix (MarshalEnvelope env))) (pendingOut p),
         p\<lparr>clientDataAddr := Some addr, pendingOut := []\<rparr>)
      else ([], p))"

text \<open>
  A reply: the session is looked up under the read lock, its datagram is written, and then the session is marked
  active under the lock, if it is still there. The third kind closes a session.
\<close>

definition deliver_lookup :: "UdpProxy \<Rightarrow> UDPEnvelope \<Rightarrow> datagram list \<times> bool" where
  "deliver_lookup p env =
     (case map_of (sessions p) (env_SessionID env) of
        None \<Rightarrow> ([], False)
      | Some sess \<Rightarrow> if env_Data env = [] then ([], False) else ([ToUser (ses_userAddr sess) (env_Data env)], True))"

definition touch_session :: "UdpProxy \<Rightarrow> int \<Rightarrow> string \<Rightarrow> UdpProxy" where
  "touch_session p now sid =
     (case map_of (sessions p) sid of
        None \<Rightarrow> p
      | Some sess \<Rightarrow> p\<lparr>sessions := gput sid (sess\<lparr>ses_lastActive := now\<rparr>) (sessions p)\<rparr>)"

definition close_session :: "UdpProxy \<Rightarrow> string \<Rightarrow> UdpProxy" where
  "close_session p sid =
     (case map_of (sessions p) sid of
        None \<Rightarrow> p
      | Some sess \<Rightarrow> p\<lparr>sessions := gdel sid (sessions p), addrIndex := gdel (ses_userAddr sess) (addrIndex p)\<rparr>)"

definition deliver_envelope :: "UdpProxy \<Rightarrow> int \<Rightarrow> UDPEnvelope \<Rightarrow> datagram list \<times> UdpProxy" where
  "deliver_envelope p now env =
     (if env_Kind env = 0x02 then
        (case deliver_lookup p env of (out, t) \<Rightarrow> (out, if t then touch_session p now (env_SessionID env) else p))
      else if env_Kind env = 0x03 then ([], close_session p (env_SessionID env))
      else ([], p))"

text \<open>The body of the loop of \<^verbatim>\<open>handleUDPDataChannel\<close>: a datagram \<open>pkt\<close> from \<open>addr\<close> on the data port.\<close>

definition handleUDPDataChannel :: "UdpProxy \<Rightarrow> int \<Rightarrow> 64 word \<Rightarrow> string \<Rightarrow> bytes \<Rightarrow> datagram list \<times> UdpProxy" where
  "handleUDPDataChannel p now unix addr pkt =
     (case register_client p unix addr of (out1, p1) \<Rightarrow>
        case Verify (up_Auth p1) unix pkt of
          None \<Rightarrow> (out1, p1)
        | Some data \<Rightarrow>
            (case UnmarshalEnvelope data of
               None \<Rightarrow> (out1, p1)
             | Some env \<Rightarrow> (case deliver_envelope p1 now env of (out2, p2) \<Rightarrow> (out1 @ out2, p2))))"

text \<open>One tick of \<^verbatim>\<open>cleanupUDPSessions\<close>: the \<^verbatim>\<open>range\<close> loop over the sessions.\<close>

primrec sweep_loop :: "int \<Rightarrow> (string \<times> UDPSession) list \<Rightarrow> UdpProxy \<Rightarrow> UdpProxy" where
  "sweep_loop now [] p = p"
| "sweep_loop now (e # es) p =
     sweep_loop now es
       (if now - ses_lastActive (snd e) > 5 * Minute
        then p\<lparr>sessions := gdel (fst e) (sessions p), addrIndex := gdel (ses_userAddr (snd e)) (addrIndex p)\<rparr>
        else p)"

definition cleanupUDPSessions :: "UdpProxy \<Rightarrow> int \<Rightarrow> UdpProxy" where
  "cleanupUDPSessions p now = sweep_loop now (sessions p) p"

section \<open>Runs\<close>

text \<open>
  Where the two goroutines stand. The users' loop has envelopes to send, and may be about to queue one for which it
  saw no client address. The data channel's loop flushes the queue it took, verifies the packet it got, handles
  its envelope, and marks a session active. A read gives at most the 65535 bytes of the buffer.
\<close>

datatype user_pc = USend "UDPEnvelope list" | UQueue UDPEnvelope "UDPEnvelope list"
datatype data_pc = DIdle | DFlush string "UDPEnvelope list" bytes | DEnvelope UDPEnvelope | DTouch string

record relay =
  rl_p :: UdpProxy
  rl_user :: user_pc
  rl_data :: data_pc

definition new_relay :: "Auth \<Rightarrow> relay" where
  "new_relay a = \<lparr>rl_p = new_udp_proxy a, rl_user = USend [], rl_data = DIdle\<rparr>"

definition user_receive :: "int \<Rightarrow> string \<Rightarrow> bytes \<Rightarrow> relay \<Rightarrow> relay" where
  "user_receive now addr payload r =
     (if payload = [] then r
      else case getOrCreateSession (rl_p r) now addr of ((sid, isNew), p1) \<Rightarrow>
        r\<lparr>rl_p := p1, rl_user := USend ((if isNew then [hello_env sid] else []) @ [data_env sid payload])\<rparr>)"

definition data_receive :: "string \<Rightarrow> bytes \<Rightarrow> relay \<Rightarrow> relay" where
  "data_receive addr pkt r =
     (if clientDataAddr (rl_p r) = None
      then r\<lparr>rl_p := (rl_p r)\<lparr>clientDataAddr := Some addr, pendingOut := []\<rparr>, rl_data := DFlush addr (pendingOut (rl_p r)) pkt\<rparr>
      else r\<lparr>rl_data := DFlush addr [] pkt\<rparr>)"

definition checked :: "UdpProxy \<Rightarrow> 64 word \<Rightarrow> bytes \<Rightarrow> data_pc" where
  "checked p unix pkt =
     (case Verify (up_Auth p) unix pkt of
        None \<Rightarrow> DIdle
      | Some data \<Rightarrow> (case UnmarshalEnvelope data of None \<Rightarrow> DIdle | Some env \<Rightarrow> DEnvelope env))"

text \<open>
  The relay's life, with the datagrams each step writes. A run has fewer than \<open>2 ^ 64\<close> sessions: a user's
  datagram is only taken while the session counter has not reached its maximum.
\<close>

inductive udp_step :: "relay \<Rightarrow> datagram list \<Rightarrow> relay \<Rightarrow> bool" where
  user: "rl_user r = USend [] \<Longrightarrow> sessionSeq (rl_p r) \<noteq> - 1 \<Longrightarrow> udp_step r [] (user_receive now addr payload r)"
| send: "rl_user r = USend (env # es) \<Longrightarrow> send_lookup (rl_p r) unix env = (out, q) \<Longrightarrow>
    udp_step r out (r\<lparr>rl_user := if q then UQueue env es else USend es\<rparr>)"
| queue: "rl_user r = UQueue env es \<Longrightarrow> udp_step r [] (r\<lparr>rl_p := send_queue (rl_p r) env, rl_user := USend es\<rparr>)"
| data: "rl_data r = DIdle \<Longrightarrow> length pkt \<le> 65535 \<Longrightarrow> udp_step r [] (data_receive addr pkt r)"
| flush: "rl_data r = DFlush addr (env # es) pkt \<Longrightarrow>
    udp_step r [ToClient addr (Sign (up_Auth (rl_p r)) unix (MarshalEnvelope env))] (r\<lparr>rl_data := DFlush addr es pkt\<rparr>)"
| verify: "rl_data r = DFlush addr [] pkt \<Longrightarrow> udp_step r [] (r\<lparr>rl_data := checked (rl_p r) unix pkt\<rparr>)"
| reply: "rl_data r = DEnvelope env \<Longrightarrow> env_Kind env = 0x02 \<Longrightarrow> deliver_lookup (rl_p r) env = (out, t) \<Longrightarrow>
    udp_step r out (r\<lparr>rl_data := if t then DTouch (env_SessionID env) else DIdle\<rparr>)"
| touch: "rl_data r = DTouch sid \<Longrightarrow> udp_step r [] (r\<lparr>rl_p := touch_session (rl_p r) now sid, rl_data := DIdle\<rparr>)"
| close: "rl_data r = DEnvelope env \<Longrightarrow> env_Kind env = 0x03 \<Longrightarrow>
    udp_step r [] (r\<lparr>rl_p := close_session (rl_p r) (env_SessionID env), rl_data := DIdle\<rparr>)"
| other: "rl_data r = DEnvelope env \<Longrightarrow> env_Kind env \<noteq> 0x02 \<Longrightarrow> env_Kind env \<noteq> 0x03 \<Longrightarrow> udp_step r [] (r\<lparr>rl_data := DIdle\<rparr>)"
| sweep: "udp_step r [] (r\<lparr>rl_p := cleanupUDPSessions (rl_p r) now\<rparr>)"

inductive udp_run :: "relay \<Rightarrow> datagram list \<Rightarrow> relay \<Rightarrow> bool" where
  stop: "udp_run r [] r"
| step: "udp_run r out r1 \<Longrightarrow> udp_step r1 out1 r2 \<Longrightarrow> udp_run r (out @ out1) r2"

inductive_cases udp_stepE: "udp_step r out r'"

lemma udp_run_one: "udp_step r out r' \<Longrightarrow> udp_run r out r'"
  using udp_run.step [OF udp_run.stop] by fastforce

lemma udp_run_trans: "udp_run r1 out2 r2 \<Longrightarrow> udp_run r out r1 \<Longrightarrow> udp_run r (out @ out2) r2"
  by (induction rule: udp_run.induct) (simp, metis append_assoc udp_run.step)

section \<open>Invariant\<close>

lemma sid_of_inject [simp]: "sid_of m = sid_of n \<longleftrightarrow> m = n"
proof
  assume "sid_of m = sid_of n"
  then have "PutUint64 m = PutUint64 n" unfolding sid_of_def by (rule hex_inject)
  then have "Uint64 (PutUint64 m) = Uint64 (PutUint64 n)" by simp
  then show "m = n" by simp
qed simp

lemma length_sid_of [simp]: "length (sid_of n) = 16"
  by (simp add: sid_of_def)

text \<open>
  The two indexes are inverse to each other, and the open sessions have ids that were already given
  out; the queue is bounded and every queued envelope fits a datagram.
\<close>

definition index_inv :: "UdpProxy \<Rightarrow> bool" where
  "index_inv p \<longleftrightarrow> gwf (sessions p) \<and>
     (\<forall>a sid. map_of (addrIndex p) a = Some sid \<longleftrightarrow>
        (\<exists>sess. map_of (sessions p) sid = Some sess \<and> ses_userAddr sess = a)) \<and>
     (\<forall>sid. map_of (sessions p) sid \<noteq> None \<longrightarrow> (\<exists>n \<le> sessionSeq p. sid = sid_of n))"

definition fits :: "UDPEnvelope \<Rightarrow> bool" where
  "fits e \<longleftrightarrow> 40 + length (MarshalEnvelope e) \<le> 65507"

definition queue_inv :: "UdpProxy \<Rightarrow> bool" where
  "queue_inv p \<longleftrightarrow> length (pendingOut p) \<le> 1024 \<and>
     (\<forall>e \<in> set (pendingOut p). fits e)"

lemma index_inv_new [simp]: "index_inv (new_udp_proxy a)" "queue_inv (new_udp_proxy a)"
  by (simp_all add: index_inv_def queue_inv_def new_udp_proxy_def)

lemma index_inv_cong:
  "sessions p' = sessions p \<Longrightarrow> addrIndex p' = addrIndex p \<Longrightarrow> sessionSeq p' = sessionSeq p \<Longrightarrow>
   index_inv p \<Longrightarrow> index_inv p'"
  by (simp add: index_inv_def)

lemma index_inv_touch:
  assumes "index_inv p" and "map_of (sessions p) sid = Some sess"
  shows "index_inv (p\<lparr>sessions := gput sid (sess\<lparr>ses_lastActive := t\<rparr>) (sessions p)\<rparr>)"
  using assms unfolding index_inv_def by (auto split: if_splits)

lemma index_inv_close:
  assumes "index_inv p" and "map_of (sessions p) sid = Some sess"
  shows "index_inv (p\<lparr>sessions := gdel sid (sessions p), addrIndex := gdel (ses_userAddr sess) (addrIndex p)\<rparr>)"
proof -
  have bij: "map_of (addrIndex p) a = Some i \<longleftrightarrow> (\<exists>s. map_of (sessions p) i = Some s \<and> ses_userAddr s = a)" for a i
    using assms(1) by (simp add: index_inv_def)
  have "map_of (addrIndex p) (ses_userAddr sess) = Some sid" using bij assms(2) by blast
  then have "map_of (gdel (ses_userAddr sess) (addrIndex p)) a = Some i \<longleftrightarrow>
      (\<exists>s. map_of (gdel sid (sessions p)) i = Some s \<and> ses_userAddr s = a)" for a i
    using bij [of a i] bij [of a sid] assms(2) by (auto split: if_splits)
  then show ?thesis using assms(1) by (simp add: index_inv_def)
qed

lemma word_succ_mono:
  assumes "(n :: 64 word) \<noteq> - 1" and "m \<le> n"
  shows "m \<le> n + 1" and "m \<noteq> n + 1"
proof -
  have "unat n \<noteq> unat (- 1 :: 64 word)" using assms(1) by (simp add: word_unat_eq_iff)
  moreover have "unat (- 1 :: 64 word) = 2 ^ 64 - 1"
    by (simp add: unsigned_minus_1_eq_mask mask_eq_exp_minus_1)
  ultimately have "unat n + 1 < 2 ^ 64" using unat_less [of n] by simp
  then have "n < n + 1" by (simp add: word_less_nat_alt unat_word_ariths)
  then show "m \<le> n + 1" "m \<noteq> n + 1" using assms(2) by auto
qed

lemma index_inv_getOrCreate:
  assumes "index_inv p" and "sessionSeq p \<noteq> - 1" and "getOrCreateSession p now a = ((sid, isNew), p')"
  shows "index_inv p'" and "map_of (addrIndex p') a = Some sid"
    and "\<exists>sess. map_of (sessions p') sid = Some sess \<and> ses_userAddr sess = a"
proof -
  have bij: "map_of (addrIndex p) b = Some i \<longleftrightarrow> (\<exists>s. map_of (sessions p) i = Some s \<and> ses_userAddr s = b)" for b i
    using assms(1) by (simp add: index_inv_def)
  have "index_inv p' \<and> map_of (addrIndex p') a = Some sid \<and>
    (\<exists>sess. map_of (sessions p') sid = Some sess \<and> ses_userAddr sess = a)"
  proof (cases "map_of (addrIndex p) a")
    case (Some i)
    then obtain s where s: "map_of (sessions p) i = Some s" "ses_userAddr s = a" using bij by blast
    with assms(3) Some have "p' = p\<lparr>sessions := gput i (s\<lparr>ses_lastActive := now\<rparr>) (sessions p)\<rparr>" "sid = i"
      by (auto simp: getOrCreateSession_def)
    then show ?thesis using index_inv_touch [OF assms(1) s(1)] s Some by simp
  next
    case None
    let ?n = "sessionSeq p + 1"
    have p': "p' = p\<lparr>sessionSeq := ?n,
        sessions := gput (sid_of ?n) \<lparr>ses_userAddr = a, ses_lastActive = now\<rparr> (sessions p),
        addrIndex := gput a (sid_of ?n) (addrIndex p)\<rparr>" and sid: "sid = sid_of ?n"
      using assms(3) None by (auto simp: getOrCreateSession_def Let_def)
    have old: "\<exists>n \<le> sessionSeq p. i = sid_of n" if "map_of (sessions p) i = Some s" for i s
      using assms(1) that unfolding index_inv_def by (metis option.distinct(1))
    have fresh: "map_of (sessions p) (sid_of ?n) = None"
      using old [of "sid_of ?n"] word_succ_mono(2) [OF assms(2)] by (cases "map_of (sessions p) (sid_of ?n)") auto
    have unused: "ses_userAddr s \<noteq> a" if "map_of (sessions p) i = Some s" for i s
      using bij [of a i] None that by auto
    have bij': "map_of (gput a (sid_of ?n) (addrIndex p)) b = Some i \<longleftrightarrow>
        (\<exists>s. map_of (gput (sid_of ?n) \<lparr>ses_userAddr = a, ses_lastActive = now\<rparr> (sessions p)) i = Some s \<and> ses_userAddr s = b)"
      for b i
      using bij [of b i] fresh unused [of i] by (cases "i = sid_of ?n") auto
    have ids: "\<exists>n \<le> ?n. i = sid_of n"
      if "map_of (gput (sid_of ?n) \<lparr>ses_userAddr = a, ses_lastActive = now\<rparr> (sessions p)) i \<noteq> None" for i
      using that old word_succ_mono(1) [OF assms(2)] by (cases "i = sid_of ?n") (auto, blast+)
    have "gwf (sessions p)" using assms(1) by (simp add: index_inv_def)
    with bij' ids have "index_inv p'" unfolding index_inv_def p' by auto
    then show ?thesis using p' sid by simp
  qed
  then show "index_inv p'" "map_of (addrIndex p') a = Some sid"
    "\<exists>sess. map_of (sessions p') sid = Some sess \<and> ses_userAddr sess = a" by blast+
qed

lemma send_simps [simp]:
  "sessions (send_queue p env) = sessions p" "addrIndex (send_queue p env) = addrIndex p" "sessionSeq (send_queue p env) = sessionSeq p"
  "up_Auth (send_queue p env) = up_Auth p" "clientDataAddr (send_queue p env) = clientDataAddr p"
  by (simp_all add: send_queue_def)

lemma touch_simps [simp]:
  "up_Auth (touch_session p now sid) = up_Auth p" "clientDataAddr (touch_session p now sid) = clientDataAddr p"
  "pendingOut (touch_session p now sid) = pendingOut p"
  "up_Auth (close_session p sid) = up_Auth p" "clientDataAddr (close_session p sid) = clientDataAddr p"
  "pendingOut (close_session p sid) = pendingOut p"
  by (simp_all add: touch_session_def close_session_def split: option.split)

lemma index_inv_send: "index_inv p \<Longrightarrow> index_inv (send_queue p env)"
  by (auto intro: index_inv_cong)

lemma index_inv_touch_session: "index_inv p \<Longrightarrow> index_inv (touch_session p now sid)"
  by (simp add: touch_session_def index_inv_touch split: option.split)

lemma index_inv_close_session: "index_inv p \<Longrightarrow> index_inv (close_session p sid)"
  by (simp add: close_session_def index_inv_close split: option.split)

text \<open>A sweep closes sessions of the table it started with, one after the other.\<close>

lemma sweep_loop_simps [simp]:
  "up_Auth (sweep_loop now es p) = up_Auth p" "clientDataAddr (sweep_loop now es p) = clientDataAddr p"
  "sessionSeq (sweep_loop now es p) = sessionSeq p" "pendingOut (sweep_loop now es p) = pendingOut p"
  by (induction es arbitrary: p) auto

lemma index_inv_sweep_loop:
  "index_inv p \<Longrightarrow> distinct (map fst es) \<Longrightarrow> (\<forall>(i, s) \<in> set es. map_of (sessions p) i = Some s) \<Longrightarrow>
   index_inv (sweep_loop now es p)"
proof (induction es arbitrary: p)
  case Nil
  then show ?case by simp
next
  case (Cons e es)
  obtain i s where e: "e = (i, s)" by fastforce
  let ?q = "if now - ses_lastActive s > 5 * Minute
    then p\<lparr>sessions := gdel i (sessions p), addrIndex := gdel (ses_userAddr s) (addrIndex p)\<rparr> else p"
  have "index_inv ?q" using Cons.prems e by (auto intro: index_inv_close)
  moreover have "\<forall>(j, t) \<in> set es. map_of (sessions ?q) j = Some t" using Cons.prems e by force
  ultimately have "index_inv (sweep_loop now es ?q)" using Cons.prems by (intro Cons.IH) auto
  then show ?case by (simp add: e split: if_splits)
qed

lemma index_inv_sweep: "index_inv p \<Longrightarrow> index_inv (cleanupUDPSessions p now)"
  unfolding cleanupUDPSessions_def
  by (rule index_inv_sweep_loop) (auto simp: index_inv_def gwf_def)

lemma getOrCreate_simps [simp]:
  "pendingOut (snd (getOrCreateSession p now a)) = pendingOut p" "up_Auth (snd (getOrCreateSession p now a)) = up_Auth p"
  "clientDataAddr (snd (getOrCreateSession p now a)) = clientDataAddr p"
  by (simp_all add: getOrCreateSession_def Let_def split: option.split)

lemma queue_inv_cong: "pendingOut p' = pendingOut p \<or> pendingOut p' = [] \<Longrightarrow> queue_inv p \<Longrightarrow> queue_inv p'"
  by (auto simp: queue_inv_def)

lemma queue_inv_send: "queue_inv p \<Longrightarrow> fits env \<Longrightarrow> queue_inv (send_queue p env)"
  by (auto simp: queue_inv_def send_queue_def)

text \<open>The invariant of the relay with its two goroutines.\<close>

fun user_pc_ok :: "user_pc \<Rightarrow> bool" where
  "user_pc_ok (UQueue env es) = fits env"
| "user_pc_ok _ = True"

fun data_pc_ok :: "data_pc \<Rightarrow> bool" where
  "data_pc_ok (DFlush addr es pkt) = ((\<forall>e \<in> set es. fits e) \<and> length pkt \<le> 65535)"
| "data_pc_ok (DEnvelope env) = (40 + length (MarshalEnvelope env) \<le> 65535)"
| "data_pc_ok _ = True"

definition relay_inv :: "relay \<Rightarrow> bool" where
  "relay_inv r \<longleftrightarrow> index_inv (rl_p r) \<and> queue_inv (rl_p r) \<and> user_pc_ok (rl_user r) \<and> data_pc_ok (rl_data r)"

lemma relay_inv_new [simp]: "relay_inv (new_relay a)"
  by (simp add: relay_inv_def new_relay_def)

lemma user_receive_p: "rl_p (user_receive now addr payload r) = (if payload = [] then rl_p r else snd (getOrCreateSession (rl_p r) now addr))"
  by (simp add: user_receive_def case_prod_unfold)

lemma checked_ok: "length pkt \<le> 65535 \<Longrightarrow> data_pc_ok (checked p unix pkt)"
  by (auto simp: checked_def Verify_Some_iff UnmarshalEnvelope_iff split: option.split)

lemma relay_inv_step:
  assumes "udp_step r out r'" and inv: "relay_inv r"
  shows "relay_inv r'"
  using assms(1)
proof cases
  case (user now addr payload)
  have "index_inv (snd (getOrCreateSession (rl_p r) now addr))"
    using index_inv_getOrCreate(1) [OF _ user(4)] inv by (metis relay_inv_def surj_pair snd_conv)
  then show ?thesis using user inv
    by (auto simp: relay_inv_def user_receive_p queue_inv_def) (simp_all add: user_receive_def case_prod_unfold)
next
  case (send env es unix q)
  then show ?thesis using inv
    by (auto simp: relay_inv_def send_lookup_def fits_def Let_def split: if_splits option.splits)
next
  case (queue env es)
  then show ?thesis using inv by (simp add: relay_inv_def index_inv_send queue_inv_send)
next
  case (data pkt addr)
  then show ?thesis using inv
    by (auto simp: relay_inv_def data_receive_def queue_inv_def intro: index_inv_cong)
next
  case (verify addr pkt unix)
  then show ?thesis using inv by (simp add: relay_inv_def checked_ok)
next
  case (touch sid now)
  then show ?thesis using inv by (simp add: relay_inv_def index_inv_touch_session queue_inv_def)
next
  case (close env)
  then show ?thesis using inv by (simp add: relay_inv_def index_inv_close_session queue_inv_def)
next
  case (sweep now)
  then show ?thesis using inv index_inv_sweep [of "rl_p r" now] by (simp add: relay_inv_def queue_inv_def cleanupUDPSessions_def)
qed (use inv in \<open>auto simp: relay_inv_def\<close>)

lemma relay_inv_run: "udp_run r out r' \<Longrightarrow> relay_inv r \<Longrightarrow> relay_inv r'"
  by (induction rule: udp_run.induct) (auto dest: relay_inv_step)

section \<open>What runs keep\<close>

lemma step_keeps:
  assumes "udp_step r out r'"
  shows "up_Auth (rl_p r') = up_Auth (rl_p r)"
    and "clientDataAddr (rl_p r) = Some c \<Longrightarrow> clientDataAddr (rl_p r') = Some c"
  using assms by (cases; simp add: user_receive_p data_receive_def cleanupUDPSessions_def)+

lemma run_keeps:
  "udp_run r out r' \<Longrightarrow> up_Auth (rl_p r') = up_Auth (rl_p r)"
  "udp_run r out r' \<Longrightarrow> clientDataAddr (rl_p r) = Some c \<Longrightarrow> clientDataAddr (rl_p r') = Some c"
  by (induction rule: udp_run.induct) (auto simp: step_keeps)

text \<open>A session id that was given out is never bound to another user.\<close>

definition binding_kept :: "UdpProxy \<Rightarrow> UdpProxy \<Rightarrow> bool" where
  "binding_kept p q \<longleftrightarrow> sessionSeq p \<le> sessionSeq q \<and>
     (\<forall>n s'. n \<le> sessionSeq p \<longrightarrow> map_of (sessions q) (sid_of n) = Some s' \<longrightarrow>
        (\<exists>s. map_of (sessions p) (sid_of n) = Some s \<and> ses_userAddr s = ses_userAddr s'))"

lemma binding_kept_refl: "binding_kept p p"
  by (auto simp: binding_kept_def)

lemma binding_kept_trans:
  assumes "binding_kept p q" and "binding_kept q r"
  shows "binding_kept p r"
proof -
  have "\<exists>s. map_of (sessions p) (sid_of n) = Some s \<and> ses_userAddr s = ses_userAddr s''"
    if n: "n \<le> sessionSeq p" and r: "map_of (sessions r) (sid_of n) = Some s''" for n s''
  proof -
    have "n \<le> sessionSeq q" using n assms(1) by (auto simp: binding_kept_def)
    with r assms(2) obtain s' where "map_of (sessions q) (sid_of n) = Some s'" "ses_userAddr s' = ses_userAddr s''"
      by (auto simp: binding_kept_def)
    with n assms(1) show ?thesis by (fastforce simp: binding_kept_def)
  qed
  then show ?thesis using assms by (auto simp: binding_kept_def)
qed

lemma binding_kept_same: "sessions q = sessions p \<Longrightarrow> sessionSeq q = sessionSeq p \<Longrightarrow> binding_kept p q"
  by (auto simp: binding_kept_def)

lemma binding_kept_getOrCreate:
  "sessionSeq p \<noteq> - 1 \<Longrightarrow> binding_kept p (snd (getOrCreateSession p now a))"
  using word_succ_mono [of "sessionSeq p"]
  by (auto simp: binding_kept_def getOrCreateSession_def Let_def split: option.split)

lemma binding_kept_sessions: "binding_kept p (touch_session p now sid)" "binding_kept p (close_session p sid)"
  by (auto simp: binding_kept_def touch_session_def close_session_def split: option.split)

lemma binding_kept_sweep_loop: "binding_kept p (sweep_loop now es p)"
proof (induction es arbitrary: p)
  case Nil
  then show ?case by (simp add: binding_kept_refl)
next
  case (Cons e es)
  let ?q = "p\<lparr>sessions := gdel (fst e) (sessions p), addrIndex := gdel (ses_userAddr (snd e)) (addrIndex p)\<rparr>"
  have "binding_kept p ?q" by (auto simp: binding_kept_def)
  from binding_kept_trans [OF this Cons] Cons [of p] show ?case by simp
qed

lemma binding_kept_step:
  assumes "udp_step r out r'" shows "binding_kept (rl_p r) (rl_p r')"
  using assms
proof cases
  case (user now addr payload)
  then show ?thesis using binding_kept_getOrCreate [OF user(4)] by (simp add: user_receive_p binding_kept_refl)
next
  case (queue env es)
  then show ?thesis by (simp add: binding_kept_same)
next
  case (data pkt addr)
  then show ?thesis by (intro binding_kept_same) (simp_all add: data_receive_def)
qed (simp_all add: binding_kept_refl binding_kept_sessions cleanupUDPSessions_def binding_kept_sweep_loop)

lemma binding_kept_run: "udp_run r out r' \<Longrightarrow> binding_kept (rl_p r) (rl_p r')"
  by (induction rule: udp_run.induct) (auto intro: binding_kept_refl binding_kept_trans binding_kept_step)

section \<open>Datagrams written\<close>

fun is_user :: "datagram \<Rightarrow> bool" where
  "is_user (ToUser _ _) = True"
| "is_user (ToClient _ _) = False"

fun dgram :: "datagram \<Rightarrow> bytes" where
  "dgram (ToUser _ d) = d"
| "dgram (ToClient _ d) = d"

lemma register_out_not_user: "filter is_user (fst (register_client p unix a)) = []"
  by (auto simp: register_client_def filter_empty_conv)

lemma register_simps [simp]:
  "sessions (snd (register_client p unix addr)) = sessions p" "up_Auth (snd (register_client p unix addr)) = up_Auth p"
  by (simp_all add: register_client_def)

lemma handleUDPDataChannel_users:
  "filter is_user (fst (handleUDPDataChannel p now unix a pkt)) =
     (case Verify (up_Auth p) unix pkt of None \<Rightarrow> []
      | Some data \<Rightarrow>
          (case UnmarshalEnvelope data of None \<Rightarrow> []
           | Some env \<Rightarrow> fst (deliver_envelope (snd (register_client p unix a)) now env)))"
  by (simp add: handleUDPDataChannel_def case_prod_unfold register_out_not_user split: option.split)
    (auto simp: deliver_envelope_def deliver_lookup_def split: option.splits)

lemma deliver_out:
  "fst (deliver_envelope p now env) =
     (if env_Kind env = 2 \<and> env_Data env \<noteq> [] then
        (case map_of (sessions p) (env_SessionID env) of None \<Rightarrow> [] | Some s \<Rightarrow> [ToUser (ses_userAddr s) (env_Data env)])
      else [])"
  by (simp add: deliver_envelope_def deliver_lookup_def split: option.split)

lemma deliver_user:
  "d \<in> set (fst (deliver_envelope p now env)) \<longleftrightarrow> env_Kind env = 2 \<and> env_Data env \<noteq> [] \<and>
     (\<exists>u. map_option ses_userAddr (map_of (sessions p) (env_SessionID env)) = Some u \<and> d = ToUser u (env_Data env))"
  unfolding deliver_out
  by (cases "map_of (sessions p) (env_SessionID env)"; cases "env_Kind env = 2"; cases "env_Data env") simp_all

lemma filter_single_in: "filter P xs = [x] \<Longrightarrow> x \<in> set xs"
  by (metis filter_is_subset list.set_intros(1) subsetD)

lemma step_out_size:
  assumes inv: "relay_inv r" and "udp_step r out r'" and "d \<in> set out"
  shows "length (dgram d) \<le> 65507"
  using assms(2)
proof cases
  case (send env es unix q)
  then show ?thesis using assms(3) by (auto simp: send_lookup_def Let_def split: if_splits option.splits)
next
  case (flush addr env es pkt unix)
  then show ?thesis using assms(3) inv by (simp add: relay_inv_def fits_def)
next
  case (reply env t)
  then obtain sess where s: "map_of (sessions (rl_p r)) (env_SessionID env) = Some sess" "dgram d = env_Data env"
    using assms(3) by (auto simp: deliver_lookup_def split: option.splits if_splits)
  then have "length (env_SessionID env) = 16"
    using inv unfolding relay_inv_def index_inv_def by (metis length_sid_of option.distinct(1))
  moreover have "40 + length (MarshalEnvelope env) \<le> 65535" using reply(2) inv by (simp add: relay_inv_def)
  ultimately show ?thesis using s(2) by simp
qed (use assms(3) in simp_all)

text \<open>The body of each loop is the run of its steps without interruption.\<close>

lemma send_run:
  assumes "rl_user r = USend (env # es)" "sendUDPToClient (rl_p r) unix env = (out, p')"
  shows "udp_run r out (r\<lparr>rl_p := p', rl_user := USend es\<rparr>)"
proof -
  obtain q where l: "send_lookup (rl_p r) unix env = (out, q)" "p' = (if q then send_queue (rl_p r) env else rl_p r)"
    using assms(2) by (auto simp: sendUDPToClient_def split: prod.splits)
  note one = udp_run_one [OF udp_step.send [OF assms(1) l(1)]]
  show ?thesis
  proof (cases q)
    case True
    have "udp_step (r\<lparr>rl_user := UQueue env es\<rparr>) [] (r\<lparr>rl_p := p', rl_user := USend es\<rparr>)"
      using udp_step.queue [of "r\<lparr>rl_user := UQueue env es\<rparr>" env es] True l(2) by simp
    then show ?thesis using udp_run.step [OF one] True by fastforce
  qed (use one l(2) in simp)
qed

lemma handleUDPConnections_run:
  assumes "rl_user r = USend []" "sessionSeq (rl_p r) \<noteq> - 1" "handleUDPConnections (rl_p r) now unix addr payload = (out, p')"
  shows "udp_run r out (r\<lparr>rl_p := p'\<rparr>)"
proof (cases "payload = []")
  case True
  then have "out = []" "r\<lparr>rl_p := p'\<rparr> = r" using assms(3) by (auto simp: handleUDPConnections_def)
  then show ?thesis using udp_run.stop [of r] by simp
next
  case False
  obtain sid isNew p1 where g: "getOrCreateSession (rl_p r) now addr = ((sid, isNew), p1)" by (metis prod.exhaust)
  obtain out1 p2 where h: "(if isNew then sendUDPToClient p1 unix (hello_env sid) else ([], p1)) = (out1, p2)" by fastforce
  obtain out2 where d: "sendUDPToClient p2 unix (data_env sid payload) = (out2, p')" and o: "out = out1 @ out2"
    using assms(3) False g h by (auto simp: handleUDPConnections_def split: prod.splits)
  let ?r1 = "user_receive now addr payload r" and ?r2 = "r\<lparr>rl_p := p2, rl_user := USend [data_env sid payload]\<rparr>"
  have r1: "?r1 = r\<lparr>rl_p := p1, rl_user := USend ((if isNew then [hello_env sid] else []) @ [data_env sid payload])\<rparr>"
    using False g by (simp add: user_receive_def)
  have "udp_run ?r1 out1 ?r2"
    using h send_run [of ?r1 "hello_env sid" "[data_env sid payload]" unix out1 p2] udp_run.stop [of ?r1] unfolding r1 by (cases isNew) simp_all
  moreover have "udp_run ?r2 out2 (r\<lparr>rl_p := p', rl_user := USend []\<rparr>)" using send_run [of ?r2 _ "[]" unix out2 p'] d by simp
  moreover have "udp_run r [] ?r1" by (rule udp_run_one [OF udp_step.user [OF assms(1,2)]])
  ultimately have "udp_run r ([] @ out1 @ out2) (r\<lparr>rl_p := p', rl_user := USend []\<rparr>)" by (metis udp_run_trans)
  moreover have "r\<lparr>rl_p := p', rl_user := USend []\<rparr> = r\<lparr>rl_p := p'\<rparr>" using assms(1) by simp
  ultimately show ?thesis using o by simp
qed

lemma flush_run:
  assumes "rl_data r = DFlush addr es pkt"
  shows "udp_run r (map (\<lambda>env. ToClient addr (Sign (up_Auth (rl_p r)) unix (MarshalEnvelope env))) es) (r\<lparr>rl_data := DFlush addr [] pkt\<rparr>)"
  using assms
proof (induction es arbitrary: r)
  case Nil
  then have "r\<lparr>rl_data := DFlush addr [] pkt\<rparr> = r" by simp
  then show ?case using udp_run.stop [of r] by (simp only: list.map)
next
  case (Cons env es)
  let ?r1 = "r\<lparr>rl_data := DFlush addr es pkt\<rparr>"
  have "udp_run r [ToClient addr (Sign (up_Auth (rl_p r)) unix (MarshalEnvelope env))] ?r1"
    by (rule udp_run_one [OF udp_step.flush [OF Cons.prems]])
  from udp_run_trans [OF Cons.IH [of ?r1] this] show ?case by simp
qed

lemma deliver_run:
  assumes "rl_data r = DEnvelope env" "deliver_envelope (rl_p r) now env = (out, p')"
  shows "udp_run r out (r\<lparr>rl_p := p', rl_data := DIdle\<rparr>)"
proof -
  consider (reply) "env_Kind env = 2" | (close) "env_Kind env = 3" | (other) "env_Kind env \<noteq> 2" "env_Kind env \<noteq> 3" by blast
  then show ?thesis
  proof cases
    case reply
    obtain t where l: "deliver_lookup (rl_p r) env = (out, t)" "p' = (if t then touch_session (rl_p r) now (env_SessionID env) else rl_p r)"
      using assms(2) reply by (auto simp: deliver_envelope_def split: prod.splits)
    note one = udp_run_one [OF udp_step.reply [OF assms(1) reply l(1)]]
    show ?thesis
    proof (cases t)
      case True
      have "udp_step (r\<lparr>rl_data := DTouch (env_SessionID env)\<rparr>) [] (r\<lparr>rl_p := p', rl_data := DIdle\<rparr>)"
        using udp_step.touch [of "r\<lparr>rl_data := DTouch (env_SessionID env)\<rparr>" "env_SessionID env" now] True l(2) by simp
      then show ?thesis using udp_run.step [OF one] True by fastforce
    qed (use one l(2) in simp)
  next
    case close
    then show ?thesis using udp_run_one [OF udp_step.close [OF assms(1)]] assms(2) by (simp add: deliver_envelope_def)
  next
    case other
    then show ?thesis using udp_run_one [OF udp_step.other [OF assms(1)]] assms(2) by (auto simp: deliver_envelope_def)
  qed
qed

lemma handleUDPDataChannel_run:
  assumes "rl_data r = DIdle" "length pkt \<le> 65535" "handleUDPDataChannel (rl_p r) now unix addr pkt = (out, p')"
  shows "udp_run r out (r\<lparr>rl_p := p'\<rparr>)"
proof -
  obtain out1 p1 where g: "register_client (rl_p r) unix addr = (out1, p1)" by fastforce
  let ?r0 = "data_receive addr pkt r" and ?r1 = "r\<lparr>rl_p := p1, rl_data := DFlush addr [] pkt\<rparr>"
  let ?r2 = "r\<lparr>rl_p := p1, rl_data := checked p1 unix pkt\<rparr>"
  have "udp_run ?r0 out1 ?r1"
    using g flush_run [of ?r0 addr _ pkt unix] by (auto simp: data_receive_def register_client_def split: if_splits)
  moreover have "udp_run r [] ?r0" by (rule udp_run_one [OF udp_step.data [OF assms(1,2)]])
  moreover have "udp_run ?r1 [] ?r2" using udp_run_one [OF udp_step.verify [of ?r1 addr pkt unix]] by simp
  ultimately have r2: "udp_run r out1 ?r2" by (metis udp_run_trans append_Nil append_Nil2)
  show ?thesis
  proof (cases "checked p1 unix pkt")
    case (DEnvelope env)
    obtain out2 where d: "deliver_envelope p1 now env = (out2, p')" "out = out1 @ out2"
      using assms(3) g DEnvelope by (auto simp: handleUDPDataChannel_def checked_def split: option.splits prod.splits)
    have "udp_run ?r2 out2 (r\<lparr>rl_p := p', rl_data := DIdle\<rparr>)" using deliver_run [of ?r2 env now out2 p'] DEnvelope d by simp
    moreover have "r\<lparr>rl_p := p', rl_data := DIdle\<rparr> = r\<lparr>rl_p := p'\<rparr>" using assms(1) by simp
    ultimately show ?thesis using udp_run_trans [OF _ r2] d(2) by simp
  next
    case DIdle
    then have "out = out1 \<and> p' = p1" "?r2 = r\<lparr>rl_p := p'\<rparr>"
      using assms(1,3) g by (auto simp: handleUDPDataChannel_def checked_def split: option.splits)
    then show ?thesis using r2 by simp
  qed (auto simp: checked_def split: option.splits)
qed

section \<open>Properties\<close>

text \<open>
  C14: Routing of UDP replies: after a public user's datagram was received under a session id, then
  whatever datagrams and clean-ups follow, interleaved in any way, as long as that session is open an authentic reply of
  the client under this session id is written to exactly that user, once and unchanged; the same holds at the moment at
  which a reply that was received earlier looks up its session.
\<close>
theorem udp_reply_reaches_its_user:
  assumes "udp_run (new_relay a) out0 r" and "sessionSeq (rl_p r) \<noteq> - 1" and "payload \<noteq> []"
    and "r1 = user_receive now user payload r"
    and "udp_run r1 out2 r2" and "map_of (sessions (rl_p r2)) sid \<noteq> None"
    and "sid = fst (fst (getOrCreateSession (rl_p r) now user))"
    and "inWindow unix2 t" and "reply \<noteq> []"
  shows "filter is_user (fst (handleUDPDataChannel (rl_p r2) now2 unix2 src (Sign a t (MarshalEnvelope (data_env sid reply))))) = [ToUser user reply] \<and>
    deliver_lookup (rl_p r2) (data_env sid reply) = ([ToUser user reply], True)"
proof -
  let ?q = "snd (getOrCreateSession (rl_p r) now user)"
  have ip: "index_inv (rl_p r)" using relay_inv_run [OF assms(1) relay_inv_new] by (simp add: relay_inv_def)
  obtain isNew where g: "getOrCreateSession (rl_p r) now user = ((sid, isNew), ?q)" using assms(7) by (metis surj_pair fst_conv snd_conv)
  obtain s where s: "map_of (sessions ?q) sid = Some s" "ses_userAddr s = user" and iq: "index_inv ?q"
    using index_inv_getOrCreate [OF ip assms(2) g] by blast
  from iq s(1) obtain n where n: "n \<le> sessionSeq ?q" "sid = sid_of n"
    unfolding index_inv_def by (metis option.distinct(1))
  have p1: "rl_p r1 = ?q" using assms(3,4) by (simp add: user_receive_p)
  obtain s2 where s2: "map_of (sessions (rl_p r2)) sid = Some s2" using assms(6) by auto
  have u: "ses_userAddr s2 = user"
    using binding_kept_run [OF assms(5)] s s2 n unfolding binding_kept_def p1 by (metis option.inject)
  have "up_Auth (rl_p r2) = a"
    using run_keeps(1) [OF assms(5)] run_keeps(1) [OF assms(1)] p1 by (simp add: new_relay_def new_udp_proxy_def)
  moreover have "length sid < 2 ^ 16" using n by simp
  then have "UnmarshalEnvelope (MarshalEnvelope (data_env sid reply)) = Some (data_env sid reply)" by (simp add: UnmarshalEnvelope_iff data_env_def)
  ultimately show ?thesis
    using assms(8,9) s2 u by (simp add: handleUDPDataChannel_users Verify_Sign deliver_out deliver_lookup_def data_env_def)
qed

theorem udp_reply_reaches_its_user_witness:
  "\<exists>r2 out2. udp_run (user_receive 0 ''9.9.9.9:53'' [7] (new_relay (NewAuth ''k''))) out2 r2 \<and>
     pendingOut (rl_p r2) = [hello_env (sid_of 1)] \<and>
     filter is_user (fst (handleUDPDataChannel (rl_p r2) 0 1001 ''8.8.8.8:1'' (Sign (NewAuth ''k'') 1001 (MarshalEnvelope (data_env (sid_of 1) [5])))))
       = [ToUser ''9.9.9.9:53'' [5]]"
proof -
  let ?r = "new_relay (NewAuth ''k'')"
  let ?r1 = "user_receive 0 ''9.9.9.9:53'' [7] ?r"
  have g: "sid_of 1 = fst (fst (getOrCreateSession (rl_p ?r) 0 ''9.9.9.9:53''))"
    by (simp add: getOrCreateSession_def new_relay_def new_udp_proxy_def Let_def)
  have q: "sessionSeq (rl_p ?r) \<noteq> - 1" by (simp add: new_relay_def new_udp_proxy_def)
  have u: "rl_user ?r1 = USend [hello_env (sid_of 1), data_env (sid_of 1) [7]]" "pendingOut (rl_p ?r1) = []" "clientDataAddr (rl_p ?r1) = None"
    "map_of (sessions (rl_p ?r1)) (sid_of 1) \<noteq> None"
    by (simp_all add: user_receive_def getOrCreateSession_def new_relay_def new_udp_proxy_def Let_def)
  obtain out2 p2 where s: "sendUDPToClient (rl_p ?r1) 1000 (hello_env (sid_of 1)) = (out2, p2)" by fastforce
  let ?r2 = "?r1\<lparr>rl_p := p2, rl_user := USend [data_env (sid_of 1) [7]]\<rparr>"
  have run: "udp_run ?r1 out2 ?r2" using send_run [OF u(1) s] .
  have p2: "pendingOut p2 = [hello_env (sid_of 1)]" "sessions p2 = sessions (rl_p ?r1)"
    using s u by (auto simp: sendUDPToClient_def send_lookup_def send_queue_def Let_def hello_env_def)
  have m: "map_of (sessions (rl_p ?r2)) (sid_of 1) \<noteq> None" using p2 u(4) by simp
  have w: "inWindow 1001 1001" by (simp add: inWindow_def MaxTimeOffset_def)
  have "filter is_user (fst (handleUDPDataChannel (rl_p ?r2) 0 1001 ''8.8.8.8:1'' (Sign (NewAuth ''k'') 1001 (MarshalEnvelope (data_env (sid_of 1) [5])))))
       = [ToUser ''9.9.9.9:53'' [5]]"
    using udp_reply_reaches_its_user [OF udp_run.stop q _ refl run m g w, of "[5]"] by simp
  then show ?thesis using run p2 by (intro exI [of _ ?r2] exI [of _ out2]) simp
qed

text \<open>
  A datagram is written to a public user only for an authentic packet: its bytes are exactly a
  packet signed with the tunnel's key, fresh, that carries this data under the id of an open session
  of that user. A forged or stale packet is never passed on.
\<close>
theorem udp_users_get_only_authentic:
  assumes "ToUser user d \<in> set (fst (handleUDPDataChannel p now unix src pkt))"
  shows "\<exists>t sid s. pkt = Sign (up_Auth p) t (MarshalEnvelope \<lparr>env_Kind = 0x02, env_SessionID = sid, env_Data = d\<rparr>) \<and>
    inWindow unix t \<and> map_of (sessions p) sid = Some s \<and> ses_userAddr s = user"
proof -
  have "ToUser user d \<in> set (filter is_user (fst (handleUDPDataChannel p now unix src pkt)))" using assms by simp
  then obtain data env where v: "Verify (up_Auth p) unix pkt = Some data" and u: "UnmarshalEnvelope data = Some env"
    and o: "ToUser user d \<in> set (fst (deliver_envelope (snd (register_client p unix src)) now env))"
    unfolding handleUDPDataChannel_users
    by (cases "Verify (up_Auth p) unix pkt"; simp; cases "UnmarshalEnvelope (the (Verify (up_Auth p) unix pkt))"; simp)
  from o obtain s where e: "env_Kind env = 2" "env_Data env = d" "map_of (sessions p) (env_SessionID env) = Some s"
    "ses_userAddr s = user"
    by (auto simp: deliver_user)
  from v obtain t where "pkt = Sign (up_Auth p) t data" "inWindow unix t" by (auto simp: Verify_Some_iff)
  moreover have "data = MarshalEnvelope \<lparr>env_Kind = 0x02, env_SessionID = env_SessionID env, env_Data = d\<rparr>"
    using u e by (cases env) (simp add: UnmarshalEnvelope_iff)
  ultimately show ?thesis using e by blast
qed

theorem udp_users_get_only_authentic_witness:
  "\<exists>t sid s. Sign (NewAuth ''k'') 1001 (MarshalEnvelope \<lparr>env_Kind = 0x02, env_SessionID = ''x'', env_Data = [5]\<rparr>) =
      Sign (NewAuth ''k'') t (MarshalEnvelope \<lparr>env_Kind = 0x02, env_SessionID = sid, env_Data = [5]\<rparr>) \<and>
    inWindow 1001 t \<and> map_of [(''x'', \<lparr>ses_userAddr = ''u'', ses_lastActive = 0\<rparr>)] sid = Some s \<and> ses_userAddr s = ''u''"
proof -
  let ?p = "(new_udp_proxy (NewAuth ''k''))\<lparr>sessions := [(''x'', \<lparr>ses_userAddr = ''u'', ses_lastActive = 0\<rparr>)]\<rparr>"
  let ?env = "\<lparr>env_Kind = 0x02, env_SessionID = ''x'', env_Data = [5]\<rparr>"
  let ?pkt = "Sign (NewAuth ''k'') 1001 (MarshalEnvelope ?env)"
  have "UnmarshalEnvelope (MarshalEnvelope ?env) = Some ?env" by (simp add: UnmarshalEnvelope_iff)
  moreover have "inWindow 1001 1001" by (simp add: inWindow_def MaxTimeOffset_def)
  ultimately have "filter is_user (fst (handleUDPDataChannel ?p 0 1001 ''c'' ?pkt)) = [ToUser ''u'' [5]]"
    by (simp add: handleUDPDataChannel_users Verify_Sign deliver_out new_udp_proxy_def)
  then have "ToUser ''u'' [5] \<in> set (fst (handleUDPDataChannel ?p 0 1001 ''c'' ?pkt))"
    by (rule filter_single_in)
  from udp_users_get_only_authentic [OF this] show ?thesis by (simp add: new_udp_proxy_def)
qed

text \<open>
  The sender of the very first datagram on the data port becomes the client for good, whether or
  not the datagram is authentic: the whole queue is taken to be sent to that sender before the packet is verified,
  and in every continuation all traffic for the client goes to that address.
\<close>
theorem udp_first_datagram_captures_channel:
  assumes "clientDataAddr (rl_p r) = None" and "r1 = data_receive src pkt r" and "udp_run r1 out2 r2"
  shows "rl_data r1 = DFlush src (pendingOut (rl_p r)) pkt \<and> clientDataAddr (rl_p r2) = Some src"
proof -
  have c: "rl_data r1 = DFlush src (pendingOut (rl_p r)) pkt" "clientDataAddr (rl_p r1) = Some src"
    using assms(1,2) by (auto simp: data_receive_def)
  with run_keeps(2) [OF assms(3) c(2)] show ?thesis by simp
qed

theorem udp_first_datagram_captures_channel_witness:
  "clientDataAddr (rl_p (data_receive ''6.6.6.6:666'' [] (new_relay (NewAuth ''k'')))) = Some ''6.6.6.6:666''"
  using udp_first_datagram_captures_channel [of "new_relay (NewAuth ''k'')", OF _ refl udp_run.stop]
  by (simp add: new_relay_def new_udp_proxy_def)

text \<open>
  The queue is emptied only when the client's address becomes known. \<^verbatim>\<open>sendUDPToClient\<close> looks at the address and queues
  under two separate locks, so an envelope can be queued just after that moment; it then stays in the queue in every
  continuation and is never sent.
\<close>
theorem udp_late_envelope_is_stranded:
  assumes "clientDataAddr (rl_p r) = None" and "rl_user r = UQueue env es" and "length (pendingOut (rl_p r)) < 1024" and "rl_data r = DIdle"
  shows "\<exists>r1 r2. udp_step r [] r1 \<and> udp_step r1 [] r2 \<and> env \<in> set (pendingOut (rl_p r2)) \<and> clientDataAddr (rl_p r2) = Some src \<and>
    (\<forall>out r3. udp_run r2 out r3 \<longrightarrow> env \<in> set (pendingOut (rl_p r3)))"
proof -
  let ?r1 = "data_receive src [] r"
  let ?r2 = "?r1\<lparr>rl_p := send_queue (rl_p ?r1) env, rl_user := USend es\<rparr>"
  have s: "udp_step r [] ?r1" using udp_step.data [OF assms(4)] by simp
  have u: "rl_user ?r1 = UQueue env es" using assms(1,2) by (simp add: data_receive_def)
  have m: "env \<in> set (pendingOut (rl_p ?r2))" "clientDataAddr (rl_p ?r2) = Some src"
    using assms(1,3) by (simp_all add: data_receive_def send_queue_def)
  have "env \<in> set (pendingOut (rl_p r3)) \<and> clientDataAddr (rl_p r3) = Some src" if "udp_run ?r2 out r3" for out r3
    using that m
  proof (induction ?r2 out r3 rule: udp_run.induct)
    case (step out r3 out1 r4)
    then have "env \<in> set (pendingOut (rl_p r3))" "clientDataAddr (rl_p r3) = Some src" by simp_all
    with step(3) step_keeps(2) [OF step(3), of src] show ?case
      by cases (auto simp: user_receive_p data_receive_def send_queue_def cleanupUDPSessions_def)
  qed simp
  then show ?thesis using s udp_step.queue [OF u] m by blast
qed

theorem udp_late_envelope_is_stranded_witness:
  "\<exists>r1 r2. udp_step ((new_relay (NewAuth ''k''))\<lparr>rl_user := UQueue (hello_env ''x'') []\<rparr>) [] r1 \<and> udp_step r1 [] r2 \<and>
     hello_env ''x'' \<in> set (pendingOut (rl_p r2)) \<and> clientDataAddr (rl_p r2) = Some ''c'' \<and>
     (\<forall>out r3. udp_run r2 out r3 \<longrightarrow> hello_env ''x'' \<in> set (pendingOut (rl_p r3)))"
  by (rule udp_late_envelope_is_stranded [of _ _ "[]"]) (simp_all add: new_relay_def new_udp_proxy_def)

text \<open>
  C25: Resource bounds of the UDP relay: in every run of a tunnel the queue of envelopes waiting for the
  client never exceeds 1024, and every datagram that is written, to the client or to a user, fits a UDP datagram
  (65507 bytes).
\<close>
theorem udp_queue_and_datagram_bounds:
  assumes "udp_run (new_relay a) out r"
  shows "length (pendingOut (rl_p r)) \<le> 1024 \<and> (\<forall>d \<in> set out. length (dgram d) \<le> 65507)"
proof -
  have "udp_run q out r \<Longrightarrow> relay_inv q \<Longrightarrow> d \<in> set out \<Longrightarrow> length (dgram d) \<le> 65507" for q d
  proof (induction rule: udp_run.induct)
    case (step q out r1 out1 r2)
    then show ?case using step_out_size [OF relay_inv_run [OF step(1)] step(2)] by auto
  qed simp
  from this [OF assms relay_inv_new] have "\<forall>d \<in> set out. length (dgram d) \<le> 65507" by blast
  moreover have "relay_inv r" using relay_inv_run [OF assms relay_inv_new] .
  ultimately show ?thesis by (auto simp: relay_inv_def queue_inv_def)
qed

theorem udp_queue_and_datagram_bounds_witness:
  "\<exists>out r. udp_run (new_relay (NewAuth ''k'')) out r \<and> map is_user out = [False, False, True] \<and>
     length (pendingOut (rl_p r)) \<le> 1024 \<and> (\<forall>d \<in> set out. length (dgram d) \<le> 65507)"
proof -
  let ?a = "NewAuth ''k''"
  let ?h = "handleUDPConnections (rl_p (new_relay ?a)) 0 1000 ''u'' [7]"
  let ?r1 = "(new_relay ?a)\<lparr>rl_p := snd ?h\<rparr>" and ?pkt = "Sign ?a 1000 (MarshalEnvelope (data_env (sid_of 1) [5]))"
  let ?d = "handleUDPDataChannel (rl_p ?r1) 0 1000 ''c'' ?pkt"
  have w: "inWindow 1000 1000" by (simp add: inWindow_def MaxTimeOffset_def)
  have h: "?h = ([], (new_udp_proxy ?a)\<lparr>sessionSeq := 1, sessions := [(sid_of 1, \<lparr>ses_userAddr = ''u'', ses_lastActive = 0\<rparr>)],
      addrIndex := [(''u'', sid_of 1)], pendingOut := [hello_env (sid_of 1), data_env (sid_of 1) [7]]\<rparr>)"
    by (simp add: handleUDPConnections_def getOrCreateSession_def new_relay_def new_udp_proxy_def Let_def sendUDPToClient_def send_lookup_def
        send_queue_def hello_env_def data_env_def)
  have u: "UnmarshalEnvelope (MarshalEnvelope (data_env (sid_of 1) [5])) = Some (data_env (sid_of 1) [5])" by (simp add: UnmarshalEnvelope_iff data_env_def)
  have d: "map is_user (fst ?d) = [False, False, True]"
    unfolding h by (simp add: handleUDPDataChannel_def register_client_def new_udp_proxy_def Verify_Sign w u [unfolded data_env_def] deliver_envelope_def deliver_lookup_def data_env_def)
  have r1: "udp_run (new_relay ?a) (fst ?h) ?r1"
    by (rule handleUDPConnections_run [OF _ _ surjective_pairing]) (simp_all add: new_relay_def new_udp_proxy_def)
  have r2: "udp_run ?r1 (fst ?d) (?r1\<lparr>rl_p := snd ?d\<rparr>)"
    by (rule handleUDPDataChannel_run [OF _ _ surjective_pairing]) (simp_all add: new_relay_def data_env_def)
  note r = udp_run_trans [OF r2 r1]
  have m: "map is_user (fst ?h @ fst ?d) = [False, False, True]" using d h by (simp del: list.map)
  show ?thesis by (rule exI, rule exI, rule conjI [OF r], rule conjI [OF m udp_queue_and_datagram_bounds [OF r]])
qed

end
