(* ===== verification/Server.thy ===== *)
theory Server
  imports Auth Protocol ConnGuard Store Config
begin

text \<open>
  Model of the control plane of \<^verbatim>\<open>cmd/server/main.go\<close>: logins, tunnels and their listening sockets,
  and their removal. A control
  connection is a number; the messages, hang-ups and webhooks that an operation causes are returned as a
  list of effects. Listening sockets are handles taken from a counter, and \<open>sv_socks\<close> lists those that
  are open. \<^verbatim>\<open>nil\<close> maps are \<open>None\<close>. The regular-expression matcher of the ACL and the JSON decoders are
  arguments, and so are the results of \<^verbatim>\<open>net.Listen\<close>. Log lines are not modelled. Managed clients and
  traffic are in \<open>Tenants\<close>, the UDP relay of a tunnel is in \<open>UdpRelay\<close>, the copying loops are in \<open>Forward\<close>.
\<close>

section \<open>State\<close>

record ServerProxy =
  sp_Name :: string
  sp_Type :: ProxyType
  sp_RemotePort :: int
  sp_Listener :: "nat option"
  sp_UDPConn :: "nat option"
  sp_ClientConn :: nat
  sp_Active :: bool
  sp_Owner :: string
  sp_ClientName :: string
  sp_Auth :: Auth
  sp_BytesIn :: int
  sp_BytesOut :: int
  sp_DataListener :: "nat option"
  sp_DataPort :: int
  sp_UDPDataConn :: "nat option"
  sp_udpDataPort :: int

record ClientTraffic =
  ct_BytesIn :: int
  ct_BytesOut :: int

record Server =
  sv_cfg :: ServerConfig
  sv_auth :: Auth
  sv_proxies :: "(string, ServerProxy) gomap"
  sv_clients :: "(string, nat \<times> string) gomap"   \<comment> \<open>control connection and its peer IP\<close>
  sv_guard :: ConnGuard
  sv_managed :: "(string, ManagedClient) gomap option"
  sv_clientNames :: "(string, string) gomap option"
  sv_traffic :: "(string, ClientTraffic) gomap"
  sv_store :: "Store option"
  sv_notified :: "(string, bool) gomap"
  sv_socks :: "nat list"
  sv_next :: nat

datatype payload =
    PLoginResp LoginResp | PNewProxyResp NewProxyResp | PSyncProxiesResp SyncProxiesResp
  | PCloseProxy CloseProxyMsg | PNewConn NewConn | PHeartbeatResp

datatype effect = Send nat payload | Hangup nat | Webhook string string

text \<open>Decimal output of \<^verbatim>\<open>fmt\<close> (\<^verbatim>\<open>%d\<close>).\<close>

fun dec_digits :: "nat \<Rightarrow> string" where
  "dec_digits n = (if n < 10 then [char_of (48 + n)] else dec_digits (n div 10) @ [char_of (48 + n mod 10)])"

declare dec_digits.simps [simp del]

definition fmt_d :: "int \<Rightarrow> string" where
  "fmt_d n = (if n < 0 then CHR ''-'' # dec_digits (nat (- n)) else dec_digits (nat n))"

section \<open>Sockets\<close>

definition open_sock :: "Server \<Rightarrow> nat \<times> Server" where
  "open_sock s = (sv_next s, s\<lparr>sv_socks := sv_socks s @ [sv_next s], sv_next := Suc (sv_next s)\<rparr>)"

definition close_sock :: "nat option \<Rightarrow> Server \<Rightarrow> Server" where
  "close_sock h s = (case h of None \<Rightarrow> s | Some i \<Rightarrow> s\<lparr>sv_socks := removeAll i (sv_socks s)\<rparr>)"

section \<open>Identities\<close>

definition clientNameForLocked :: "Server \<Rightarrow> string \<Rightarrow> string" where
  "clientNameForLocked s clientID =
     (case sv_clientNames s of
        None \<Rightarrow> ''default''
      | Some m \<Rightarrow> (case map_of m clientID of Some nm \<Rightarrow> nm | None \<Rightarrow> ''default''))"

definition clientNameFor :: "Server \<Rightarrow> string \<Rightarrow> string" where
  "clientNameFor s clientID =
     (if sv_clientNames s = None then ''default'' else clientNameForLocked s clientID)"

definition managed_list :: "Server \<Rightarrow> (string \<times> ManagedClient) list" where
  "managed_list s = (case sv_managed s of None \<Rightarrow> [] | Some m \<Rightarrow> m)"

definition authForClientLocked :: "Server \<Rightarrow> string \<Rightarrow> Auth" where
  "authForClientLocked s clientName =
     (if clientName \<noteq> '''' \<and> clientName \<noteq> ''default'' \<and> sv_managed s \<noteq> None then
        (case find (\<lambda>e. mc_Name (snd e) = clientName) (managed_list s) of
           Some e \<Rightarrow> NewAuth (mc_Token (snd e))
         | None \<Rightarrow> sv_auth s)
      else sv_auth s)"

section \<open>Login\<close>

text \<open>
  The token check of \<^verbatim>\<open>handleClient\<close>: memory index, then database (cached in memory), then the main
  token. The result is the identity, or \<open>None\<close> for an invalid token.
\<close>

definition managed_of_row :: "StoreClient \<Rightarrow> ManagedClient" where
  "managed_of_row c = \<lparr>mc_Name = cl_Name c, mc_Token = cl_Token c, mc_MaxTunnels = cl_MaxTunnels c,
     mc_MaxTrafficBytes = cl_MaxTrafficBytes c\<rparr>"

text \<open>The query of the database, and the entry into the memory index under the lock that follows it.\<close>

definition token_row :: "Server \<Rightarrow> string \<Rightarrow> StoreClient option" where
  "token_row s token =
     (case sv_store s of
        None \<Rightarrow> None
      | Some st \<Rightarrow> (case GetClientByToken st token of Inr (Some c) \<Rightarrow> Some c | _ \<Rightarrow> None))"

definition cache_client :: "string \<Rightarrow> StoreClient \<Rightarrow> Server \<Rightarrow> Server" where
  "cache_client token c s =
     (let s1 = (if sv_managed s = None then s\<lparr>sv_managed := Some [], sv_clientNames := Some []\<rparr> else s)
      in s1\<lparr>sv_managed := Some (gput token (managed_of_row c) (managed_list s1))\<rparr>)"

definition lookup_token :: "Server \<Rightarrow> string \<Rightarrow> string \<times> Server" where
  "lookup_token s token =
     (let mem = (case map_of (managed_list s) token of Some mc \<Rightarrow> mc_Name mc | None \<Rightarrow> '''') in
      if mem \<noteq> '''' then (mem, s)
      else case token_row s token of None \<Rightarrow> ('''', s) | Some c \<Rightarrow> (cl_Name c, cache_client token c s))"

lemmas lookup_token_defs = lookup_token_def token_row_def cache_client_def

definition check_token :: "Server \<Rightarrow> string \<Rightarrow> string option \<times> Server" where
  "check_token s token =
     (case lookup_token s token of (nm, s1) \<Rightarrow>
        if nm \<noteq> '''' then (Some nm, s1)
        else if token \<noteq> sc_Token (sv_cfg s) then (None, s1)
        else (Some ''default'', s1))"

definition register_connection :: "Server \<Rightarrow> string \<Rightarrow> nat \<Rightarrow> string \<Rightarrow> string \<Rightarrow> Server" where
  "register_connection s clientID conn ip clientName =
     (let names = (case sv_clientNames s of None \<Rightarrow> [] | Some m \<Rightarrow> m) in
      s\<lparr>sv_clients := gput clientID (conn, ip) (sv_clients s),
        sv_clientNames := Some (gput clientID clientName names),
        sv_traffic := (if map_of (sv_traffic s) clientName = None
                       then gput clientName \<lparr>ct_BytesIn = 0, ct_BytesOut = 0\<rparr> (sv_traffic s)
                       else sv_traffic s)\<rparr>)"

definition with_guard :: "(ConnGuard \<Rightarrow> ConnGuard) \<Rightarrow> Server \<Rightarrow> Server" where
  "with_guard f s = s\<lparr>sv_guard := f (sv_guard s)\<rparr>"

definition clientID_of :: "string \<Rightarrow> int \<Rightarrow> string" where
  "clientID_of remoteAddr nano = remoteAddr @ ''-'' @ fmt_d nano"

text \<open>
  \<^verbatim>\<open>handleClient\<close> up to the message loop. The connection \<open>conn\<close> comes from the IP \<open>ip\<close> (its peer text
  is \<open>remoteAddr\<close>) and delivers the bytes \<open>inp\<close>; \<open>now\<close> is the guard's clock and \<open>nano\<close> the clock when the id is made. The result is the effects, the new state and the
  client id with the rest of the input if the login succeeded. On every other path the deferred calls
  run: the guard's count is released (when \<open>Check\<close> had passed) and the connection is closed.
\<close>

definition refuse :: "nat \<Rightarrow> string \<Rightarrow> effect list \<Rightarrow> Server \<Rightarrow> effect list \<times> Server \<times> (string \<times> stream) option" where
  "refuse conn ip effs s =
     (effs @ [Hangup conn], with_guard (\<lambda>g. Release g (TCPAddr ip)) s, None)"

definition handleClient ::
    "(bytes \<Rightarrow> Login option) \<Rightarrow> Server \<Rightarrow> int \<Rightarrow> int \<Rightarrow> nat \<Rightarrow> string \<Rightarrow> string \<Rightarrow> stream \<Rightarrow>
     effect list \<times> Server \<times> (string \<times> stream) option" where
  "handleClient unm s now nano conn ip remoteAddr inp =
     (case Check (sv_guard s) now (TCPAddr ip) of (accepted, g) \<Rightarrow>
      let s0 = s\<lparr>sv_guard := g\<rparr> in
      if \<not> accepted then ([Hangup conn], s0, None)
      else
        case ReadMessage inp of
          Inl err \<Rightarrow>
            refuse conn ip []
              (if err = IoErr EOF then s0 else with_guard (\<lambda>g. BanForBadBehavior g now (TCPAddr ip)) s0)
        | Inr (msg, rest) \<Rightarrow>
            if msg_Type msg \<noteq> TypeLogin then
              refuse conn ip [] (with_guard (\<lambda>g. BanForBadBehavior g now (TCPAddr ip)) s0)
            else
              (case ParseMessage unm msg of
                 None \<Rightarrow> refuse conn ip [] s0
               | Some login \<Rightarrow>
                   (case check_token s0 (lg_Token login) of
                      (None, s1) \<Rightarrow>
                        refuse conn ip [Send conn (PLoginResp \<lparr>lr_Success = False, lr_Error = ''invalid token''\<rparr>)] s1
                    | (Some clientName, s1) \<Rightarrow>
                        let s2 = with_guard (\<lambda>g. ClearMisbehavior g ip) s1;
                            clientID = clientID_of remoteAddr nano
                        in ([Send conn (PLoginResp \<lparr>lr_Success = True, lr_Error = ''''\<rparr>),
                             Webhook ''client_connected'' clientName],
                            register_connection s2 clientID conn ip clientName,
                            Some (clientID, rest)))))"

section \<open>Tunnels\<close>

definition proxyAllowed :: "(string \<Rightarrow> string \<Rightarrow> bool) \<Rightarrow> Server \<Rightarrow> string \<Rightarrow> int \<Rightarrow> bool" where
  "proxyAllowed rx s nm port =
     (let acl = sc_ProxyACL (sv_cfg s) in
      if AllowNames acl = [] \<and> AllowPorts acl = [] then True
      else if AllowNames acl \<noteq> [] \<and> \<not> list_ex (\<lambda>pattern. rx pattern nm) (AllowNames acl) then False
      else if AllowPorts acl \<noteq> [] \<and> \<not> list_ex (\<lambda>p. p = port) (AllowPorts acl) then False
      else True)"

text \<open>What the operating system answers while a tunnel is set up: errors, or the data port chosen.\<close>

record listen_env =
  le_resolve :: "string option"
  le_listen :: "string option"
  le_data_resolve :: "string option"
  le_data :: "string + int"

definition reply :: "nat \<Rightarrow> NewProxyResp \<Rightarrow> effect list" where
  "reply conn resp = [Send conn (PNewProxyResp resp)]"

definition new_server_proxy :: "Server \<Rightarrow> NewProxy \<Rightarrow> nat \<Rightarrow> string \<Rightarrow> ServerProxy" where
  "new_server_proxy s np conn clientID =
     (let clientName = clientNameForLocked s clientID in
      \<lparr>sp_Name = np_Name np, sp_Type = np_Type np, sp_RemotePort = np_RemotePort np, sp_Listener = None,
       sp_UDPConn = None, sp_ClientConn = conn, sp_Active = True, sp_Owner = clientID, sp_ClientName = clientName,
       sp_Auth = authForClientLocked s clientName, sp_BytesIn = 0, sp_BytesOut = 0, sp_DataListener = None,
       sp_DataPort = 0, sp_UDPDataConn = None, sp_udpDataPort = 0\<rparr>)"

text \<open>The two branches of the \<^verbatim>\<open>switch\<close>: the finished proxy, or the error of the response.\<close>

definition setup_tcp :: "Server \<Rightarrow> listen_env \<Rightarrow> ServerProxy \<Rightarrow> (string + ServerProxy) \<times> Server" where
  "setup_tcp s os p =
     (case le_listen os of
        Some e \<Rightarrow> (Inl (''listen port '' @ fmt_d (sp_RemotePort p) @ '' failed: '' @ e), s)
      | None \<Rightarrow>
          (case open_sock s of (ln, s1) \<Rightarrow>
             (case le_data os of
                Inl e \<Rightarrow> (Inl (''listen data port failed: '' @ e), close_sock (Some ln) s1)
              | Inr port \<Rightarrow>
                  (case open_sock s1 of (dln, s2) \<Rightarrow>
                     (Inr (p\<lparr>sp_Listener := Some ln, sp_DataListener := Some dln, sp_DataPort := port\<rparr>), s2)))))"

definition setup_udp :: "Server \<Rightarrow> listen_env \<Rightarrow> ServerProxy \<Rightarrow> (string + ServerProxy) \<times> Server" where
  "setup_udp s os p =
     (case le_resolve os of
        Some e \<Rightarrow> (Inl (''resolve udp addr failed: '' @ e), s)
      | None \<Rightarrow>
          (case le_listen os of
             Some e \<Rightarrow> (Inl (''listen udp port '' @ fmt_d (sp_RemotePort p) @ '' failed: '' @ e), s)
           | None \<Rightarrow>
               (case open_sock s of (uc, s1) \<Rightarrow>
                  (case le_data_resolve os of
                     Some e \<Rightarrow> (Inl (''resolve udp data addr failed: '' @ e), close_sock (Some uc) s1)
                   | None \<Rightarrow>
                       (case le_data os of
                          Inl e \<Rightarrow> (Inl (''listen udp data port failed: '' @ e), close_sock (Some uc) s1)
                        | Inr port \<Rightarrow>
                            (case open_sock s1 of (dc, s2) \<Rightarrow>
                               (Inr (p\<lparr>sp_UDPConn := Some uc, sp_UDPDataConn := Some dc, sp_udpDataPort := port\<rparr>), s2)))))))"

definition handleNewProxy ::
    "(string \<Rightarrow> string \<Rightarrow> bool) \<Rightarrow> (bytes \<Rightarrow> NewProxy option) \<Rightarrow> Server \<Rightarrow> listen_env \<Rightarrow> nat \<Rightarrow> Message \<Rightarrow> string \<Rightarrow>
     effect list \<times> Server" where
  "handleNewProxy rx unm s os conn msg clientID =
     (case ParseMessage unm msg of
        None \<Rightarrow> ([], s)
      | Some np \<Rightarrow>
          let resp = \<lparr>nr_Name = np_Name np, nr_Success = False, nr_Error = '''', nr_RemotePort = 0, nr_UDPDataPort = 0\<rparr> in
          if \<not> proxyAllowed rx s (np_Name np) (np_RemotePort np) then
            (reply conn (resp\<lparr>nr_Error := ''proxy creation blocked by ACL''\<rparr>), s)
          else if map_of (sv_proxies s) (np_Name np) \<noteq> None then
            (reply conn (resp\<lparr>nr_Error := ''proxy ['' @ np_Name np @ ''] already exists''\<rparr>), s)
          else
            let p = new_server_proxy s np conn clientID in
            case (if np_Type np = ProxyTCP then setup_tcp s os p
                  else if np_Type np = ProxyUDP then setup_udp s os p
                  else (Inl (''unsupported proxy type: '' @ np_Type np), s)) of
              (Inl e, s1) \<Rightarrow> (reply conn (resp\<lparr>nr_Error := e\<rparr>), s1)
            | (Inr p1, s1) \<Rightarrow>
                (reply conn (resp\<lparr>nr_Success := True, nr_RemotePort := np_RemotePort np, nr_UDPDataPort := sp_udpDataPort p1\<rparr>),
                 s1\<lparr>sv_proxies := gput (np_Name np) p1 (sv_proxies s1)\<rparr>))"

definition cleanupProxy :: "string \<Rightarrow> ServerProxy \<Rightarrow> Server \<Rightarrow> Server" where
  "cleanupProxy nm p s =
     (let s1 = close_sock (sp_Listener p) s; s2 = close_sock (sp_DataListener p) s1;
          s3 = close_sock (sp_UDPConn p) s2; s4 = close_sock (sp_UDPDataConn p) s3
      in s4\<lparr>sv_proxies := gdel nm (sv_proxies s4)\<rparr>)"

definition CloseProxy :: "Server \<Rightarrow> string \<Rightarrow> bool \<times> effect list \<times> Server" where
  "CloseProxy s nm =
     (case map_of (sv_proxies s) nm of
        None \<Rightarrow> (False, [], s)
      | Some p \<Rightarrow>
          (True, [Send (sp_ClientConn p) (PCloseProxy \<lparr>cp_Name = nm\<rparr>), Webhook ''proxy_closed'' nm],
           cleanupProxy nm p s))"

definition handleSyncProxies :: "Server \<Rightarrow> nat \<Rightarrow> string \<Rightarrow> effect list" where
  "handleSyncProxies s conn clientID =
     (case sv_store s of
        None \<Rightarrow> [Send conn (PSyncProxiesResp \<lparr>sr_Proxies = []\<rparr>)]
      | Some st \<Rightarrow>
          (case ListProxiesByClient st (clientNameFor s clientID) of
             Inl _ \<Rightarrow> [Send conn (PSyncProxiesResp \<lparr>sr_Proxies = []\<rparr>)]
           | Inr ps \<Rightarrow>
               [Send conn (PSyncProxiesResp \<lparr>sr_Proxies =
                  map (\<lambda>p. \<lparr>si_Name = px_Name p, si_Type = px_Type p, si_RemotePort = px_RemotePort p,
                            si_LocalAddr = px_LocalAddr p, si_LocalPort = px_LocalPort p\<rparr>) ps\<rparr>)]))"

text \<open>The end of \<^verbatim>\<open>handleControlMessages\<close>: the loop over the proxies, then the connection is forgotten.\<close>

primrec cleanup_owned :: "string \<Rightarrow> (string \<times> ServerProxy) list \<Rightarrow> Server \<Rightarrow> Server" where
  "cleanup_owned clientID [] s = s"
| "cleanup_owned clientID (e # es) s =
     cleanup_owned clientID es (if sp_Owner (snd e) = clientID then cleanupProxy (fst e) (snd e) s else s)"

definition disconnect :: "Server \<Rightarrow> string \<Rightarrow> nat \<Rightarrow> string \<Rightarrow> effect list \<times> Server" where
  "disconnect s clientID conn ip =
     (let clientName = clientNameForLocked s clientID;
          s1 = cleanup_owned clientID (sv_proxies s) s;
          s2 = s1\<lparr>sv_clients := gdel clientID (sv_clients s1)\<rparr>
      in ([Webhook ''client_disconnected'' clientName, Hangup conn], with_guard (\<lambda>g. Release g (TCPAddr ip)) s2))"

text \<open>One message of the loop of \<^verbatim>\<open>handleControlMessages\<close>; other types are ignored.\<close>

definition handle_control_message ::
    "(string \<Rightarrow> string \<Rightarrow> bool) \<Rightarrow> (bytes \<Rightarrow> NewProxy option) \<Rightarrow> Server \<Rightarrow> listen_env \<Rightarrow> nat \<Rightarrow> string \<Rightarrow> Message \<Rightarrow>
     effect list \<times> Server" where
  "handle_control_message rx unm s os conn clientID msg =
     (if msg_Type msg = TypeNewProxy then handleNewProxy rx unm s os conn msg clientID
      else if msg_Type msg = TypeHeartbeat then ([Send conn PHeartbeatResp], s)
      else if msg_Type msg = TypeSyncProxies then (handleSyncProxies s conn clientID, s)
      else ([], s))"

text \<open>\<^verbatim>\<open>handleControlMessages\<close>: the loop until the connection ends (each iteration consumes a frame), then the clean-up.\<close>

fun control_loop ::
    "nat \<Rightarrow> (string \<Rightarrow> string \<Rightarrow> bool) \<Rightarrow> (bytes \<Rightarrow> NewProxy option) \<Rightarrow> (nat \<Rightarrow> listen_env) \<Rightarrow> nat \<Rightarrow> string \<Rightarrow> stream \<Rightarrow> Server \<Rightarrow>
     effect list \<times> Server \<times> proto_err option" where
  "control_loop 0 rx unm os conn clientID inp s = ([], s, None)"
| "control_loop (Suc fuel) rx unm os conn clientID inp s =
     (case ReadMessage inp of
        Inl err \<Rightarrow> ([], s, Some err)
      | Inr (msg, rest) \<Rightarrow>
          (case handle_control_message rx unm s (os fuel) conn clientID msg of (e1, s1) \<Rightarrow>
             case control_loop fuel rx unm os conn clientID rest s1 of (e2, r) \<Rightarrow> (e1 @ e2, r)))"

definition handleControlMessages ::
    "(string \<Rightarrow> string \<Rightarrow> bool) \<Rightarrow> (bytes \<Rightarrow> NewProxy option) \<Rightarrow> (nat \<Rightarrow> listen_env) \<Rightarrow> nat \<Rightarrow> string \<Rightarrow> string \<Rightarrow> stream \<Rightarrow> Server \<Rightarrow>
     effect list \<times> Server" where
  "handleControlMessages rx unm os conn ip clientID inp s =
     (case control_loop (Suc (length (inb inp))) rx unm os conn clientID inp s of (e1, s1, _) \<Rightarrow>
        case disconnect s1 clientID conn ip of (e2, s2) \<Rightarrow> (e1 @ e2, s2))"

definition KickClient :: "Server \<Rightarrow> string \<Rightarrow> bool \<times> effect list" where
  "KickClient s clientID =
     (case map_of (sv_clients s) clientID of
        None \<Rightarrow> (False, [])
      | Some (conn, _) \<Rightarrow> (True, [Hangup conn]))"

section \<open>Runs of the control plane\<close>

definition handles :: "ServerProxy \<Rightarrow> nat list" where
  "handles p = List.map_filter id [sp_Listener p, sp_DataListener p, sp_UDPConn p, sp_UDPDataConn p]"

definition held :: "(string \<times> ServerProxy) list \<Rightarrow> nat list" where
  "held ps = concat (map (\<lambda>e. handles (snd e)) ps)"

text \<open>
  What operations outside the tunnel table may change: managed clients, names, traffic, the store,
  notifications and the guard, but not tunnels, connections, sockets or the configuration.
\<close>

definition same_tunnels :: "Server \<Rightarrow> Server \<Rightarrow> bool" where
  "same_tunnels s t \<longleftrightarrow> sv_cfg t = sv_cfg s \<and> sv_proxies t = sv_proxies s \<and> sv_clients t = sv_clients s \<and>
     sv_socks t = sv_socks s \<and> sv_next t = sv_next s"

inductive server_step :: "(string \<Rightarrow> string \<Rightarrow> bool) \<Rightarrow> Server \<Rightarrow> Server \<Rightarrow> bool" for rx where
  login: "handleClient unm s now nano conn ip remoteAddr inp = (effs, t, r) \<Longrightarrow>
     map_of (sv_clients s) (clientID_of remoteAddr nano) = None \<Longrightarrow> server_step rx s t"
| message: "map_of (sv_clients s) clientID = Some (conn, ip) \<Longrightarrow>
     handle_control_message rx unm s os conn clientID msg = (effs, t) \<Longrightarrow> server_step rx s t"
| leave: "map_of (sv_clients s) clientID = Some (conn, ip) \<Longrightarrow>
     disconnect s clientID conn ip = (effs, t) \<Longrightarrow> server_step rx s t"
| close: "CloseProxy s nm = (b, effs, t) \<Longrightarrow> server_step rx s t"
| other: "same_tunnels s t \<Longrightarrow> server_step rx s t"

inductive_cases server_stepE: "server_step rx s t"

text \<open>
  The invariant of the tunnel table: names are the keys, every tunnel passed the ACL and belongs to a
  connected client (through its connection), and the open listening sockets are exactly the ones
  the tunnels hold, each held once.
\<close>

definition owner_ok :: "Server \<Rightarrow> ServerProxy \<Rightarrow> bool" where
  "owner_ok s p \<longleftrightarrow> map_option fst (map_of (sv_clients s) (sp_Owner p)) = Some (sp_ClientConn p)"

definition server_inv :: "(string \<Rightarrow> string \<Rightarrow> bool) \<Rightarrow> Server \<Rightarrow> bool" where
  "server_inv rx s \<longleftrightarrow> gwf (sv_proxies s) \<and>
     (\<forall>(nm, p) \<in> set (sv_proxies s). sp_Name p = nm \<and> owner_ok s p \<and> proxyAllowed rx s nm (sp_RemotePort p)) \<and>
     distinct (held (sv_proxies s)) \<and> set (held (sv_proxies s)) = set (sv_socks s) \<and> distinct (sv_socks s) \<and>
     (\<forall>h \<in> set (sv_socks s). h < sv_next s)"

lemma gput_fresh: "map_of m k = None \<Longrightarrow> gput k v m = m @ [(k, v)]"
  by (induction m) (auto split: if_splits)

lemma gdel_filter: "gdel k m = filter (\<lambda>e. fst e \<noteq> k) m"
  by (induction m) auto

lemma set_handles: "h \<in> set (handles p) \<longleftrightarrow>
    sp_Listener p = Some h \<or> sp_DataListener p = Some h \<or> sp_UDPConn p = Some h \<or> sp_UDPDataConn p = Some h"
  by (auto simp: handles_def List.map_filter_def split: option.splits)

lemma held_append [simp]: "held (xs @ ys) = held xs @ held ys"
  by (simp add: held_def)

lemma held_Cons [simp]: "held (e # es) = handles (snd e) @ held es" "held [] = []"
  by (simp_all add: held_def)

lemma set_held: "set (held ps) = (\<Union>e \<in> set ps. set (handles (snd e)))"
  by (simp add: held_def)

lemma close_sock_simps [simp]:
  "sv_cfg (close_sock h s) = sv_cfg s" "sv_proxies (close_sock h s) = sv_proxies s"
  "sv_clients (close_sock h s) = sv_clients s" "sv_next (close_sock h s) = sv_next s"
  "sv_socks (close_sock h s) = filter (\<lambda>i. h \<noteq> Some i) (sv_socks s)"
  by (auto simp: close_sock_def removeAll_filter_not_eq split: option.split intro: filter_cong)

lemma cleanupProxy_simps [simp]:
  "sv_cfg (cleanupProxy nm p s) = sv_cfg s" "sv_clients (cleanupProxy nm p s) = sv_clients s"
  "sv_next (cleanupProxy nm p s) = sv_next s"
  "sv_proxies (cleanupProxy nm p s) = filter (\<lambda>e. fst e \<noteq> nm) (sv_proxies s)"
  "sv_socks (cleanupProxy nm p s) = filter (\<lambda>h. h \<notin> set (handles p)) (sv_socks s)"
  by (auto simp: cleanupProxy_def Let_def gdel_filter set_handles intro: filter_cong)

lemma cleanup_owned_simps [simp]:
  "sv_cfg (cleanup_owned c es s) = sv_cfg s" "sv_clients (cleanup_owned c es s) = sv_clients s"
  "sv_next (cleanup_owned c es s) = sv_next s"
  by (induction es arbitrary: s) auto

lemma cleanup_owned_proxies:
  "sv_proxies (cleanup_owned c es s) =
     filter (\<lambda>e. \<forall>d \<in> set es. sp_Owner (snd d) = c \<longrightarrow> fst e \<noteq> fst d) (sv_proxies s)"
  by (induction es arbitrary: s) (auto intro: filter_cong)

lemma cleanup_owned_socks:
  "sv_socks (cleanup_owned c es s) =
     filter (\<lambda>h. \<forall>d \<in> set es. sp_Owner (snd d) = c \<longrightarrow> h \<notin> set (handles (snd d))) (sv_socks s)"
  by (induction es arbitrary: s) (auto intro: filter_cong)

text \<open>On a table with distinct keys, the clean-up of a client removes exactly its own tunnels.\<close>

lemma cleanup_owned_exact:
  assumes "gwf (sv_proxies s)"
  shows "sv_proxies (cleanup_owned c (sv_proxies s) s) = filter (\<lambda>e. sp_Owner (snd e) \<noteq> c) (sv_proxies s)"
proof -
  have "(\<forall>d \<in> set (sv_proxies s). sp_Owner (snd d) = c \<longrightarrow> fst e \<noteq> fst d) \<longleftrightarrow> sp_Owner (snd e) \<noteq> c"
    if "e \<in> set (sv_proxies s)" for e
    using assms that by (auto simp: gwf_def) (metis eq_key_imp_eq_value prod.collapse)
  then show ?thesis unfolding cleanup_owned_proxies by (intro filter_cong refl)
qed

lemma held_filter_disjoint:
  "distinct (held ps) \<Longrightarrow> h \<in> set (held (filter Q ps)) \<longleftrightarrow>
     h \<in> set (held ps) \<and> (\<forall>e \<in> set ps. \<not> Q e \<longrightarrow> h \<notin> set (handles (snd e)))"
  by (induction ps) (auto simp: set_held)

lemma distinct_held_filter: "distinct (held ps) \<Longrightarrow> distinct (held (filter Q ps))"
  by (induction ps) (auto simp: set_held)

lemma proxyAllowed_cfg: "sv_cfg t = sv_cfg s \<Longrightarrow> proxyAllowed rx t = proxyAllowed rx s"
  by (intro ext) (simp add: proxyAllowed_def)

lemma server_inv_same: "same_tunnels s t \<Longrightarrow> server_inv rx s \<Longrightarrow> server_inv rx t"
  by (auto simp: same_tunnels_def server_inv_def owner_ok_def proxyAllowed_cfg [of t s])

text \<open>Removing tunnels together with their sockets keeps the invariant.\<close>

lemma server_inv_remove:
  assumes "server_inv rx s" and "sv_proxies t = filter Q (sv_proxies s)"
    and "sv_socks t = filter (\<lambda>h. \<forall>e \<in> set (sv_proxies s). \<not> Q e \<longrightarrow> h \<notin> set (handles (snd e))) (sv_socks s)"
    and "sv_cfg t = sv_cfg s" and "sv_next t = sv_next s"
    and "\<forall>e \<in> set (sv_proxies s). Q e \<longrightarrow> owner_ok t (snd e)"
  shows "server_inv rx t"
proof -
  have inv: "gwf (sv_proxies s)" "distinct (held (sv_proxies s))" "set (held (sv_proxies s)) = set (sv_socks s)"
    "distinct (sv_socks s)" "\<forall>h \<in> set (sv_socks s). h < sv_next s"
    "\<forall>(nm, p) \<in> set (sv_proxies s). sp_Name p = nm \<and> owner_ok s p \<and> proxyAllowed rx s nm (sp_RemotePort p)"
    using assms(1) by (auto simp: server_inv_def)
  have "set (held (sv_proxies t)) = set (sv_socks t)"
    using held_filter_disjoint [OF inv(2), of _ Q] inv(3) assms(2,3) by auto
  then show ?thesis
    using inv assms(2-6) distinct_held_filter [OF inv(2), of Q] by (auto simp: server_inv_def proxyAllowed_cfg [of t s])
qed

lemma server_inv_close:
  assumes "server_inv rx s" and "CloseProxy s nm = (b, effs, t)"
  shows "server_inv rx t"
proof (cases "map_of (sv_proxies s) nm")
  case None
  with assms show ?thesis by (simp add: CloseProxy_def)
next
  case (Some p)
  have t: "t = cleanupProxy nm p s" using assms(2) Some by (simp add: CloseProxy_def)
  have g: "gwf (sv_proxies s)" using assms(1) by (simp add: server_inv_def)
  have u: "fst e = nm \<longleftrightarrow> e = (nm, p)" if "e \<in> set (sv_proxies s)" for e
    using map_of_gwf_iff [OF g, of nm "snd e"] Some that by (cases e) auto
  have m: "(nm, p) \<in> set (sv_proxies s)" using Some by (rule map_of_SomeD)
  show ?thesis
  proof (rule server_inv_remove [OF assms(1), where Q = "\<lambda>e. fst e \<noteq> nm"])
    show "sv_socks t = filter (\<lambda>h. \<forall>e \<in> set (sv_proxies s). \<not> fst e \<noteq> nm \<longrightarrow> h \<notin> set (handles (snd e))) (sv_socks s)"
      unfolding t cleanupProxy_simps using u m by (intro filter_cong) auto
    show "\<forall>e \<in> set (sv_proxies s). fst e \<noteq> nm \<longrightarrow> owner_ok t (snd e)"
      using assms(1) by (auto simp: server_inv_def owner_ok_def t)
  qed (simp_all add: t)
qed

lemma disconnect_state:
  assumes "disconnect s c conn ip = (effs, t)"
  shows "sv_cfg t = sv_cfg s" "sv_next t = sv_next s" "sv_clients t = gdel c (sv_clients s)"
    "sv_proxies t = sv_proxies (cleanup_owned c (sv_proxies s) s)"
    "sv_socks t = sv_socks (cleanup_owned c (sv_proxies s) s)"
  using assms by (auto simp: disconnect_def Let_def with_guard_def)

lemma server_inv_disconnect:
  assumes "server_inv rx s" and "disconnect s c conn ip = (effs, t)"
  shows "server_inv rx t"
proof (rule server_inv_remove [OF assms(1), where Q = "\<lambda>e. sp_Owner (snd e) \<noteq> c"])
  have g: "gwf (sv_proxies s)" using assms(1) by (simp add: server_inv_def)
  show "sv_proxies t = filter (\<lambda>e. sp_Owner (snd e) \<noteq> c) (sv_proxies s)"
    using disconnect_state(4) [OF assms(2)] cleanup_owned_exact [OF g, of c] by simp
  show "sv_socks t = filter (\<lambda>h. \<forall>e \<in> set (sv_proxies s). \<not> sp_Owner (snd e) \<noteq> c \<longrightarrow> h \<notin> set (handles (snd e))) (sv_socks s)"
    using disconnect_state(5) [OF assms(2)] by (simp add: cleanup_owned_socks)
  show "\<forall>e \<in> set (sv_proxies s). sp_Owner (snd e) \<noteq> c \<longrightarrow> owner_ok t (snd e)"
    using assms(1) disconnect_state(3) [OF assms(2)] by (auto simp: server_inv_def owner_ok_def)
qed (use disconnect_state [OF assms(2)] in auto)

lemma lookup_token_same: "same_tunnels s (snd (lookup_token s token))"
  by (auto simp: lookup_token_defs same_tunnels_def Let_def split: option.splits sum.splits)

lemma check_token_same: "check_token s token = (r, t) \<Longrightarrow> same_tunnels s t"
  using lookup_token_same [of s token] by (auto simp: check_token_def split: prod.splits if_splits)

lemma same_tunnels_guard: "same_tunnels s (s\<lparr>sv_guard := g\<rparr>)" "same_tunnels s (with_guard f s)"
  by (simp_all add: same_tunnels_def with_guard_def)

lemma same_tunnels_trans: "same_tunnels s t \<Longrightarrow> same_tunnels t u \<Longrightarrow> same_tunnels s u"
  by (simp add: same_tunnels_def)

text \<open>A login either changes no tunnel and no connection, or adds the one connection.\<close>

lemma handleClient_state:
  assumes "handleClient unm s now nano conn ip remoteAddr inp = (effs, t, r)"
  shows "r = None \<and> same_tunnels s t \<or>
    (\<exists>u nm rest. r = Some (clientID_of remoteAddr nano, rest) \<and> same_tunnels s u \<and>
       t = register_connection u (clientID_of remoteAddr nano) conn ip nm)"
proof -
  have ct: "same_tunnels s t1" if "check_token (s\<lparr>sv_guard := g\<rparr>) tok = (x, t1)" for g tok x t1
    using check_token_same [OF that] same_tunnels_guard(1) same_tunnels_trans by blast
  have g2: "same_tunnels s (with_guard f (s\<lparr>sv_guard := g\<rparr>))" for f g
    using same_tunnels_guard same_tunnels_trans by blast
  have g3: "same_tunnels s (with_guard f u)" if "same_tunnels s u" for f u
    using that same_tunnels_guard(2) same_tunnels_trans by blast
  show ?thesis
    using assms
    by (auto simp: handleClient_def refuse_def Let_def same_tunnels_guard intro!: g3 g2 dest: ct
        split: prod.splits sum.splits if_splits option.splits)
qed

lemma server_inv_login:
  assumes "server_inv rx s" and "handleClient unm s now nano conn ip remoteAddr inp = (effs, t, r)"
    and "map_of (sv_clients s) (clientID_of remoteAddr nano) = None"
  shows "server_inv rx t"
  using handleClient_state [OF assms(2)]
proof
  assume "r = None \<and> same_tunnels s t"
  then show ?thesis using server_inv_same assms(1) by blast
next
  assume "\<exists>u nm rest. r = Some (clientID_of remoteAddr nano, rest) \<and> same_tunnels s u \<and>
       t = register_connection u (clientID_of remoteAddr nano) conn ip nm"
  then obtain u nm where u: "same_tunnels s u" "t = register_connection u (clientID_of remoteAddr nano) conn ip nm"
    by blast
  have "server_inv rx u" using u(1) assms(1) by (rule server_inv_same)
  moreover have "map_of (sv_clients u) (clientID_of remoteAddr nano) = None"
    using u(1) assms(3) by (simp add: same_tunnels_def)
  moreover have "sv_cfg t = sv_cfg u" by (simp add: u(2) register_connection_def Let_def)
  note proxyAllowed_cfg [OF this, of rx]
  ultimately show ?thesis
    unfolding server_inv_def by (auto simp: u(2) register_connection_def Let_def owner_ok_def)
qed

text \<open>Setting up a tunnel: on an error no socket stays open; otherwise exactly two new ones are held.\<close>

lemma open_sock_simps [simp]:
  "open_sock s = (sv_next s, s\<lparr>sv_socks := sv_socks s @ [sv_next s], sv_next := Suc (sv_next s)\<rparr>)"
  by (simp add: open_sock_def)

definition set_up :: "Server \<Rightarrow> ServerProxy \<Rightarrow> ServerProxy \<Rightarrow> Server \<Rightarrow> bool" where
  "set_up s p p1 t \<longleftrightarrow> t = s\<lparr>sv_socks := sv_socks s @ [sv_next s, Suc (sv_next s)], sv_next := Suc (Suc (sv_next s))\<rparr> \<and>
     set (handles p1) = {sv_next s, Suc (sv_next s)} \<and> distinct (handles p1) \<and> sp_Name p1 = sp_Name p \<and>
     sp_Owner p1 = sp_Owner p \<and> sp_ClientConn p1 = sp_ClientConn p \<and> sp_RemotePort p1 = sp_RemotePort p \<and>
     sp_ClientName p1 = sp_ClientName p \<and> sp_Auth p1 = sp_Auth p \<and> sp_Type p1 = sp_Type p"

lemma socks_unused: "\<forall>h \<in> set (sv_socks s). h < sv_next s \<Longrightarrow> filter (\<lambda>i. sv_next s \<noteq> i) (sv_socks s) = sv_socks s"
  by (auto simp: filter_id_conv)

lemma setup_tcp_cases:
  assumes "\<forall>h \<in> set (sv_socks s). h < sv_next s" and "setup_tcp s os p = (r, t)"
    and "sp_UDPConn p = None" and "sp_UDPDataConn p = None"
  shows "(\<exists>e. r = Inl e) \<and> sv_socks t = sv_socks s \<and> sv_proxies t = sv_proxies s \<and> sv_clients t = sv_clients s \<and>
      sv_cfg t = sv_cfg s \<and> sv_next s \<le> sv_next t \<or> (\<exists>p1. r = Inr p1 \<and> set_up s p p1 t)"
proof (cases "le_listen os = None \<and> (\<exists>port. le_data os = Inr port)")
  case True
  then obtain port where os: "le_listen os = None" "le_data os = Inr port" by blast
  let ?p1 = "p\<lparr>sp_Listener := Some (sv_next s), sp_DataListener := Some (Suc (sv_next s)), sp_DataPort := port\<rparr>"
  have "r = Inr ?p1" and "t = s\<lparr>sv_socks := sv_socks s @ [sv_next s, Suc (sv_next s)], sv_next := Suc (Suc (sv_next s))\<rparr>"
    using assms(2) os by (auto simp: setup_tcp_def)
  moreover have "handles ?p1 = [sv_next s, Suc (sv_next s)]"
    using assms(3,4) by (simp add: handles_def List.map_filter_def)
  ultimately have "r = Inr ?p1 \<and> set_up s p ?p1 t" by (simp add: set_up_def)
  then show ?thesis by blast
next
  case False
  then have "(\<exists>e. r = Inl e) \<and> (t = s \<or> t = close_sock (Some (sv_next s)) (snd (open_sock s)))"
    using assms(2) by (auto simp: setup_tcp_def split: option.splits sum.splits)
  then show ?thesis using socks_unused [OF assms(1)] by auto
qed

lemma setup_udp_cases:
  assumes "\<forall>h \<in> set (sv_socks s). h < sv_next s" and "setup_udp s os p = (r, t)"
    and "sp_Listener p = None" and "sp_DataListener p = None"
  shows "(\<exists>e. r = Inl e) \<and> sv_socks t = sv_socks s \<and> sv_proxies t = sv_proxies s \<and> sv_clients t = sv_clients s \<and>
      sv_cfg t = sv_cfg s \<and> sv_next s \<le> sv_next t \<or> (\<exists>p1. r = Inr p1 \<and> set_up s p p1 t)"
proof (cases "le_resolve os = None \<and> le_listen os = None \<and> le_data_resolve os = None \<and> (\<exists>port. le_data os = Inr port)")
  case True
  then obtain port where os: "le_resolve os = None" "le_listen os = None" "le_data_resolve os = None" "le_data os = Inr port"
    by blast
  let ?p1 = "p\<lparr>sp_UDPConn := Some (sv_next s), sp_UDPDataConn := Some (Suc (sv_next s)), sp_udpDataPort := port\<rparr>"
  have "r = Inr ?p1" and "t = s\<lparr>sv_socks := sv_socks s @ [sv_next s, Suc (sv_next s)], sv_next := Suc (Suc (sv_next s))\<rparr>"
    using assms(2) os by (auto simp: setup_udp_def)
  moreover have "handles ?p1 = [sv_next s, Suc (sv_next s)]"
    using assms(3,4) by (simp add: handles_def List.map_filter_def)
  ultimately have "r = Inr ?p1 \<and> set_up s p ?p1 t" by (simp add: set_up_def)
  then show ?thesis by blast
next
  case False
  then have "(\<exists>e. r = Inl e) \<and> (t = s \<or> t = close_sock (Some (sv_next s)) (snd (open_sock s)))"
    using assms(2) by (auto simp: setup_udp_def split: option.splits sum.splits)
  then show ?thesis using socks_unused [OF assms(1)] by auto
qed

text \<open>Every outcome of a tunnel request.\<close>

definition resp_of :: "NewProxy \<Rightarrow> string \<Rightarrow> NewProxyResp" where
  "resp_of np e = \<lparr>nr_Name = np_Name np, nr_Success = False, nr_Error = e, nr_RemotePort = 0, nr_UDPDataPort = 0\<rparr>"

lemma handleNewProxy_outcome:
  assumes "\<forall>h \<in> set (sv_socks s). h < sv_next s" and "ParseMessage unm msg = Some np"
    and "handleNewProxy rx unm s os conn msg c = (effs, t)"
  shows "(\<exists>e. effs = reply conn (resp_of np e)) \<and> sv_socks t = sv_socks s \<and> sv_proxies t = sv_proxies s \<and>
      sv_clients t = sv_clients s \<and> sv_cfg t = sv_cfg s \<and> sv_next s \<le> sv_next t \<or>
    (\<exists>p1 u. proxyAllowed rx s (np_Name np) (np_RemotePort np) \<and> map_of (sv_proxies s) (np_Name np) = None \<and>
      (np_Type np = ProxyTCP \<or> np_Type np = ProxyUDP) \<and>
      set_up s (new_server_proxy s np conn c) p1 u \<and> t = u\<lparr>sv_proxies := sv_proxies u @ [(np_Name np, p1)]\<rparr> \<and>
      effs = reply conn ((resp_of np '''')\<lparr>nr_Success := True, nr_RemotePort := np_RemotePort np,
        nr_UDPDataPort := sp_udpDataPort p1\<rparr>))"
proof -
  let ?p = "new_server_proxy s np conn c"
  have n: "sp_Listener ?p = None" "sp_UDPConn ?p = None" "sp_DataListener ?p = None" "sp_UDPDataConn ?p = None"
    by (simp_all add: new_server_proxy_def Let_def)
  define st where "st = (if np_Type np = ProxyTCP then setup_tcp s os ?p else if np_Type np = ProxyUDP then setup_udp s os ?p
    else (Inl (''unsupported proxy type: '' @ np_Type np), s))"
  obtain r u where st: "st = (r, u)" by fastforce
  have cases: "(\<exists>e. r = Inl e) \<and> sv_socks u = sv_socks s \<and> sv_proxies u = sv_proxies s \<and> sv_clients u = sv_clients s \<and>
      sv_cfg u = sv_cfg s \<and> sv_next s \<le> sv_next u \<or>
      (np_Type np = ProxyTCP \<or> np_Type np = ProxyUDP) \<and> (\<exists>p1. r = Inr p1 \<and> set_up s ?p p1 u)"
    using st setup_tcp_cases [OF assms(1), of os ?p r u] setup_udp_cases [OF assms(1), of os ?p r u] n
    by (auto simp: st_def split: if_splits)
  consider "\<not> proxyAllowed rx s (np_Name np) (np_RemotePort np)" | "map_of (sv_proxies s) (np_Name np) \<noteq> None"
    | (go) "proxyAllowed rx s (np_Name np) (np_RemotePort np)" "map_of (sv_proxies s) (np_Name np) = None" by blast
  then show ?thesis
  proof cases
    case go
    have eq: "(effs, t) = (case st of (Inl e, s1) \<Rightarrow> (reply conn (resp_of np e), s1)
            | (Inr p1, s1) \<Rightarrow>
                (reply conn ((resp_of np '''')\<lparr>nr_Success := True, nr_RemotePort := np_RemotePort np, nr_UDPDataPort := sp_udpDataPort p1\<rparr>),
                 s1\<lparr>sv_proxies := gput (np_Name np) p1 (sv_proxies s1)\<rparr>))"
      using assms(2,3) go
      by (simp add: handleNewProxy_def Let_def st_def [symmetric] st resp_of_def split: sum.splits)
    from cases show ?thesis
    proof
      assume "(\<exists>e. r = Inl e) \<and> sv_socks u = sv_socks s \<and> sv_proxies u = sv_proxies s \<and> sv_clients u = sv_clients s \<and>
        sv_cfg u = sv_cfg s \<and> sv_next s \<le> sv_next u"
      with eq st show ?thesis by auto
    next
      assume a: "(np_Type np = ProxyTCP \<or> np_Type np = ProxyUDP) \<and> (\<exists>p1. r = Inr p1 \<and> set_up s ?p p1 u)"
      then obtain p1 where p1: "r = Inr p1" "set_up s ?p p1 u" by blast
      then have "map_of (sv_proxies u) (np_Name np) = None" using go by (simp add: set_up_def)
      with eq st p1 have "t = u\<lparr>sv_proxies := sv_proxies u @ [(np_Name np, p1)]\<rparr>"
        "effs = reply conn ((resp_of np '''')\<lparr>nr_Success := True, nr_RemotePort := np_RemotePort np, nr_UDPDataPort := sp_udpDataPort p1\<rparr>)"
        by (simp_all add: gput_fresh)
      with go a p1 show ?thesis by blast
    qed
  qed (use assms(2,3) in \<open>auto simp: handleNewProxy_def Let_def resp_of_def split: if_splits\<close>)
qed

lemma server_inv_newproxy:
  assumes "server_inv rx s" and "map_of (sv_clients s) c = Some (conn, ip)"
    and "handleNewProxy rx unm s os conn msg c = (effs, t)"
  shows "server_inv rx t"
proof (cases "ParseMessage unm msg")
  case None
  with assms show ?thesis by (simp add: handleNewProxy_def)
next
  case (Some np)
  have inv: "gwf (sv_proxies s)" "distinct (held (sv_proxies s))" "set (held (sv_proxies s)) = set (sv_socks s)"
    "distinct (sv_socks s)" and lt: "\<forall>h \<in> set (sv_socks s). h < sv_next s"
    and rows: "\<forall>(nm, p) \<in> set (sv_proxies s). sp_Name p = nm \<and> owner_ok s p \<and> proxyAllowed rx s nm (sp_RemotePort p)"
    using assms(1) by (auto simp: server_inv_def)
  from handleNewProxy_outcome [OF lt Some assms(3)] show ?thesis
  proof
    assume a: "(\<exists>e. effs = reply conn (resp_of np e)) \<and> sv_socks t = sv_socks s \<and> sv_proxies t = sv_proxies s \<and>
      sv_clients t = sv_clients s \<and> sv_cfg t = sv_cfg s \<and> sv_next s \<le> sv_next t"
    then have p: "proxyAllowed rx t = proxyAllowed rx s" by (intro proxyAllowed_cfg) simp
    have "\<forall>h \<in> set (sv_socks t). h < sv_next t" using lt a by (auto intro: less_le_trans)
    with inv rows show ?thesis unfolding server_inv_def owner_ok_def p using a by simp
  next
    assume "\<exists>p1 u. proxyAllowed rx s (np_Name np) (np_RemotePort np) \<and> map_of (sv_proxies s) (np_Name np) = None \<and>
      (np_Type np = ProxyTCP \<or> np_Type np = ProxyUDP) \<and>
      set_up s (new_server_proxy s np conn c) p1 u \<and> t = u\<lparr>sv_proxies := sv_proxies u @ [(np_Name np, p1)]\<rparr> \<and>
      effs = reply conn ((resp_of np '''')\<lparr>nr_Success := True, nr_RemotePort := np_RemotePort np,
        nr_UDPDataPort := sp_udpDataPort p1\<rparr>)"
    then obtain p1 u where ok: "proxyAllowed rx s (np_Name np) (np_RemotePort np)" "map_of (sv_proxies s) (np_Name np) = None"
      and su: "set_up s (new_server_proxy s np conn c) p1 u" and t: "t = u\<lparr>sv_proxies := sv_proxies u @ [(np_Name np, p1)]\<rparr>"
      by blast
    let ?n = "sv_next s"
    have t': "sv_proxies t = sv_proxies s @ [(np_Name np, p1)]" "sv_clients t = sv_clients s" "sv_cfg t = sv_cfg s"
      "sv_socks t = sv_socks s @ [?n, Suc ?n]" "sv_next t = Suc (Suc ?n)"
      using su t by (simp_all add: set_up_def)
    have h: "set (handles p1) = {?n, Suc ?n}" "distinct (handles p1)" using su by (simp_all add: set_up_def)
    have p1: "sp_Name p1 = np_Name np" "owner_ok t p1" "sp_RemotePort p1 = np_RemotePort np"
      using su assms(2) by (simp_all add: set_up_def new_server_proxy_def owner_ok_def t' Let_def)
    have new: "np_Name np \<notin> fst ` set (sv_proxies s)" using ok(2) by (simp add: map_of_eq_None_iff)
    have "distinct (held (sv_proxies t)) \<and> set (held (sv_proxies t)) = set (sv_socks t) \<and> distinct (sv_socks t)"
      using inv lt h by (fastforce simp: t')
    moreover have "gwf (sv_proxies t)" using inv(1) new by (simp add: gwf_def t')
    moreover have "\<forall>h \<in> set (sv_socks t). h < sv_next t" using lt by (auto simp: t')
    ultimately show ?thesis
      using rows p1 ok(1) proxyAllowed_cfg [OF t'(3), of rx] by (auto simp: server_inv_def t'(1) owner_ok_def t'(2))
  qed
qed

lemma server_inv_message:
  assumes "server_inv rx s" and "map_of (sv_clients s) c = Some (conn, ip)"
    and "handle_control_message rx unm s os conn c msg = (effs, t)"
  shows "server_inv rx t"
  using assms server_inv_newproxy [OF assms(1,2)] by (auto simp: handle_control_message_def split: if_splits)

lemma server_inv_step: "server_step rx s t \<Longrightarrow> server_inv rx s \<Longrightarrow> server_inv rx t"
  by (erule server_stepE)
    (auto intro: server_inv_login server_inv_message server_inv_disconnect server_inv_close server_inv_same)

lemma server_inv_steps: "(server_step rx)\<^sup>*\<^sup>* s t \<Longrightarrow> server_inv rx s \<Longrightarrow> server_inv rx t"
  by (induction rule: rtranclp_induct) (auto dest: server_inv_step)

section \<open>Login lemmas\<close>

text \<open>The identity a token stands for, read off the state: memory index, then database, then main token.\<close>

definition identity_of :: "Server \<Rightarrow> string \<Rightarrow> string option" where
  "identity_of s token =
     (let mem = (case map_of (managed_list s) token of Some mc \<Rightarrow> mc_Name mc | None \<Rightarrow> '''');
          db = (case sv_store s of None \<Rightarrow> ''''
                | Some st \<Rightarrow> (case GetClientByToken st token of Inr (Some c) \<Rightarrow> cl_Name c | _ \<Rightarrow> ''''))
      in if mem \<noteq> '''' then Some mem
         else if db \<noteq> '''' then Some db
         else if token = sc_Token (sv_cfg s) then Some ''default''
         else None)"

lemma check_token_identity: "fst (check_token s token) = identity_of s token"
  by (auto simp: check_token_def lookup_token_defs identity_of_def Let_def split: option.splits sum.splits)

lemma GetClientByToken_name:
  "GetClientByToken st token = Inr (Some c) \<Longrightarrow> cl_Token c = token"
  by (auto simp: GetClientByToken_def db_query_def split: if_splits dest: find_SomeD)

text \<open>Caching a database client in memory changes nobody's identity.\<close>

lemma check_token_transparent:
  assumes "check_token s token = (r, t)"
  shows "identity_of t u = identity_of s u"
proof -
  have t: "t = snd (lookup_token s token)"
    using assms by (auto simp: check_token_def split: prod.splits if_splits)
  show ?thesis
  proof (cases "t = s")
    case False
    then obtain st c where st: "sv_store s = Some st" "GetClientByToken st token = Inr (Some c)"
      and mem: "map_of (managed_list s) token = None \<or> (\<exists>mc. map_of (managed_list s) token = Some mc \<and> mc_Name mc = '''')"
      using t by (auto simp: lookup_token_defs Let_def split: if_splits option.splits sum.splits)
    have m: "map_of (managed_list t) u = (if u = token then Some (managed_of_row c) else map_of (managed_list s) u)"
      and "sv_store t = sv_store s" "sv_cfg t = sv_cfg s"
      using t st mem by (auto simp: lookup_token_defs Let_def managed_list_def split: option.splits if_splits)
    then show ?thesis
      using st mem by (auto simp: identity_of_def Let_def managed_of_row_def)
  qed simp
qed

lemma check_token_guard: "check_token s token = (r, t) \<Longrightarrow> sv_guard t = sv_guard s"
  by (auto simp: check_token_def lookup_token_defs Let_def split: option.splits sum.splits prod.splits if_splits)

lemma connCount_ops [simp]:
  "connCount (BanForBadBehavior g now c) = connCount g" "connCount (ClearMisbehavior g ip) = connCount g"
  by (simp_all add: BanForBadBehavior_def ClearMisbehavior_def Let_def)

lemma whitelist_ops [simp]:
  "isWhitelisted (BanForBadBehavior g now c) = isWhitelisted g" "isWhitelisted (ClearMisbehavior g ip) = isWhitelisted g"
  using isWhitelisted_same_config same_config_ops by blast+

definition slots :: "Server \<Rightarrow> string \<Rightarrow> int" where
  "slots s ip = gat 0 (connCount (sv_guard s)) ip"

lemma slots_simps [simp]:
  "slots (with_guard (\<lambda>g. BanForBadBehavior g now c) s) ip = slots s ip"
  "slots (with_guard (\<lambda>g. ClearMisbehavior g j) s) ip = slots s ip"
  "slots (register_connection s cid conn j nm) ip = slots s ip"
  by (simp_all add: slots_def with_guard_def register_connection_def Let_def)

lemma slots_release: "0 < slots s ip \<Longrightarrow> slots (with_guard (\<lambda>g. Release g (TCPAddr ip)) s) ip = slots s ip - 1"
  by (simp add: slots_def with_guard_def Release_def)

lemma slots_refuse: "refuse conn ip effs s = (e, t, r) \<Longrightarrow> 0 < slots s ip \<Longrightarrow> r = None \<and> slots t ip = slots s ip - 1"
  by (auto simp: refuse_def slots_release)

lemma slots_check_token: "check_token s token = (r, t) \<Longrightarrow> slots t ip = slots s ip"
  by (simp add: slots_def check_token_guard)

lemma slots_Check:
  assumes "Check (sv_guard s) now (TCPAddr ip) = (b, g)" and "\<not> isWhitelisted (sv_guard s) ip"
  shows "slots (s\<lparr>sv_guard := g\<rparr>) ip = slots s ip + (if b then 1 else 0)"
  using assms by (auto simp: slots_def Check_eq Let_def split: if_splits)

lemma handleClient_slots:
  assumes "handleClient unm s now nano conn ip remoteAddr inp = (effs, t, r)"
    and "\<not> isWhitelisted (sv_guard s) ip" and "0 \<le> slots s ip"
  shows "slots t ip = slots s ip + (if r = None then 0 else 1)"
proof -
  obtain b g where c: "Check (sv_guard s) now (TCPAddr ip) = (b, g)" by fastforce
  let ?s0 = "s\<lparr>sv_guard := g\<rparr>"
  show ?thesis
  proof (cases b)
    case False
    with assms(1) c slots_Check [OF c assms(2)] show ?thesis by (auto simp: handleClient_def)
  next
    case True
    have k: "slots ?s0 ip = slots s ip + 1" using slots_Check [OF c assms(2)] True by simp
    have ct: "slots u ip = slots s ip + 1" if "check_token ?s0 tok = (x, u)" for x u tok
      using slots_check_token [OF that] k by simp
    show ?thesis
      using assms(1,3) c True k
      by (auto simp: handleClient_def Let_def dest!: slots_refuse ct split: sum.splits prod.splits if_splits option.splits)
  qed
qed

lemma control_loop_ends: "length (inb inp) < fuel \<Longrightarrow> snd (snd (control_loop fuel rx unm os conn c inp s)) \<noteq> None"
proof (induction fuel arbitrary: inp s)
  case (Suc fuel)
  show ?case
  proof (cases "ReadMessage inp")
    case (Inr mr)
    obtain m rest where mr: "mr = (m, rest)" by fastforce
    have "length (inb rest) < length (inb inp)"
      using control.rd_progress Inr mr by blast
    with Suc show ?thesis using Inr mr by (simp add: case_prod_unfold)
  qed simp
qed simp

lemma handle_control_message_clients:
  assumes "server_inv rx s" and "handle_control_message rx unm s os conn c msg = (effs, t)"
  shows "sv_clients t = sv_clients s"
proof (cases "msg_Type msg = TypeNewProxy")
  case True
  with assms have h: "handleNewProxy rx unm s os conn msg c = (effs, t)" by (simp add: handle_control_message_def)
  have lt: "\<forall>h \<in> set (sv_socks s). h < sv_next s" using assms(1) by (simp add: server_inv_def)
  show ?thesis
  proof (cases "ParseMessage unm msg")
    case None
    with h show ?thesis by (simp add: handleNewProxy_def)
  next
    case (Some np)
    from handleNewProxy_outcome [OF lt Some h] show ?thesis by (auto simp: set_up_def)
  qed
qed (use assms in \<open>auto simp: handle_control_message_def split: if_splits\<close>)

lemma control_loop_inv:
  assumes "server_inv rx s" and "map_of (sv_clients s) c = Some (conn, ip)"
    and "control_loop fuel rx unm os conn c inp s = (effs, t, r)"
  shows "server_inv rx t \<and> sv_clients t = sv_clients s"
  using assms
proof (induction fuel arbitrary: inp s effs)
  case (Suc fuel)
  show ?case
  proof (cases "ReadMessage inp")
    case (Inl e)
    with Suc.prems show ?thesis by simp
  next
    case (Inr mr)
    obtain m rest where mr: "mr = (m, rest)" by fastforce
    obtain e1 s1 where h: "handle_control_message rx unm s (os fuel) conn c m = (e1, s1)" by fastforce
    obtain e2 where l: "control_loop fuel rx unm os conn c rest s1 = (e2, t, r)"
      using Suc.prems(3) Inr mr h by (auto split: prod.splits)
    have k: "sv_clients s1 = sv_clients s" using handle_control_message_clients [OF Suc.prems(1) h] .
    from Suc.IH [OF server_inv_message [OF Suc.prems(1,2) h] _ l] Suc.prems(2) k show ?thesis by simp
  qed
qed simp

section \<open>Properties\<close>

definition fresh_server :: "ServerConfig \<Rightarrow> ConnGuard \<Rightarrow> (string, ManagedClient) gomap option \<Rightarrow> Store option \<Rightarrow> Server" where
  "fresh_server cfg g managed st =
     \<lparr>sv_cfg = cfg, sv_auth = NewAuth (sc_Token cfg), sv_proxies = [], sv_clients = [], sv_guard = g, sv_managed = managed,
      sv_clientNames = map_option (\<lambda>_. []) managed, sv_traffic = [], sv_store = st, sv_notified = [], sv_socks = [], sv_next = 0\<rparr>"

lemma server_inv_fresh: "server_inv rx (fresh_server cfg g managed st)"
  by (simp add: server_inv_def fresh_server_def held_def)

text \<open>
  C5: In every run of the control plane (logins, tunnel requests, tunnel closings, disconnections, in any
  order and with any failures of the operating system), every registered tunnel was allowed by the
  ACL and belongs to a client that is connected, through that client's own connection; and the open
  listening sockets are exactly those of the registered tunnels, each belonging to one tunnel, so
  no socket is leaked and none is closed under a live tunnel.
\<close>
theorem tunnels_and_sockets_consistent:
  assumes "(server_step rx)\<^sup>*\<^sup>* (fresh_server cfg g managed st) s"
  shows "(\<forall>(nm, p) \<in> set (sv_proxies s). sp_Name p = nm \<and> proxyAllowed rx s nm (sp_RemotePort p) \<and>
      map_option fst (map_of (sv_clients s) (sp_Owner p)) = Some (sp_ClientConn p)) \<and>
    distinct (held (sv_proxies s)) \<and> set (held (sv_proxies s)) = set (sv_socks s)"
  using server_inv_steps [OF assms server_inv_fresh] by (auto simp: server_inv_def owner_ok_def)

theorem tunnels_and_sockets_consistent_witness:
  "set (held (sv_proxies (snd (snd (CloseProxy (fresh_server DefaultServerConfig NewConnGuard None None) ''web''))))) = {}"
proof -
  let ?s = "fresh_server DefaultServerConfig NewConnGuard None None"
  have "(server_step (\<lambda>_ _. True))\<^sup>*\<^sup>* ?s (snd (snd (CloseProxy ?s ''web'')))"
    by (rule r_into_rtranclp, rule server_step.close) (simp add: prod_eq_iff)
  from tunnels_and_sockets_consistent [OF this] show ?thesis by (simp add: CloseProxy_def fresh_server_def)
qed

text \<open>
  C20: A tunnel request that can be parsed is answered with exactly one response for that name. It
  succeeds exactly when the ACL allows it, the name is free, the type is supported and every socket
  could be opened; then the tunnel is registered for the requesting client and every other tunnel is
  untouched. On every failure the tunnels and the open sockets are what they were before.
\<close>
theorem tunnel_request_all_or_nothing:
  assumes "server_inv rx s" and "ParseMessage unm msg = Some np"
    and "handleNewProxy rx unm s os conn msg c = (effs, t)"
  shows "\<exists>resp. effs = [Send conn (PNewProxyResp resp)] \<and> nr_Name resp = np_Name np \<and>
    (nr_Success resp \<longleftrightarrow> proxyAllowed rx s (np_Name np) (np_RemotePort np) \<and> map_of (sv_proxies s) (np_Name np) = None \<and>
       le_listen os = None \<and> (\<exists>port. le_data os = Inr port) \<and>
       (np_Type np = ProxyTCP \<or> np_Type np = ProxyUDP \<and> le_resolve os = None \<and> le_data_resolve os = None)) \<and>
    (if nr_Success resp
     then \<exists>p. sp_Owner p = c \<and> sp_RemotePort p = np_RemotePort np \<and> sv_proxies t = sv_proxies s @ [(np_Name np, p)]
     else sv_proxies t = sv_proxies s \<and> sv_socks t = sv_socks s)"
proof -
  have lt: "\<forall>h \<in> set (sv_socks s). h < sv_next s" using assms(1) by (simp add: server_inv_def)
  define ok where "ok \<longleftrightarrow> proxyAllowed rx s (np_Name np) (np_RemotePort np) \<and> map_of (sv_proxies s) (np_Name np) = None \<and>
       le_listen os = None \<and> (\<exists>port. le_data os = Inr port) \<and>
       (np_Type np = ProxyTCP \<or> np_Type np = ProxyUDP \<and> le_resolve os = None \<and> le_data_resolve os = None)"
  have tu: "ProxyUDP \<noteq> ProxyTCP" by (simp add: ProxyUDP_def ProxyTCP_def)
  have succ: "effs = reply conn resp \<Longrightarrow> nr_Success resp \<longleftrightarrow> ok" for resp
    using assms(2,3) tu
    by (auto simp: handleNewProxy_def Let_def setup_tcp_def setup_udp_def reply_def ok_def
        split: if_splits option.splits sum.splits)
  from handleNewProxy_outcome [OF lt assms(2,3)] show ?thesis
  proof
    assume a: "(\<exists>e. effs = reply conn (resp_of np e)) \<and> sv_socks t = sv_socks s \<and> sv_proxies t = sv_proxies s \<and>
      sv_clients t = sv_clients s \<and> sv_cfg t = sv_cfg s \<and> sv_next s \<le> sv_next t"
    then obtain e where e: "effs = reply conn (resp_of np e)" by blast
    have "\<not> ok" using succ [OF e] by (simp add: resp_of_def)
    then show ?thesis using a e unfolding ok_def [symmetric]
      by (intro exI [of _ "resp_of np e"]) (simp add: resp_of_def reply_def)
  next
    assume "\<exists>p1 u. proxyAllowed rx s (np_Name np) (np_RemotePort np) \<and> map_of (sv_proxies s) (np_Name np) = None \<and>
      (np_Type np = ProxyTCP \<or> np_Type np = ProxyUDP) \<and>
      set_up s (new_server_proxy s np conn c) p1 u \<and> t = u\<lparr>sv_proxies := sv_proxies u @ [(np_Name np, p1)]\<rparr> \<and>
      effs = reply conn ((resp_of np '''')\<lparr>nr_Success := True, nr_RemotePort := np_RemotePort np,
        nr_UDPDataPort := sp_udpDataPort p1\<rparr>)"
    then obtain p1 u resp where su: "set_up s (new_server_proxy s np conn c) p1 u"
      and t: "t = u\<lparr>sv_proxies := sv_proxies u @ [(np_Name np, p1)]\<rparr>" and e: "effs = reply conn resp"
      and r: "nr_Success resp" "nr_Name resp = np_Name np"
      by (auto simp: resp_of_def)
    have "sp_Owner p1 = c \<and> sp_RemotePort p1 = np_RemotePort np \<and> sv_proxies t = sv_proxies s @ [(np_Name np, p1)]"
      using su t by (simp add: set_up_def new_server_proxy_def Let_def)
    then show ?thesis using e r succ [OF e] unfolding ok_def [symmetric]
      by (intro exI [of _ resp]) (auto simp: reply_def)
  qed
qed

definition demo_request :: NewProxy where
  "demo_request = \<lparr>np_Name = ''web'', np_Type = ''tcp'', np_RemotePort = 8080, np_LocalAddr = '''', np_LocalPort = 0\<rparr>"

theorem tunnel_request_all_or_nothing_witness:
  "let s = fresh_server DefaultServerConfig NewConnGuard None None;
       os = \<lparr>le_resolve = None, le_listen = None, le_data_resolve = None, le_data = Inl ''no port''\<rparr>;
       t = snd (handleNewProxy (\<lambda>_ _. True) (\<lambda>_. Some demo_request) s os 5 \<lparr>msg_Type = TypeNewProxy, msg_Data = []\<rparr> ''c'')
   in sv_proxies t = [] \<and> sv_socks t = []"
proof -
  let ?s = "fresh_server DefaultServerConfig NewConnGuard None None"
  let ?os = "\<lparr>le_resolve = None, le_listen = None, le_data_resolve = None, le_data = Inl ''no port''\<rparr>"
  let ?m = "\<lparr>msg_Type = TypeNewProxy, msg_Data = []\<rparr>"
  let ?r = "handleNewProxy (\<lambda>_ _. True) (\<lambda>_. Some demo_request) ?s ?os 5 ?m ''c''"
  have p: "ParseMessage (\<lambda>_. Some demo_request) ?m = Some demo_request" by (simp add: ParseMessage_def)
  from tunnel_request_all_or_nothing [OF server_inv_fresh p surjective_pairing, of "\<lambda>_ _. True" DefaultServerConfig NewConnGuard None None ?os 5 "''c''"]
  show ?thesis by (auto simp: fresh_server_def split: if_splits)
qed

text \<open>
  C28: Isolation of clients on disconnection: when a client's connection ends, exactly the tunnels it
  owns disappear and their sockets are closed; the tunnels of every other client, their sockets
  and the other connections stay as they are.
\<close>
theorem disconnect_removes_only_own_tunnels:
  assumes "server_inv rx s" and "disconnect s c conn ip = (effs, t)"
  shows "sv_proxies t = filter (\<lambda>e. sp_Owner (snd e) \<noteq> c) (sv_proxies s) \<and>
    set (sv_socks t) = set (held (filter (\<lambda>e. sp_Owner (snd e) \<noteq> c) (sv_proxies s))) \<and>
    (\<forall>d. map_of (sv_clients t) d = (if d = c then None else map_of (sv_clients s) d))"
proof -
  have p: "sv_proxies t = filter (\<lambda>e. sp_Owner (snd e) \<noteq> c) (sv_proxies s)"
    using assms(1) disconnect_state(4) [OF assms(2)] cleanup_owned_exact [of s c] by (simp add: server_inv_def)
  moreover have "set (held (sv_proxies t)) = set (sv_socks t)"
    using server_inv_disconnect [OF assms] by (simp add: server_inv_def)
  ultimately show ?thesis using disconnect_state(3) [OF assms(2)] by simp
qed

theorem disconnect_removes_only_own_tunnels_witness:
  "sv_proxies (snd (disconnect (fresh_server DefaultServerConfig NewConnGuard None None) ''c'' 5 ''1.2.3.4'')) = []"
proof -
  let ?s = "fresh_server DefaultServerConfig NewConnGuard None None"
  have "disconnect ?s ''c'' 5 ''1.2.3.4'' = (fst (disconnect ?s ''c'' 5 ''1.2.3.4''), snd (disconnect ?s ''c'' 5 ''1.2.3.4''))"
    by simp
  from disconnect_removes_only_own_tunnels [OF server_inv_fresh this] show ?thesis by (simp add: fresh_server_def)
qed

text \<open>
  C22: Login decides by the token alone, in a fixed order: the identity of a managed client in the memory
  index, else of an active client in the database, else the anonymous identity \<^verbatim>\<open>default\<close> for the main
  token, else refusal. Copying a database client into the memory index changes the outcome of no
  later login, with this or any other token.
\<close>
theorem login_identity_and_cache_transparent:
  assumes "check_token s token = (r, t)"
  shows "r = identity_of s token \<and> fst (check_token t u) = fst (check_token s u)"
  using check_token_identity [of s token] check_token_transparent [OF assms, of u] assms
  by (simp add: check_token_identity)

theorem login_identity_and_cache_transparent_witness:
  "identity_of (fresh_server DefaultServerConfig NewConnGuard None None) ''change_me_to_secure_token'' = Some ''default'' \<and>
   fst (check_token (snd (check_token (fresh_server DefaultServerConfig NewConnGuard None None) ''x'')) ''x'') = None"
  using login_identity_and_cache_transparent [OF surjective_pairing,
      of "fresh_server DefaultServerConfig NewConnGuard None None" "''x''" "''x''"]
  by (simp add: check_token_identity identity_of_def fresh_server_def managed_list_def DefaultServerConfig_def)

text \<open>
  The connection slots of an address are accounted for on every path of the login: a connection that
  is refused at whatever stage (guard, read error, wrong message, bad token) gives its slot back, and a
  successful login keeps exactly one.
\<close>
theorem login_slot_accounting:
  assumes "handleClient unm s now nano conn ip remoteAddr inp = (effs, t, r)"
    and "\<not> isWhitelisted (sv_guard s) ip" and "0 \<le> gat 0 (connCount (sv_guard s)) ip"
  shows "gat 0 (connCount (sv_guard t)) ip = gat 0 (connCount (sv_guard s)) ip + (if r = None then 0 else 1)"
  using handleClient_slots [OF assms(1,2)] assms(3) by (simp add: slots_def)

theorem login_slot_accounting_witness:
  "gat 0 (connCount (sv_guard (fst (snd (handleClient (\<lambda>_. None) (fresh_server DefaultServerConfig NewConnGuard None None)
     0 0 7 ''1.2.3.4'' ''1.2.3.4:5'' \<lparr>inb = [], tail_err = EOF\<rparr>))))) ''1.2.3.4'' = 0"
proof -
  let ?s = "fresh_server DefaultServerConfig NewConnGuard None None"
  let ?h = "handleClient (\<lambda>_. None) ?s 0 0 7 ''1.2.3.4'' ''1.2.3.4:5'' \<lparr>inb = [], tail_err = EOF\<rparr>"
  have "ReadMessage \<lparr>inb = [], tail_err = EOF\<rparr> = Inl (IoErr EOF)" by (simp add: ReadMessage_def)
  then have "snd (snd ?h) = None" by (simp add: handleClient_def refuse_def case_prod_unfold Let_def)
  then have "?h = (fst ?h, fst (snd ?h), None)" by (simp add: prod_eq_iff)
  from login_slot_accounting [OF this] show ?thesis
    by (simp add: fresh_server_def NewConnGuard_def isWhitelisted_def)
qed

text \<open>
  C31: The message loop of a control connection always comes to an end when the connection does, after
  at most one iteration per received byte, and the clean-up then runs: the connection is forgotten
  and no tunnel of the client is left, whatever messages were received.
\<close>
theorem control_connection_always_cleaned_up:
  assumes "server_inv rx s" and "map_of (sv_clients s) c = Some (conn, ip)"
    and "handleControlMessages rx unm os conn ip c inp s = (effs, t)"
  shows "snd (snd (control_loop (Suc (length (inb inp))) rx unm os conn c inp s)) \<noteq> None \<and>
    map_of (sv_clients t) c = None \<and> (\<forall>(nm, p) \<in> set (sv_proxies t). sp_Owner p \<noteq> c)"
proof -
  obtain e1 s1 r where l: "control_loop (Suc (length (inb inp))) rx unm os conn c inp s = (e1, s1, r)"
    by (metis prod_cases3)
  obtain e2 where d: "disconnect s1 c conn ip = (e2, t)"
    using assms(3) l by (auto simp: handleControlMessages_def split: prod.splits)
  have "server_inv rx s1 \<and> sv_clients s1 = sv_clients s"
    using control_loop_inv [OF assms(1,2) l] by simp
  then have "gwf (sv_proxies s1)" by (simp add: server_inv_def)
  then have "sv_proxies t = filter (\<lambda>e. sp_Owner (snd e) \<noteq> c) (sv_proxies s1)"
    using disconnect_state(4) [OF d] cleanup_owned_exact [of s1 c] by simp
  moreover have "snd (snd (control_loop (Suc (length (inb inp))) rx unm os conn c inp s)) \<noteq> None"
    by (rule control_loop_ends) simp
  ultimately show ?thesis using disconnect_state(3) [OF d] by auto
qed

theorem control_connection_always_cleaned_up_witness:
  "map_of (sv_clients (snd (handleControlMessages (\<lambda>_ _. True) (\<lambda>_. None) (\<lambda>_. \<lparr>le_resolve = None, le_listen = None, le_data_resolve = None, le_data = Inr 0\<rparr>) 5 ''1.2.3.4'' ''c'' \<lparr>inb = [1], tail_err = EOF\<rparr>
     (fresh_server DefaultServerConfig NewConnGuard None None\<lparr>sv_clients := [(''c'', (5, ''1.2.3.4''))]\<rparr>)))) ''c'' = None"
proof -
  let ?s = "fresh_server DefaultServerConfig NewConnGuard None None\<lparr>sv_clients := [(''c'', (5, ''1.2.3.4''))]\<rparr>"
  have i: "server_inv (\<lambda>_ _. True) ?s" by (simp add: server_inv_def fresh_server_def held_def)
  have c: "map_of (sv_clients ?s) ''c'' = Some (5, ''1.2.3.4'')" by simp
  show ?thesis using control_connection_always_cleaned_up [OF i c surjective_pairing] by blast
qed

end
