(* ===== verification/Tenants.thy ===== *)
theory Tenants
  imports Server
begin

text \<open>
  Model of the multi-tenant part of \<^verbatim>\<open>cmd/server/main.go\<close>: the start-up import of clients and API keys,
  managed clients at run time, traffic accounting with its limit notification, and the listings that
  the management interface shows. The state is the \<open>Server\<close> record. Writing traffic to the database
  happens in its own goroutine and is a separate operation (\<open>persist_traffic\<close>).
\<close>

section \<open>Start-up\<close>

text \<open>The seed import of \<^verbatim>\<open>main\<close>: clients and keys of the configuration that the database does not have.\<close>

fun seed_clients :: "string \<Rightarrow> ManagedClient list \<Rightarrow> Store \<Rightarrow> Store" where
  "seed_clients now [] st = st"
| "seed_clients now (c # cs) st =
     seed_clients now cs
       (if mc_Name c = '''' \<or> mc_Token c = '''' then st
        else case GetClient st (mc_Name c) of
          Inr (Some _) \<Rightarrow> st
        | _ \<Rightarrow> snd (AddClient st now (mc_Name c) (mc_Token c) (mc_MaxTunnels c) (mc_MaxTrafficBytes c)))"

fun seed_keys :: "string \<Rightarrow> string list \<Rightarrow> Store \<Rightarrow> Store" where
  "seed_keys now [] st = st"
| "seed_keys now (k # ks) st =
     seed_keys now ks
       (if k = '''' then st
        else case HasAPIKey st k of
          Inr True \<Rightarrow> st
        | _ \<Rightarrow> snd (AddAPIKey st now k ''config seed''))"

definition index_of_rows :: "StoreClient list \<Rightarrow> (string, ManagedClient) gomap" where
  "index_of_rows rows = foldl (\<lambda>m c. gput (cl_Token c) (managed_of_row c) m) [] rows"

definition index_of_config :: "ManagedClient list \<Rightarrow> (string, ManagedClient) gomap" where
  "index_of_config cs =
     foldl (\<lambda>m c. if mc_Name c = '''' \<or> mc_Token c = '''' then m else gput (mc_Token c) c m) [] cs"

definition start_server :: "string \<Rightarrow> ServerConfig \<Rightarrow> ConnGuard \<Rightarrow> Store \<Rightarrow> Server" where
  "start_server now cfg g st0 =
     (let st = seed_keys now (sc_APIKeys cfg) (seed_clients now (sc_Clients cfg) st0);
          rows = (case ListClients st of Inr rows \<Rightarrow> rows | Inl _ \<Rightarrow> []);
          managed = (if rows \<noteq> [] then Some (index_of_rows rows)
                     else if sc_Clients cfg \<noteq> [] then Some (index_of_config (sc_Clients cfg))
                     else None)
      in fresh_server cfg g managed (Some st))"

section \<open>Managed clients\<close>

datatype tenant_err = EmptyNameOrToken | NameExists | TokenInUse string | DBWriteFailed | NoSuchClient

text \<open>The conflict check of the \<^verbatim>\<open>range\<close> loop: the first entry that clashes decides.\<close>

fun managed_conflict :: "string \<Rightarrow> string \<Rightarrow> (string \<times> ManagedClient) list \<Rightarrow> tenant_err option" where
  "managed_conflict nm token [] = None"
| "managed_conflict nm token (e # es) =
     (if mc_Name (snd e) = nm then Some NameExists
      else if mc_Token (snd e) = token then Some (TokenInUse (mc_Name (snd e)))
      else managed_conflict nm token es)"

definition index_client :: "Server \<Rightarrow> string \<Rightarrow> string \<Rightarrow> int \<Rightarrow> int \<Rightarrow> Server" where
  "index_client s nm token mt mb =
     s\<lparr>sv_managed := Some (gput token \<lparr>mc_Name = nm, mc_Token = token, mc_MaxTunnels = mt, mc_MaxTrafficBytes = mb\<rparr> (managed_list s)),
       sv_traffic := (if map_of (sv_traffic s) nm = None
                      then gput nm \<lparr>ct_BytesIn = 0, ct_BytesOut = 0\<rparr> (sv_traffic s) else sv_traffic s)\<rparr>"

definition AddManagedClientWithOwner ::
    "Server \<Rightarrow> string \<Rightarrow> string \<Rightarrow> string \<Rightarrow> int \<Rightarrow> int \<Rightarrow> string \<Rightarrow> (tenant_err + unit) \<times> Server" where
  "AddManagedClientWithOwner s now nm token mt mb owner =
     (if nm = '''' \<or> token = '''' then (Inl EmptyNameOrToken, s)
      else
        let s0 = s\<lparr>sv_managed := Some (managed_list s)\<rparr> in
        case managed_conflict nm token (managed_list s0) of
          Some e \<Rightarrow> (Inl e, s0)
        | None \<Rightarrow>
            let s1 = index_client s0 nm token mt mb in
            case sv_store s1 of
              None \<Rightarrow> (Inr (), s1)
            | Some st \<Rightarrow>
                (case GetClient st nm of
                   Inr (Some _) \<Rightarrow> (Inr (), s1\<lparr>sv_store := Some (snd (UpdateClientQuota st now nm mt mb))\<rparr>)
                 | _ \<Rightarrow>
                     (case AddClientWithOwner st now nm token mt mb owner of
                        (Inl _, st') \<Rightarrow> (Inl DBWriteFailed, s1\<lparr>sv_store := Some st'\<rparr>)
                      | (Inr _, st') \<Rightarrow> (Inr (), s1\<lparr>sv_store := Some st'\<rparr>))))"

definition AddManagedClient ::
    "Server \<Rightarrow> string \<Rightarrow> string \<Rightarrow> string \<Rightarrow> int \<Rightarrow> int \<Rightarrow> string \<Rightarrow> (tenant_err + unit) \<times> Server" where
  "AddManagedClient s now nm token mt mb owner = AddManagedClientWithOwner s now nm token mt mb owner"

text \<open>The first entry of that name is deleted; the loop then breaks.\<close>

definition drop_managed :: "string \<Rightarrow> (string, ManagedClient) gomap \<Rightarrow> (string, ManagedClient) gomap" where
  "drop_managed nm m =
     (case find (\<lambda>e. mc_Name (snd e) = nm) m of None \<Rightarrow> m | Some e \<Rightarrow> gdel (fst e) m)"

text \<open>A missing entry of \<^verbatim>\<open>clientNames\<close> reads as the empty text, so the name \<^verbatim>\<open>""\<close> matches unnamed connections.\<close>

definition conns_named :: "Server \<Rightarrow> string \<Rightarrow> nat list" where
  "conns_named s nm =
     map (\<lambda>e. fst (snd e))
       (filter (\<lambda>e. gat '''' (case sv_clientNames s of None \<Rightarrow> [] | Some m \<Rightarrow> m) (fst e) = nm) (sv_clients s))"

text \<open>\<^verbatim>\<open>RemoveManagedClient\<close> first takes the client out of the index under the lock, and then out of the database.\<close>

definition drop_from_index :: "Server \<Rightarrow> string \<Rightarrow> Server" where
  "drop_from_index s nm = s\<lparr>sv_managed := map_option (drop_managed nm) (sv_managed s)\<rparr>"

definition delete_row :: "Server \<Rightarrow> string \<Rightarrow> bool \<times> Server" where
  "delete_row s nm =
     (case sv_store s of
        None \<Rightarrow> (False, s)
      | Some st \<Rightarrow> (case DeleteClient st nm of (r, st') \<Rightarrow> (r = Inr True, s\<lparr>sv_store := Some st'\<rparr>)))"

definition RemoveManagedClient :: "Server \<Rightarrow> string \<Rightarrow> (tenant_err + unit) \<times> effect list \<times> Server" where
  "RemoveManagedClient s nm =
     (let found = list_ex (\<lambda>e. mc_Name (snd e) = nm) (managed_list s);
          s1 = drop_from_index s nm;
          conns = conns_named s nm;
          (dbDeleted, s2) = delete_row s1 nm
      in if \<not> found \<and> \<not> dbDeleted \<and> conns = [] then (Inl NoSuchClient, [], s2)
         else (Inr (), map Hangup conns, s2))"

definition NotifyClientSync :: "Server \<Rightarrow> string \<Rightarrow> effect list" where
  "NotifyClientSync s nm =
     (case sv_clientNames s of
        None \<Rightarrow> []
      | Some m \<Rightarrow>
          (case find (\<lambda>e. gat '''' m (fst e) = nm) (sv_clients s) of
             None \<Rightarrow> []
           | Some e \<Rightarrow> [Hangup (fst (snd e))]))"

section \<open>Traffic\<close>

definition clientMaxTraffic :: "Server \<Rightarrow> string \<Rightarrow> int" where
  "clientMaxTraffic s nm =
     (let mem = (case find (\<lambda>e. mc_Name (snd e) = nm) (managed_list s) of
                   Some e \<Rightarrow> mc_MaxTrafficBytes (snd e) | None \<Rightarrow> 0)
      in case sv_store s of
           None \<Rightarrow> mem
         | Some st \<Rightarrow> (case GetClient st nm of Inr (Some c) \<Rightarrow> cl_MaxTrafficBytes c | _ \<Rightarrow> mem))"

text \<open>The counters are \<^verbatim>\<open>int64\<close>: sums wrap around.\<close>

definition clientTotalTraffic :: "Server \<Rightarrow> string \<Rightarrow> int" where
  "clientTotalTraffic s nm =
     (case map_of (sv_traffic s) nm of Some ct \<Rightarrow> i64 (ct_BytesIn ct + ct_BytesOut ct) | None \<Rightarrow> 0)"

definition checkTrafficLimit :: "Server \<Rightarrow> string \<Rightarrow> effect list \<times> Server" where
  "checkTrafficLimit s nm =
     (let limit = clientMaxTraffic s nm in
      if limit \<le> 0 then ([], s)
      else if clientTotalTraffic s nm < limit then ([], s)
      else if gat False (sv_notified s) nm then ([], s)
      else ([Webhook ''traffic_limit'' nm], s\<lparr>sv_notified := gput nm True (sv_notified s)\<rparr>))"

definition count_traffic :: "Server \<Rightarrow> string \<Rightarrow> int \<Rightarrow> int \<Rightarrow> Server" where
  "count_traffic s nm i out =
     (let ct = gat \<lparr>ct_BytesIn = 0, ct_BytesOut = 0\<rparr> (sv_traffic s) nm in
      s\<lparr>sv_traffic := gput nm (ct\<lparr>ct_BytesIn := i64 (ct_BytesIn ct + i), ct_BytesOut := i64 (ct_BytesOut ct + out)\<rparr>) (sv_traffic s)\<rparr>)"

definition addClientTraffic :: "Server \<Rightarrow> string \<Rightarrow> int \<Rightarrow> int \<Rightarrow> effect list \<times> Server" where
  "addClientTraffic s nm i out =
     (if nm = '''' \<or> nm = ''default'' then ([], s)
      else
        let s1 = count_traffic s nm i out in
        if i64 (i + out) > 0 then checkTrafficLimit s1 nm else ([], s1))"

definition persist_traffic :: "Server \<Rightarrow> string \<Rightarrow> string \<Rightarrow> int \<Rightarrow> int \<Rightarrow> Server" where
  "persist_traffic s now nm i out =
     (if nm = '''' \<or> nm = ''default'' then s
      else s\<lparr>sv_store := map_option (\<lambda>st. snd (AddTraffic st now nm i out)) (sv_store s)\<rparr>)"

section \<open>Listings\<close>

record ClientTrafficInfo =
  ti_Name :: string
  ti_BytesIn :: int
  ti_BytesOut :: int
  ti_Connected :: bool
  ti_ProxyCount :: int
  ti_MaxTunnels :: int
  ti_MaxTrafficBytes :: int

record ProxyInfo =
  pi_Name :: string
  pi_Type :: string
  pi_RemotePort :: int
  pi_LocalAddr :: string
  pi_LocalPort :: int
  pi_Active :: bool
  pi_BytesIn :: int
  pi_BytesOut :: int

record ClientInfo =
  ci_ID :: string
  ci_Name :: string
  ci_Addr :: string
  ci_ConnectedAt :: "int option"
  ci_ProxyCount :: int

definition GetProxies :: "Server \<Rightarrow> ProxyInfo list" where
  "GetProxies s =
     map (\<lambda>(nm, p). \<lparr>pi_Name = nm, pi_Type = sp_Type p, pi_RemotePort = sp_RemotePort p, pi_LocalAddr = '''', pi_LocalPort = 0,
                     pi_Active = sp_Active p,
                     pi_BytesIn = sp_BytesIn p, pi_BytesOut = sp_BytesOut p\<rparr>) (sv_proxies s)"

text \<open>
  \<^verbatim>\<open>clientConnectedAt\<close>: the nanosecond time after the last \<^verbatim>\<open>-\<close> of a client id (\<open>None\<close> is the empty
  text of the code). Its formatting as a date is not modelled. \<open>addr\<close> gives the peer address text of a connection.
\<close>

definition after_last_dash :: "string \<Rightarrow> string option" where
  "after_last_dash cid =
     (if CHR ''-'' \<in> set cid then Some (rev (takeWhile (\<lambda>c. c \<noteq> CHR ''-'') (rev cid))) else None)"

definition clientConnectedAt :: "string \<Rightarrow> int option" where
  "clientConnectedAt cid =
     (case after_last_dash cid of
        None \<Rightarrow> None
      | Some t \<Rightarrow> if t = [] then None
                  else case Atoi t of None \<Rightarrow> None | Some n \<Rightarrow> if n \<le> 0 then None else Some n)"

definition GetClients :: "(nat \<Rightarrow> string) \<Rightarrow> Server \<Rightarrow> ClientInfo list" where
  "GetClients addr s =
     map (\<lambda>(cid, conn, _). \<lparr>ci_ID = cid,
            ci_Name = (case sv_clientNames s of
                         None \<Rightarrow> ''default''
                       | Some m \<Rightarrow> (case map_of m cid of Some nm \<Rightarrow> nm | None \<Rightarrow> ''default'')),
            ci_Addr = addr conn, ci_ConnectedAt = clientConnectedAt cid,
            ci_ProxyCount = int (length (filter (\<lambda>e. sp_Owner (snd e) = cid) (sv_proxies s)))\<rparr>) (sv_clients s)"

definition Version :: string where "Version = ''v0.5.1''"

record StatusInfo =
  si_Running :: bool
  si_Version :: string
  si_StartTime :: int   \<comment> \<open>the instant; its formatting as a date is not modelled\<close>
  si_BindAddr :: string
  si_BindPort :: int
  si_ClientCount :: nat
  si_ProxyCount :: nat
  si_Proxies :: "ProxyInfo list"
  si_Uptime :: "int \<times> int \<times> int"   \<comment> \<open>days, hours, minutes\<close>

definition GetStatus :: "Server \<Rightarrow> int \<Rightarrow> int \<Rightarrow> StatusInfo" where
  "GetStatus s startTime now =
     (let minutes = (now - startTime) div Minute; hours = minutes div 60 in
      \<lparr>si_Running = True, si_Version = Version, si_StartTime = startTime, si_BindAddr = sc_BindAddr (sv_cfg s), si_BindPort = sc_BindPort (sv_cfg s),
       si_ClientCount = length (sv_clients s), si_ProxyCount = length (sv_proxies s), si_Proxies = GetProxies s,
       si_Uptime = (hours div 24, hours mod 24, minutes mod 60)\<rparr>)"

text \<open>\<^verbatim>\<open>ListClientsTraffic\<close>: the base entries (database first, then the memory index), then the counts.\<close>

definition info_of_row :: "StoreClient \<Rightarrow> ClientTrafficInfo" where
  "info_of_row c = \<lparr>ti_Name = cl_Name c, ti_BytesIn = cl_BytesIn c, ti_BytesOut = cl_BytesOut c, ti_Connected = False,
     ti_ProxyCount = 0, ti_MaxTunnels = cl_MaxTunnels c, ti_MaxTrafficBytes = cl_MaxTrafficBytes c\<rparr>"

definition info_of_managed :: "ManagedClient \<Rightarrow> ClientTrafficInfo" where
  "info_of_managed mc = \<lparr>ti_Name = mc_Name mc, ti_BytesIn = 0, ti_BytesOut = 0, ti_Connected = False,
     ti_ProxyCount = 0, ti_MaxTunnels = mc_MaxTunnels mc, ti_MaxTrafficBytes = mc_MaxTrafficBytes mc\<rparr>"

definition base_map :: "Server \<Rightarrow> (string, ClientTrafficInfo) gomap" where
  "base_map s =
     (let rows = (case sv_store s of None \<Rightarrow> [] | Some st \<Rightarrow> (case ListClients st of Inr rows \<Rightarrow> rows | Inl _ \<Rightarrow> []));
          db = foldl (\<lambda>m c. gput (cl_Name c) (info_of_row c) m) [] rows
      in foldl (\<lambda>m e. if map_of m (mc_Name (snd e)) = None then gput (mc_Name (snd e)) (info_of_managed (snd e)) m else m)
           db (managed_list s))"

definition ListClientsTraffic :: "Server \<Rightarrow> ClientTrafficInfo list" where
  "ListClientsTraffic s =
     map (\<lambda>(nm, b). b\<lparr>ti_Connected := (\<exists>e \<in> set (case sv_clientNames s of None \<Rightarrow> [] | Some m \<Rightarrow> m). snd e = nm),
                      ti_ProxyCount := int (length (filter (\<lambda>e. sp_ClientName (snd e) = nm) (sv_proxies s)))\<rparr>)
       (base_map s)"

definition GetClientTraffic :: "Server \<Rightarrow> string \<Rightarrow> ClientTrafficInfo option" where
  "GetClientTraffic s nm = find (\<lambda>i. ti_Name i = nm) (ListClientsTraffic s)"

section \<open>The tenant table\<close>

text \<open>
  What the two holders of client credentials promise, the memory index and the database table: both
  stand for one finite map from tokens to names, in which neither a name nor a token is given out
  twice. \<open>spec_add\<close> and \<open>spec_del\<close> are the operations of that map.
\<close>

type_synonym tenants = "string \<Rightarrow> string option"

definition spec_add :: "string \<Rightarrow> string \<Rightarrow> tenants \<Rightarrow> tenants" where
  "spec_add nm token T =
     (if nm = '''' \<or> token = '''' \<or> nm \<in> ran T \<or> token \<in> dom T then T else T(token \<mapsto> nm))"

definition spec_del :: "string \<Rightarrow> tenants \<Rightarrow> tenants" where
  "spec_del nm T = (\<lambda>t. if T t = Some nm then None else T t)"

definition one_token_each :: "tenants \<Rightarrow> bool" where
  "one_token_each T \<longleftrightarrow> inj_on T (dom T)"

lemma one_token_each_add: "one_token_each T \<Longrightarrow> one_token_each (spec_add nm token T)"
  unfolding one_token_each_def spec_add_def
  by (simp add: inj_on_def ran_def) (metis domI option.sel)

lemma one_token_each_del: "one_token_each T \<Longrightarrow> one_token_each (spec_del nm T)"
  unfolding one_token_each_def spec_del_def inj_on_def by (auto simp: domIff split: if_splits)

locale tenant_table =
  fixes table :: "'s \<Rightarrow> tenants"
    and add :: "'a \<Rightarrow> 's \<Rightarrow> string \<Rightarrow> string \<Rightarrow> 's"
    and del :: "'s \<Rightarrow> string \<Rightarrow> 's"
    and ok :: "'s \<Rightarrow> bool"
  assumes ok_add: "ok s \<Longrightarrow> nm \<noteq> '''' \<Longrightarrow> token \<noteq> '''' \<Longrightarrow> ok (add a s nm token)"
    and ok_del: "ok s \<Longrightarrow> ok (del s nm)"
    and table_add: "ok s \<Longrightarrow> nm \<noteq> '''' \<Longrightarrow> token \<noteq> '''' \<Longrightarrow> table (add a s nm token) = spec_add nm token (table s)"
    and table_del: "ok s \<Longrightarrow> table (del s nm) = spec_del nm (table s)"
    and table_one: "ok s \<Longrightarrow> one_token_each (table s)"
begin

lemma added_resolves:
  assumes "ok s" "nm \<noteq> ''''" "token \<noteq> ''''" "nm \<notin> ran (table s)" "table s token = None"
  shows "table (add a s nm token) t = (if t = token then Some nm else table s t)"
  using assms by (simp add: table_add spec_add_def domIff)

lemma removed_is_gone: "ok s \<Longrightarrow> nm \<notin> ran (table (del s nm))"
  by (auto simp: table_del spec_del_def ran_def)

lemma removed_keeps_others: "ok s \<Longrightarrow> table s t = Some other \<Longrightarrow> other \<noteq> nm \<Longrightarrow> table (del s nm) t = Some other"
  by (simp add: table_del spec_del_def)

end

text \<open>A table whose operation also refuses empty names and tokens refines the map for every request.\<close>

datatype 'a tenant_op = AddT 'a string string | RemoveT string

fun spec_op :: "tenants \<Rightarrow> 'a tenant_op \<Rightarrow> tenants" where
  "spec_op T (AddT a nm token) = spec_add nm token T"
| "spec_op T (RemoveT nm) = spec_del nm T"

fun do_op :: "('a \<Rightarrow> 's \<Rightarrow> string \<Rightarrow> string \<Rightarrow> 's) \<Rightarrow> ('s \<Rightarrow> string \<Rightarrow> 's) \<Rightarrow> 's \<Rightarrow> 'a tenant_op \<Rightarrow> 's" where
  "do_op add del s (AddT a nm token) = add a s nm token"
| "do_op add del s (RemoveT nm) = del s nm"

locale guarded_tenant_table = tenant_table +
  assumes refuses_empty: "ok s \<Longrightarrow> nm = '''' \<or> token = '''' \<Longrightarrow> ok (add a s nm token) \<and> table (add a s nm token) = table s"
begin

lemma do_op_refines: "ok s \<Longrightarrow> ok (do_op add del s p) \<and> table (do_op add del s p) = spec_op (table s) p"
proof (cases p)
  case (AddT a nm token)
  then show "ok s \<Longrightarrow> ?thesis"
    using ok_add table_add refuses_empty by (cases "nm = '''' \<or> token = ''''") (auto simp: spec_add_def)
next
  case (RemoveT nm)
  then show "ok s \<Longrightarrow> ?thesis" by (simp add: ok_del table_del)
qed

lemma run_refines: "ok s \<Longrightarrow> ok (foldl (do_op add del) s ps) \<and> table (foldl (do_op add del) s ps) = foldl spec_op (table s) ps"
  by (induction ps arbitrary: s) (simp_all add: do_op_refines)

end

section \<open>The memory index and the database as tenant tables\<close>

definition managed_wf :: "(string, ManagedClient) gomap \<Rightarrow> bool" where
  "managed_wf m \<longleftrightarrow> gwf m \<and> distinct (map (\<lambda>e. mc_Name (snd e)) m) \<and> (\<forall>e \<in> set m. mc_Token (snd e) = fst e)"

definition mem_table :: "(string, ManagedClient) gomap \<Rightarrow> tenants" where
  "mem_table m token = map_option mc_Name (map_of m token)"

definition index_add :: "int \<times> int \<Rightarrow> (string, ManagedClient) gomap \<Rightarrow> string \<Rightarrow> string \<Rightarrow> (string, ManagedClient) gomap" where
  "index_add q m nm token =
     (if managed_conflict nm token m \<noteq> None then m
      else gput token \<lparr>mc_Name = nm, mc_Token = token, mc_MaxTunnels = fst q, mc_MaxTrafficBytes = snd q\<rparr> m)"

lemma managed_conflict_None:
  "managed_conflict nm token m = None \<longleftrightarrow> (\<forall>e \<in> set m. mc_Name (snd e) \<noteq> nm \<and> mc_Token (snd e) \<noteq> token)"
  by (induction m) auto

lemma ran_mem_table: "managed_wf m \<Longrightarrow> ran (mem_table m) = (\<lambda>e. mc_Name (snd e)) ` set m"
  unfolding managed_wf_def gwf_def mem_table_def ran_def
  by (auto simp: image_iff) (metis map_of_SomeD prod.exhaust_sel snd_conv, metis map_of_is_SomeI prod.exhaust_sel)

lemma dom_mem_table: "managed_wf m \<Longrightarrow> dom (mem_table m) = (\<lambda>e. mc_Token (snd e)) ` set m"
  unfolding managed_wf_def gwf_def mem_table_def by (auto simp: dom_def dom_map_of_conv_image_fst image_iff map_of_eq_None_iff)

lemma managed_conflict_taken:
  "managed_wf m \<Longrightarrow> managed_conflict nm token m = None \<longleftrightarrow> nm \<notin> ran (mem_table m) \<and> token \<notin> dom (mem_table m)"
  by (auto simp: managed_conflict_None ran_mem_table dom_mem_table)

lemma managed_wf_gput_fresh:
  assumes "managed_wf m" "managed_conflict (mc_Name c) (mc_Token c) m = None"
  shows "managed_wf (gput (mc_Token c) c m)"
proof -
  have "mc_Token c \<notin> fst ` set m" using assms by (force simp: managed_conflict_None managed_wf_def)
  then have "gput (mc_Token c) c m = m @ [(mc_Token c, c)]" by (simp add: gput_fresh map_of_eq_None_iff)
  then show ?thesis using assms by (auto simp: managed_wf_def gwf_def managed_conflict_None image_iff)
qed

lemma managed_wf_filter: "managed_wf m \<Longrightarrow> managed_wf (filter P m)"
  by (auto simp: managed_wf_def distinct_map_filter)

lemma drop_managed_filter:
  assumes "managed_wf m" shows "drop_managed nm m = filter (\<lambda>e. mc_Name (snd e) \<noteq> nm) m"
proof (cases "find (\<lambda>e. mc_Name (snd e) = nm) m")
  case None
  then have "filter (\<lambda>e. mc_Name (snd e) \<noteq> nm) m = m" unfolding find_None_iff filter_id_conv by blast
  with None show ?thesis by (simp add: drop_managed_def)
next
  case (Some e)
  with find_SomeD [OF this] assms have "fst d = fst e \<longleftrightarrow> mc_Name (snd d) = nm" if "d \<in> set m" for d
    using that by (force simp: managed_wf_def gwf_def distinct_map inj_on_def)
  then show ?thesis using Some by (simp add: drop_managed_def gdel_filter cong: filter_cong)
qed

lemma mem_table_filter:
  "managed_wf m \<Longrightarrow> mem_table (filter (\<lambda>e. mc_Name (snd e) \<noteq> nm) m) = spec_del nm (mem_table m)"
  using map_of_filter_gwf [of m "\<lambda>k v. mc_Name v \<noteq> nm"]
  by (auto simp: fun_eq_iff mem_table_def spec_del_def managed_wf_def case_prod_unfold split: option.splits)

lemma mem_table_one: "managed_wf m \<Longrightarrow> one_token_each (mem_table m)"
  unfolding one_token_each_def mem_table_def managed_wf_def gwf_def
  by (auto simp: inj_on_def distinct_map dom_def) (metis map_of_SomeD fst_conv snd_conv)

interpretation mem: tenant_table mem_table index_add "\<lambda>m nm. drop_managed nm m" managed_wf
proof
  fix m :: "(string, ManagedClient) gomap" and nm token :: string and q
  assume m: "managed_wf m"
  show "managed_wf (drop_managed nm m)" "mem_table (drop_managed nm m) = spec_del nm (mem_table m)" "one_token_each (mem_table m)"
    using m by (simp_all add: drop_managed_filter managed_wf_filter mem_table_filter mem_table_one)
  assume ne: "nm \<noteq> ''''" "token \<noteq> ''''"
  show "managed_wf (index_add q m nm token)"
    using managed_wf_gput_fresh [OF m, of "\<lparr>mc_Name = nm, mc_Token = token, mc_MaxTunnels = fst q, mc_MaxTrafficBytes = snd q\<rparr>"] m
    by (simp add: index_add_def)
  show "mem_table (index_add q m nm token) = spec_add nm token (mem_table m)"
    using managed_conflict_taken [OF m, of nm token] ne by (auto simp: index_add_def spec_add_def mem_table_def fun_eq_iff)
qed

text \<open>The database table, while its statements work.\<close>

definition db_ok :: "Store \<Rightarrow> bool" where
  "db_ok st \<longleftrightarrow> store_wf st \<and> (\<forall>q. \<not> fails st q)"

definition db_table :: "Store \<Rightarrow> tenants" where
  "db_table st token = map_option cl_Name (row_at cl_Token (clients_tbl st) token)"

definition db_add :: "string \<times> int \<times> int \<times> string \<Rightarrow> Store \<Rightarrow> string \<Rightarrow> string \<Rightarrow> Store" where
  "db_add a st nm token = (case a of (now, mt, mb, owner) \<Rightarrow> snd (AddClientWithOwner st now nm token mt mb owner))"

lemma fails_kept:
  "fails (snd (AddClientWithOwner st now nm token mt mb owner)) = fails st" "fails (snd (DeleteClient st nm)) = fails st"
  "fails (snd (UpdateClientQuota st now nm mt mb)) = fails st" "fails (snd (AddAPIKey st now k note)) = fails st"
  by (auto simp: store_ops_defs db_exec_snd split: option.splits)

lemma db_table_Some:
  "store_wf st \<Longrightarrow> db_table st token = Some nm \<longleftrightarrow> (\<exists>c \<in> set (clients_tbl st). cl_Token c = token \<and> cl_Name c = nm)"
  using client_token.lookup_row [of "clients_tbl st" token]
  by (auto simp: db_table_def store_wf_def clients_wf_def)

lemma db_table_taken:
  assumes "store_wf st"
  shows "list_ex (client_clash r) (clients_tbl st) \<longleftrightarrow> cl_Name r \<in> ran (db_table st) \<or> cl_Token r \<in> dom (db_table st)"
  unfolding list_ex_iff client_clash_def ran_def domIff mem_Collect_eq db_table_Some [OF assms] not_None_eq
  by metis

lemma db_table_add:
  assumes "db_ok st" "nm \<noteq> ''''" "token \<noteq> ''''"
  shows "db_table (db_add a st nm token) = spec_add nm token (db_table st)"
proof -
  obtain now mt mb owner where a: "a = (now, mt, mb, owner)" by (cases a)
  let ?r = "\<lparr>cl_ID = Suc (clients_seq st), cl_Name = nm, cl_Token = token, cl_MaxTunnels = mt,
         cl_MaxTrafficBytes = mb, cl_BytesIn = 0, cl_BytesOut = 0, cl_Status = ''active'',
         cl_Owner = owner, cl_CreatedAt = now, cl_UpdatedAt = now\<rparr>"
  have taken: "list_ex (client_clash ?r) (clients_tbl st) \<longleftrightarrow> nm \<in> ran (db_table st) \<or> token \<in> dom (db_table st)"
    using db_table_taken [of st ?r] assms(1) by (simp add: db_ok_def)
  show ?thesis
  proof (cases "list_ex (client_clash ?r) (clients_tbl st)")
    case True
    then show ?thesis using taken assms(1)
      by (auto simp: a db_add_def AddClientWithOwner_def db_exec_def sql_insert_def spec_add_def)
  next
    case False
    then have i: "sql_insert client_clash ?r (clients_tbl st) = Some (clients_tbl st @ [?r])"
      by (simp add: sql_insert_def)
    then have "db_add a st nm token = st\<lparr>clients_tbl := clients_tbl st @ [?r], clients_seq := Suc (clients_seq st)\<rparr>"
      using assms(1) by (simp add: a db_add_def AddClientWithOwner_def db_exec_def db_ok_def)
    then show ?thesis
      using taken False assms(2,3) client_token.lookup_insert(1) [OF i]
      by (auto simp: spec_add_def db_table_def fun_eq_iff)
  qed
qed

lemma db_table_del:
  assumes "db_ok st" shows "db_table (snd (DeleteClient st nm)) = spec_del nm (db_table st)"
proof
  fix t
  have w: "store_wf (snd (DeleteClient st nm))" and w0: "store_wf st"
    using assms store_wf_clients_ops by (auto simp: db_ok_def)
  have rows: "c \<in> set (clients_tbl (snd (DeleteClient st nm))) \<longleftrightarrow> c \<in> set (clients_tbl st) \<and> cl_Name c \<noteq> nm" for c
    using assms by (auto simp: DeleteClient_def db_exec_def db_ok_def sql_delete_def)
  have "db_table (snd (DeleteClient st nm)) t = Some n \<longleftrightarrow> db_table st t = Some n \<and> n \<noteq> nm" for n
    unfolding db_table_Some [OF w] db_table_Some [OF w0] Bex_def rows by metis
  then have "db_table (snd (DeleteClient st nm)) t = Some n \<longleftrightarrow> spec_del nm (db_table st) t = Some n" for n
    by (auto simp: spec_del_def)
  then show "db_table (snd (DeleteClient st nm)) t = spec_del nm (db_table st) t" by (rule option_ext)
qed

lemma db_table_one:
  assumes "db_ok st" shows "one_token_each (db_table st)"
  unfolding one_token_each_def
proof (rule inj_onI)
  fix x y assume "x \<in> dom (db_table st)" and e: "db_table st x = db_table st y"
  then obtain n where "db_table st x = Some n" "db_table st y = Some n" by (metis domD)
  then obtain c d where "c \<in> set (clients_tbl st)" "d \<in> set (clients_tbl st)"
    and k: "cl_Name c = n" "cl_Name d = n" "cl_Token c = x" "cl_Token d = y"
    using assms unfolding db_ok_def by (metis db_table_Some)
  then have "c = d" using assms by (metis client_name.lookup_row clients_wf_def db_ok_def option.inject store_wf_def)
  then show "x = y" using k by simp
qed

interpretation db: tenant_table db_table db_add "\<lambda>st nm. snd (DeleteClient st nm)" db_ok
proof
  fix st and nm token :: string and a :: "string \<times> int \<times> int \<times> string"
  assume st: "db_ok st"
  show "db_table (snd (DeleteClient st nm)) = spec_del nm (db_table st)" "one_token_each (db_table st)"
    using st by (rule db_table_del, rule db_table_one)
  show "db_ok (snd (DeleteClient st nm))"
    using st store_wf_clients_ops(2) by (simp add: db_ok_def fails_kept)
  assume "nm \<noteq> ''''" "token \<noteq> ''''"
  with st show "db_table (db_add a st nm token) = spec_add nm token (db_table st)" by (rule db_table_add)
  show "db_ok (db_add a st nm token)"
    using st store_wf_clients_ops(1) by (simp add: db_ok_def db_add_def fails_kept split: prod.split)
qed

section \<open>The server keeps both tables in step\<close>

definition synced :: "Server \<Rightarrow> bool" where
  "synced s \<longleftrightarrow> managed_wf (managed_list s) \<and>
     (case sv_store s of None \<Rightarrow> False | Some st \<Rightarrow> db_ok st \<and> db_table st = mem_table (managed_list s))"

definition tenants_of :: "Server \<Rightarrow> tenants" where
  "tenants_of s = mem_table (managed_list s)"

definition srv_add :: "string \<times> int \<times> int \<times> string \<Rightarrow> Server \<Rightarrow> string \<Rightarrow> string \<Rightarrow> Server" where
  "srv_add a s nm token = (case a of (now, mt, mb, owner) \<Rightarrow> snd (AddManagedClientWithOwner s now nm token mt mb owner))"

definition srv_del :: "Server \<Rightarrow> string \<Rightarrow> Server" where
  "srv_del s nm = snd (snd (RemoveManagedClient s nm))"

lemma managed_list_simps [simp]:
  "managed_list (s\<lparr>sv_managed := Some m\<rparr>) = m" "managed_list (s\<lparr>sv_store := st\<rparr>) = managed_list s"
  "managed_list (index_client s nm token mt mb) =
     gput token \<lparr>mc_Name = nm, mc_Token = token, mc_MaxTunnels = mt, mc_MaxTrafficBytes = mb\<rparr> (managed_list s)"
  "sv_store (index_client s nm token mt mb) = sv_store s"
  by (simp_all add: managed_list_def index_client_def)

lemma GetClient_absent: "db_ok st \<Longrightarrow> nm \<notin> ran (db_table st) \<Longrightarrow> GetClient st nm = Inr None"
  unfolding GetClient_def db_query_def db_ok_def ran_def mem_Collect_eq
  by (auto simp: db_table_Some find_None_iff)

lemma srv_add_managed:
  assumes "nm \<noteq> ''''" "token \<noteq> ''''"
  shows "managed_list (srv_add (now, mt, mb, owner) s nm token) = index_add (mt, mb) (managed_list s) nm token"
  using assms
  by (auto simp: srv_add_def AddManagedClientWithOwner_def index_add_def Let_def split: option.splits sum.splits prod.splits)

lemma srv_add_store:
  assumes "synced s" "nm \<noteq> ''''" "token \<noteq> ''''" "sv_store s = Some st"
  shows "\<exists>st'. sv_store (srv_add (now, mt, mb, owner) s nm token) = Some st' \<and> db_ok st' \<and>
    db_table st' = spec_add nm token (db_table st)"
proof (cases "managed_conflict nm token (managed_list s)")
  case None
  then have "nm \<notin> ran (db_table st)"
    using assms managed_conflict_taken [of "managed_list s" nm token] by (simp add: synced_def)
  then have "GetClient st nm = Inr None" using assms(1,4) by (simp add: synced_def GetClient_absent)
  then have "sv_store (srv_add (now, mt, mb, owner) s nm token) = Some (db_add (now, mt, mb, owner) st nm token)"
    using None assms by (simp add: srv_add_def AddManagedClientWithOwner_def db_add_def Let_def split: prod.split sum.split)
  then show ?thesis using assms db.table_add db.ok_add by (auto simp: synced_def)
next
  case (Some e)
  then have "spec_add nm token (db_table st) = db_table st"
    using assms managed_conflict_taken [of "managed_list s" nm token] by (auto simp: synced_def spec_add_def)
  then show ?thesis using Some assms by (simp add: srv_add_def AddManagedClientWithOwner_def synced_def)
qed

lemma srv_del_parts:
  "managed_list (srv_del s nm) = drop_managed nm (managed_list s)"
  "sv_store (srv_del s nm) = map_option (\<lambda>st. snd (DeleteClient st nm)) (sv_store s)"
  "sv_cfg (srv_del s nm) = sv_cfg s"
  by (auto simp: srv_del_def RemoveManagedClient_def drop_from_index_def delete_row_def managed_list_def drop_managed_def Let_def
      split: option.splits prod.splits)

interpretation srv: guarded_tenant_table tenants_of srv_add srv_del synced
proof
  fix s and nm token :: string and a :: "string \<times> int \<times> int \<times> string"
  assume s: "synced s"
  then obtain st where st: "sv_store s = Some st" "db_ok st" "db_table st = tenants_of s" "managed_wf (managed_list s)"
    by (auto simp: synced_def tenants_of_def split: option.splits)
  show "tenants_of (srv_del s nm) = spec_del nm (tenants_of s)"
    using mem.table_del [OF st(4)] by (simp add: tenants_of_def srv_del_parts)
  then show "synced (srv_del s nm)"
    using st mem.ok_del [OF st(4)] db.ok_del [OF st(2)] db.table_del [OF st(2)]
    by (simp add: synced_def srv_del_parts tenants_of_def)
  show "one_token_each (tenants_of s)" using mem.table_one [OF st(4)] by (simp add: tenants_of_def)
  obtain now mt mb owner where a: "a = (now, mt, mb, owner)" by (cases a)
  show "synced (srv_add a s nm token) \<and> tenants_of (srv_add a s nm token) = tenants_of s" if "nm = '''' \<or> token = ''''"
    using that s by (auto simp: a srv_add_def AddManagedClientWithOwner_def)
  assume ne: "nm \<noteq> ''''" "token \<noteq> ''''"
  show t: "tenants_of (srv_add a s nm token) = spec_add nm token (tenants_of s)"
    using mem.table_add [OF st(4) ne] by (simp add: a tenants_of_def srv_add_managed [OF ne])
  obtain st' where "sv_store (srv_add a s nm token) = Some st'" "db_ok st'" "db_table st' = spec_add nm token (db_table st)"
    using srv_add_store [OF s ne st(1)] a by blast
  then show "synced (srv_add a s nm token)"
    using t st(3) mem.ok_add [OF st(4) ne] by (simp add: synced_def a srv_add_managed [OF ne] tenants_of_def)
qed

text \<open>Start-up: the index built from the rows is the database table.\<close>

lemma foldl_gput_distinct:
  "distinct (map f xs) \<Longrightarrow> \<forall>x \<in> set xs. f x \<notin> fst ` set m \<Longrightarrow>
   foldl (\<lambda>m x. gput (f x) (g x) m) m xs = m @ map (\<lambda>x. (f x, g x)) xs"
proof (induction xs arbitrary: m)
  case (Cons x xs)
  then have "gput (f x) (g x) m = m @ [(f x, g x)]" by (simp add: gput_fresh map_of_eq_None_iff)
  moreover have "\<forall>y \<in> set xs. f y \<notin> fst ` set (m @ [(f x, g x)])" using Cons.prems by simp (metis image_eqI)
  ultimately show ?case using Cons.prems(1) Cons.IH [of "m @ [(f x, g x)]"] by simp
qed simp

lemma index_of_rows_map:
  "distinct (map cl_Token rows) \<Longrightarrow> index_of_rows rows = map (\<lambda>c. (cl_Token c, managed_of_row c)) rows"
  by (simp add: index_of_rows_def foldl_gput_distinct)

lemma managed_of_row_simps [simp]: "mc_Name (managed_of_row c) = cl_Name c" "mc_Token (managed_of_row c) = cl_Token c"
  by (simp_all add: managed_of_row_def)

lemma mem_table_rows: "mem_table (map (\<lambda>c. (cl_Token c, managed_of_row c)) rows) t = map_option cl_Name (row_at cl_Token rows t)"
  by (induction rows) (auto simp: mem_table_def)

lemma managed_wf_rows:
  assumes "clients_wf rows sq" shows "managed_wf (map (\<lambda>c. (cl_Token c, managed_of_row c)) rows)"
  using assms by (simp add: managed_wf_def clients_wf_def gwf_def comp_def)

lemma AddClient_grows:
  "clients_tbl st \<noteq> [] \<Longrightarrow> clients_tbl (snd (AddClientWithOwner st now nm token mt mb owner)) \<noteq> []"
  by (simp add: AddClientWithOwner_def db_exec_snd sql_insert_def)

lemma AddClient_nonempty: "db_ok st \<Longrightarrow> clients_tbl (snd (AddClientWithOwner st now nm token mt mb owner)) \<noteq> []"
  by (auto simp: AddClientWithOwner_def db_exec_snd sql_insert_def db_ok_def)

lemma seed_clients_ok:
  assumes "db_ok st"
  shows "db_ok (seed_clients now cs st)" and "clients_tbl st \<noteq> [] \<Longrightarrow> clients_tbl (seed_clients now cs st) \<noteq> []"
    and "(\<exists>c \<in> set cs. mc_Name c \<noteq> '''' \<and> mc_Token c \<noteq> '''') \<Longrightarrow> clients_tbl (seed_clients now cs st) \<noteq> []"
proof -
  have "db_ok (seed_clients now cs st) \<and>
      (clients_tbl st \<noteq> [] \<or> (\<exists>c \<in> set cs. mc_Name c \<noteq> '''' \<and> mc_Token c \<noteq> '''') \<longrightarrow> clients_tbl (seed_clients now cs st) \<noteq> [])"
    using assms
  proof (induction cs arbitrary: st)
    case (Cons c cs)
    define st1 where "st1 = (if mc_Name c = '''' \<or> mc_Token c = '''' then st
        else case GetClient st (mc_Name c) of
          Inr (Some _) \<Rightarrow> st
        | _ \<Rightarrow> snd (AddClient st now (mc_Name c) (mc_Token c) (mc_MaxTunnels c) (mc_MaxTrafficBytes c)))"
    have "db_ok st1" using Cons.prems db.ok_add
      by (auto simp: st1_def AddClient_def db_ok_def fails_kept store_wf_clients_ops split: sum.splits option.splits)
    moreover have "clients_tbl st \<noteq> [] \<Longrightarrow> clients_tbl st1 \<noteq> []"
      by (auto simp: st1_def AddClient_def AddClient_grows split: sum.splits option.splits)
    moreover have "mc_Name c \<noteq> '''' \<and> mc_Token c \<noteq> '''' \<Longrightarrow> clients_tbl st1 \<noteq> []"
      using Cons.prems by (auto simp: st1_def AddClient_def AddClient_nonempty GetClient_def db_query_def db_ok_def
          split: sum.splits option.splits if_splits)
    ultimately show ?case using Cons.IH [of st1] by (auto simp: st1_def [symmetric])
  qed simp
  then show "db_ok (seed_clients now cs st)" and "clients_tbl st \<noteq> [] \<Longrightarrow> clients_tbl (seed_clients now cs st) \<noteq> []"
    and "(\<exists>c \<in> set cs. mc_Name c \<noteq> '''' \<and> mc_Token c \<noteq> '''') \<Longrightarrow> clients_tbl (seed_clients now cs st) \<noteq> []"
    by blast+
qed

lemma seed_keys_ok: "db_ok st \<Longrightarrow> db_ok (seed_keys now ks st)"
proof (induction ks arbitrary: st)
  case (Cons k ks)
  then have "db_ok (snd (AddAPIKey st now k ''config seed''))" by (simp add: db_ok_def fails_kept store_wf_key_ops)
  with Cons show ?case by (auto split: sum.split bool.split)
qed simp

lemma seed_keys_clients: "clients_tbl (seed_keys now ks st) = clients_tbl st"
proof (induction ks arbitrary: st)
  case (Cons k ks)
  have "clients_tbl (snd (AddAPIKey st now k ''config seed'')) = clients_tbl st"
    by (simp add: AddAPIKey_def db_exec_snd split: option.split)
  with Cons show ?case by (simp split: sum.split bool.split)
qed simp

lemma index_of_config_invalid:
  assumes "\<not> (\<exists>c \<in> set cs. mc_Name c \<noteq> '''' \<and> mc_Token c \<noteq> '''')" shows "index_of_config cs = []"
proof -
  have "foldl (\<lambda>m c. if mc_Name c = '''' \<or> mc_Token c = '''' then m else gput (mc_Token c) c m) m cs = m" for m
    using assms by (induction cs arbitrary: m) auto
  then show ?thesis by (simp add: index_of_config_def)
qed

lemma start_server_synced:
  assumes "db_ok st0" shows "synced (start_server now cfg g st0)"
proof -
  define st where "st = seed_keys now (sc_APIKeys cfg) (seed_clients now (sc_Clients cfg) st0)"
  have ok: "db_ok st" using assms by (simp add: st_def seed_keys_ok seed_clients_ok)
  then have rows: "ListClients st = Inr (clients_tbl st)" by (simp add: ListClients_def db_query_def db_ok_def)
  define m where "m = managed_list (start_server now cfg g st0)"
  have store: "sv_store (start_server now cfg g st0) = Some st"
    by (simp add: start_server_def fresh_server_def Let_def st_def)
  have "m = map (\<lambda>c. (cl_Token c, managed_of_row c)) (clients_tbl st)"
  proof (cases "clients_tbl st = []")
    case True
    then have "index_of_config (sc_Clients cfg) = []"
      using seed_clients_ok(3) [OF assms] by (intro index_of_config_invalid) (metis st_def seed_keys_clients)
    with True rows show ?thesis
      by (simp add: m_def start_server_def Let_def st_def [symmetric] managed_list_def fresh_server_def)
  next
    case False
    then show ?thesis using rows ok
      by (simp add: m_def start_server_def Let_def st_def [symmetric] managed_list_def fresh_server_def index_of_rows_map
          db_ok_def store_wf_def clients_wf_def)
  qed
  moreover have "clients_wf (clients_tbl st) (clients_seq st)" using ok by (simp add: db_ok_def store_wf_def)
  ultimately show ?thesis
    using ok store managed_wf_rows by (simp add: synced_def m_def db_table_def mem_table_rows fun_eq_iff)
qed

section \<open>Properties\<close>

text \<open>
  C6: From a start on a working database, through any sequence of requests to add and to remove
  managed clients, the memory index and the database table both implement one map from tokens to
  client names: an addition is refused for empty, used names and used tokens and changes that one token
  otherwise, a removal takes away exactly the tokens of that name, and no name ever has two tokens.
\<close>
theorem tenant_tables_refine_map:
  assumes "db_ok st0" and "s0 = start_server now cfg g st0" and "s = foldl (do_op srv_add srv_del) s0 ops"
  shows "tenants_of s = foldl spec_op (tenants_of s0) ops \<and> one_token_each (tenants_of s) \<and>
    (\<exists>st. sv_store s = Some st \<and> db_table st = tenants_of s)"
proof -
  have "synced s" and t: "tenants_of s = foldl spec_op (tenants_of s0) ops"
    using srv.run_refines [OF start_server_synced [OF assms(1)], of now cfg g ops] assms(2,3) by simp_all
  then show ?thesis using srv.table_one [of s] by (auto simp: synced_def tenants_of_def split: option.splits)
qed

theorem tenant_tables_refine_map_witness:
  "db_ok empty_store \<and>
   tenants_of (foldl (do_op srv_add srv_del) (start_server ''t0'' DefaultServerConfig NewConnGuard empty_store)
      [AddT (''t1'', 5, 0, ''bob'') ''edge'' ''tok'', AddT (''t2'', 5, 0, ''bob'') ''edge'' ''tok2'', AddT (''t3'', 1, 0, ''al'') ''lab'' ''x'',
       RemoveT ''lab'']) ''tok'' = Some ''edge''"
proof -
  let ?ops = "[AddT (''t1'', 5, 0, ''bob'') ''edge'' ''tok'', AddT (''t2'', 5, 0, ''bob'') ''edge'' ''tok2'', AddT (''t3'', 1, 0, ''al'') ''lab'' ''x'',
       RemoveT ''lab'']"
  have ok: "db_ok empty_store" using empty_store_wf by (simp add: db_ok_def empty_store_def)
  have m: "tenants_of (start_server ''t0'' DefaultServerConfig NewConnGuard empty_store) = (\<lambda>_. None)"
    by (simp add: start_server_def DefaultServerConfig_def empty_store_def ListClients_def db_query_def fresh_server_def
        tenants_of_def managed_list_def mem_table_def fun_eq_iff)
  show ?thesis
    using ok tenant_tables_refine_map [OF ok refl refl, of "''t0''" DefaultServerConfig NewConnGuard ?ops]
    by (simp add: m spec_add_def spec_del_def)
qed

text \<open>
  C12: Removing a managed client revokes its credentials: on a working database, and with no login of that
  client running at the same time, the request succeeds when the client is known, every control connection logged in under that name is hung up, and its token no
  longer logs anybody in (only the server's own main token would still be accepted).
\<close>
theorem client_removal_revokes:
  assumes "synced s" and "tenants_of s token = Some nm" and "RemoveManagedClient s nm = (r, effs, t)"
  shows "r = Inr () \<and> effs = map Hangup (conns_named s nm) \<and>
    fst (check_token t token) = (if token = sc_Token (sv_cfg s) then Some ''default'' else None)"
proof -
  have t: "t = srv_del s nm" using assms(3) by (simp add: srv_del_def)
  have gone: "tenants_of t token = None"
    using srv.table_del [OF assms(1), of nm] assms(2) by (simp add: t spec_del_def)
  obtain st where st: "sv_store t = Some st" "db_ok st" "db_table st = tenants_of t"
    using srv.ok_del [OF assms(1), of nm] by (auto simp: t synced_def tenants_of_def split: option.splits)
  have "map_of (managed_list t) token = None" using gone by (simp add: tenants_of_def mem_table_def)
  moreover have "GetClientByToken st token = Inr None"
    using st gone client_token.lookup_and [of "clients_tbl st" token "\<lambda>c. cl_Status c = ''active''"]
    by (auto simp: GetClientByToken_def db_query_def db_ok_def store_wf_def clients_wf_def db_table_def fun_eq_iff
        split: option.splits dest!: spec [of _ token])
  moreover have "sv_cfg t = sv_cfg s" by (simp add: t srv_del_parts)
  ultimately have i: "identity_of t token = (if token = sc_Token (sv_cfg s) then Some ''default'' else None)"
    using st(1) by (simp add: identity_of_def)
  have "list_ex (\<lambda>e. mc_Name (snd e) = nm) (managed_list s)"
    using assms(2) by (auto simp: tenants_of_def mem_table_def list_ex_iff dest!: map_of_SomeD intro!: bexI)
  then show ?thesis
    using assms(3) i by (auto simp: RemoveManagedClient_def Let_def check_token_identity split: prod.splits)
qed

definition demo_server :: Server where
  "demo_server = register_connection
     (snd (AddManagedClient (start_server ''t0'' DefaultServerConfig NewConnGuard empty_store) ''t1'' ''edge'' ''tok'' 5 100 ''bob''))
     ''c1'' 7 ''9.9.9.9'' ''edge''"

lemma empty_store_ok: "db_ok empty_store"
  using empty_store_wf by (simp add: db_ok_def empty_store_def)

lemma demo_server_synced: "synced demo_server" "tenants_of demo_server ''tok'' = Some ''edge''"
proof -
  let ?s0 = "start_server ''t0'' DefaultServerConfig NewConnGuard empty_store"
  have m: "tenants_of ?s0 = (\<lambda>_. None)"
    by (simp add: start_server_def DefaultServerConfig_def empty_store_def ListClients_def db_query_def fresh_server_def
        tenants_of_def managed_list_def mem_table_def fun_eq_iff)
  have q: "managed_list (register_connection s a b c d) = managed_list s" "sv_store (register_connection s a b c d) = sv_store s" for s a b c d
    by (simp_all add: register_connection_def Let_def managed_list_def)
  have r: "synced (register_connection s a b c d) = synced s" "tenants_of (register_connection s a b c d) = tenants_of s" for s a b c d
    unfolding synced_def tenants_of_def q by simp_all
  have d: "demo_server = register_connection (srv_add (''t1'', 5, 100, ''bob'') ?s0 ''edge'' ''tok'') ''c1'' 7 ''9.9.9.9'' ''edge''"
    by (simp add: demo_server_def srv_add_def AddManagedClient_def)
  show "synced demo_server" "tenants_of demo_server ''tok'' = Some ''edge''"
    using srv.ok_add [of ?s0 "''edge''" "''tok''"] srv.table_add [of ?s0 "''edge''" "''tok''"] start_server_synced [OF empty_store_ok]
    by (simp_all add: d r m spec_add_def)
qed

theorem client_removal_revokes_witness:
  "\<exists>effs t. RemoveManagedClient demo_server ''edge'' = (Inr (), effs, t) \<and> Hangup 7 \<in> set effs \<and> fst (check_token t ''tok'') = None"
proof -
  obtain r effs t where rm: "RemoveManagedClient demo_server ''edge'' = (r, effs, t)" by (metis prod_cases3)
  have c: "conns_named demo_server ''edge'' = [7]" and k: "sc_Token (sv_cfg demo_server) \<noteq> ''tok''"
    by (simp_all add: conns_named_def demo_server_def register_connection_def AddManagedClient_def AddManagedClientWithOwner_def
        start_server_def DefaultServerConfig_def empty_store_def ListClients_def db_query_def fresh_server_def Let_def
        managed_list_def index_client_def GetClient_def AddClientWithOwner_def db_exec_def sql_insert_def gat_def)
  show ?thesis
    using client_removal_revokes [OF demo_server_synced rm] rm c k by auto
qed

text \<open>
  An error of the database during the removal is not reported: the request still answers success, the
  row stays, and the removed client's token logs in again (the login falls back to the database).
\<close>
theorem failed_delete_keeps_token_valid:
  assumes "sv_store s = Some st" and "fails st OpDeleteClient" and "GetClientByToken st token = Inr (Some c)"
    and "cl_Name c = nm" and "nm \<noteq> ''''" and "managed_wf (managed_list s)"
    and "mem_table (managed_list s) token = Some nm" and "RemoveManagedClient s nm = (r, effs, t)"
  shows "r = Inr () \<and> mem_table (managed_list t) token = None \<and> fst (check_token t token) = Some nm"
proof -
  have t: "t = srv_del s nm" using assms(8) by (simp add: srv_del_def)
  have gone: "mem_table (managed_list t) token = None"
    using mem.table_del [OF assms(6), of nm] assms(7) by (simp add: t srv_del_parts spec_del_def)
  have "sv_store t = Some st" using assms(1,2) by (simp add: t srv_del_parts DeleteClient_def db_exec_snd)
  then have "identity_of t token = Some nm"
    using gone assms(3-5) by (simp add: identity_of_def mem_table_def)
  moreover have "list_ex (\<lambda>e. mc_Name (snd e) = nm) (managed_list s)"
    using assms(7) by (auto simp: mem_table_def list_ex_iff dest!: map_of_SomeD intro!: bexI)
  ultimately show ?thesis
    using assms(8) gone by (auto simp: RemoveManagedClient_def Let_def check_token_identity split: prod.splits)
qed

theorem failed_delete_keeps_token_valid_witness:
  "\<exists>s t effs. RemoveManagedClient s ''edge'' = (Inr (), effs, t) \<and> fst (check_token t ''tok'') = Some ''edge''"
proof -
  let ?c = "\<lparr>cl_ID = 1, cl_Name = ''edge'', cl_Token = ''tok'', cl_MaxTunnels = 0, cl_MaxTrafficBytes = 0, cl_BytesIn = 0, cl_BytesOut = 0,
     cl_Status = ''active'', cl_Owner = '''', cl_CreatedAt = '''', cl_UpdatedAt = ''''\<rparr>"
  let ?st = "empty_store\<lparr>clients_tbl := [?c], fails := (\<lambda>q. q = OpDeleteClient)\<rparr>"
  let ?s = "fresh_server DefaultServerConfig NewConnGuard (Some [(''tok'', managed_of_row ?c)]) (Some ?st)"
  obtain r effs t where rm: "RemoveManagedClient ?s ''edge'' = (r, effs, t)" by (metis prod_cases3)
  have "r = Inr () \<and> mem_table (managed_list t) ''tok'' = None \<and> fst (check_token t ''tok'') = Some ''edge''"
    by (rule failed_delete_keeps_token_valid [OF _ _ _ _ _ _ _ rm, of ?st _ ?c])
      (simp_all add: fresh_server_def empty_store_def GetClientByToken_def db_query_def managed_wf_def managed_list_def
        managed_of_row_def gwf_def mem_table_def)
  with rm show ?thesis by blast
qed

section \<open>A login during a removal\<close>

text \<open>
  The removal takes the lock, drops the index entry and lets the lock go before it deletes the row. The token
  check reads the index, then asks the database, then takes the lock to enter the row into the index. The five
  steps of one removal and one login, which the two goroutines may interleave:
\<close>

datatype race_step = DropIndex | DeleteRow | PeekIndex | QueryRow | CacheRow

record race =
  rc_srv :: Server
  rc_hit :: bool
  rc_row :: "StoreClient option"

fun race_do :: "string \<Rightarrow> string \<Rightarrow> race \<Rightarrow> race_step \<Rightarrow> race" where
  "race_do nm token x DropIndex = x\<lparr>rc_srv := drop_from_index (rc_srv x) nm\<rparr>"
| "race_do nm token x DeleteRow = x\<lparr>rc_srv := snd (delete_row (rc_srv x) nm)\<rparr>"
| "race_do nm token x PeekIndex =
     x\<lparr>rc_hit := (case map_of (managed_list (rc_srv x)) token of Some mc \<Rightarrow> mc_Name mc \<noteq> '''' | None \<Rightarrow> False)\<rparr>"
| "race_do nm token x QueryRow = x\<lparr>rc_row := (if rc_hit x then None else token_row (rc_srv x) token)\<rparr>"
| "race_do nm token x CacheRow =
     (case rc_row x of None \<Rightarrow> x | Some c \<Rightarrow> x\<lparr>rc_srv := cache_client token c (rc_srv x)\<rparr>)"

definition race_run :: "string \<Rightarrow> string \<Rightarrow> Server \<Rightarrow> race_step list \<Rightarrow> Server" where
  "race_run nm token s steps = rc_srv (foldl (race_do nm token) \<lparr>rc_srv = s, rc_hit = False, rc_row = None\<rparr> steps)"

definition before :: "'a \<Rightarrow> 'a \<Rightarrow> 'a list \<Rightarrow> bool" where
  "before a b xs \<longleftrightarrow> a \<in> set (takeWhile (\<lambda>e. e \<noteq> b) xs)"

text \<open>Run without interruption, the steps are the removal and the token check.\<close>

lemma race_run_alone:
  "race_run nm token s [DropIndex, DeleteRow] = srv_del s nm"
  "race_run nm token s [PeekIndex, QueryRow, CacheRow] = snd (check_token s token)"
  by (auto simp: race_run_def srv_del_def RemoveManagedClient_def check_token_def lookup_token_def Let_def
      split: option.splits prod.splits)

lemma race_parts [simp]:
  "managed_list (drop_from_index s nm) = drop_managed nm (managed_list s)"
  "sv_store (drop_from_index s nm) = sv_store s" "sv_cfg (drop_from_index s nm) = sv_cfg s"
  "managed_list (snd (delete_row s nm)) = managed_list s"
  "sv_store (snd (delete_row s nm)) = map_option (\<lambda>st. snd (DeleteClient st nm)) (sv_store s)"
  "sv_cfg (snd (delete_row s nm)) = sv_cfg s"
  "managed_list (cache_client token c s) = gput token (managed_of_row c) (managed_list s)"
  "sv_store (cache_client token c s) = sv_store s" "sv_cfg (cache_client token c s) = sv_cfg s"
  by (auto simp: drop_from_index_def delete_row_def cache_client_def managed_list_def drop_managed_def Let_def
      split: option.splits prod.splits)

lemma deleted_row_is_gone:
  assumes "db_ok st" and "db_table st token = Some nm"
  shows "GetClientByToken (snd (DeleteClient st nm)) token = Inr None"
proof -
  have "db_table (snd (DeleteClient st nm)) token = None"
    using db_table_del [OF assms(1), of nm] assms(2) by (simp add: spec_del_def)
  moreover have "db_ok (snd (DeleteClient st nm))" by (rule db.ok_del [OF assms(1)])
  ultimately show ?thesis
    using client_token.lookup_and [of "clients_tbl (snd (DeleteClient st nm))" token "\<lambda>c. cl_Status c = ''active''"]
    by (simp add: GetClientByToken_def db_query_def db_ok_def store_wf_def clients_wf_def db_table_def)
qed

text \<open>
  C24: A login that overlaps the removal of its client can undo the revocation. Over every interleaving of the
  steps of one removal and one login with the removed token, on a working database with both tables in step:
  the token is accepted afterwards exactly when the login looked into the index after the removal had dropped
  the entry and into the database before the removal deleted the row; the login then enters the token back into the
  index, where it stays although its row is gone. In every other order the token is refused afterwards.
\<close>
theorem removal_overlapping_login:
  assumes "synced s" and "sv_store s = Some st" and "GetClientByToken st token = Inr (Some c)"
    and "cl_Name c = nm" and "tenants_of s token = Some nm" and "nm \<noteq> ''''" and "token \<noteq> sc_Token (sv_cfg s)"
    and "steps \<in> shuffles [DropIndex, DeleteRow] [PeekIndex, QueryRow, CacheRow]"
  shows "fst (check_token (race_run nm token s steps) token) =
      (if before DropIndex PeekIndex steps \<and> before QueryRow DeleteRow steps then Some nm else None) \<and>
    db_table (the (sv_store (race_run nm token s steps))) token = None"
proof -
  obtain mc where mc: "map_of (managed_list s) token = Some mc" "mc_Name mc = nm"
    using assms(5) by (auto simp: tenants_of_def mem_table_def)
  have wf: "managed_wf (managed_list s)" "db_ok st" "db_table st token = Some nm"
    using assms(1,2,5) by (simp_all add: synced_def tenants_of_def)
  have gone: "map_of (drop_managed nm (managed_list s)) token = None"
    using fun_cong [OF mem.table_del [OF wf(1), of nm], of token] mc by (simp add: mem_table_def spec_del_def)
  note row = deleted_row_is_gone [OF wf(2,3)]
  have del: "db_table (snd (DeleteClient st nm)) token = None"
    using db_table_del [OF wf(2), of nm] wf(3) by (simp add: spec_del_def)
  from assms(8) show ?thesis
    using mc gone row del assms(2-4,6,7)
    by (auto simp: race_run_def before_def token_row_def check_token_identity identity_of_def)
qed

theorem removal_overlapping_login_witness:
  "fst (check_token (race_run ''edge'' ''tok'' demo_server [DropIndex, PeekIndex, QueryRow, DeleteRow, CacheRow]) ''tok'') = Some ''edge'' \<and>
   fst (check_token (race_run ''edge'' ''tok'' demo_server [PeekIndex, DropIndex, QueryRow, DeleteRow, CacheRow]) ''tok'') = None"
proof -
  obtain st c where st: "sv_store demo_server = Some st" "GetClientByToken st ''tok'' = Inr (Some c)" "cl_Name c = ''edge''"
    by (simp add: demo_server_def register_connection_def AddManagedClient_def AddManagedClientWithOwner_def
        start_server_def DefaultServerConfig_def empty_store_def ListClients_def db_query_def fresh_server_def Let_def
        managed_list_def index_client_def GetClient_def AddClientWithOwner_def db_exec_def sql_insert_def GetClientByToken_def)
  have k: "''tok'' \<noteq> sc_Token (sv_cfg demo_server)"
    by (simp add: demo_server_def register_connection_def AddManagedClient_def AddManagedClientWithOwner_def
        start_server_def DefaultServerConfig_def empty_store_def ListClients_def db_query_def fresh_server_def Let_def
        managed_list_def index_client_def GetClient_def AddClientWithOwner_def db_exec_def sql_insert_def)
  note r = removal_overlapping_login [OF demo_server_synced(1) st demo_server_synced(2) _ k]
  show ?thesis
    using r [of "[DropIndex, PeekIndex, QueryRow, DeleteRow, CacheRow]"] r [of "[PeekIndex, DropIndex, QueryRow, DeleteRow, CacheRow]"]
    by (simp add: before_def)
qed


text \<open>Traffic of one client reported in pieces.\<close>

fun run_traffic :: "Server \<Rightarrow> string \<Rightarrow> (int \<times> int) list \<Rightarrow> effect list \<times> Server" where
  "run_traffic s nm [] = ([], s)"
| "run_traffic s nm (d # ds) =
     (case addClientTraffic s nm (fst d) (snd d) of (e1, s1) \<Rightarrow>
        (case run_traffic s1 nm ds of (e2, s2) \<Rightarrow> (e1 @ e2, s2)))"

definition volume :: "(int \<times> int) list \<Rightarrow> int" where
  "volume ds = sum_list (map (\<lambda>d. fst d + snd d) ds)"

lemma clientMaxTraffic_frame [simp]:
  "clientMaxTraffic (s\<lparr>sv_notified := n\<rparr>) nm = clientMaxTraffic s nm"
  "clientMaxTraffic (count_traffic s k i out) nm = clientMaxTraffic s nm"
  by (simp_all add: clientMaxTraffic_def count_traffic_def managed_list_def Let_def)

lemma clientTotalTraffic_frame [simp]:
  "clientTotalTraffic (s\<lparr>sv_notified := n\<rparr>) nm = clientTotalTraffic s nm"
  "clientTotalTraffic (count_traffic s k i out) nm = (if nm = k then i64 (clientTotalTraffic s nm + (i + out)) else clientTotalTraffic s nm)"
  by (auto simp: clientTotalTraffic_def count_traffic_def Let_def gat_def algebra_simps split: option.split)

lemma sv_notified_count [simp]: "sv_notified (count_traffic s k i out) = sv_notified s"
  by (simp add: count_traffic_def Let_def)

lemma addClientTraffic_frame:
  assumes "addClientTraffic s nm i out = (effs, t)" "nm \<noteq> ''''" "nm \<noteq> ''default''"
  shows "clientMaxTraffic t k = clientMaxTraffic s k"
    and "clientTotalTraffic t nm = i64 (clientTotalTraffic s nm + (i + out))"
  using assms by (auto simp: addClientTraffic_def checkTrafficLimit_def Let_def split: if_splits)

lemma run_traffic_silent:
  "run_traffic s nm ds = (effs, t) \<Longrightarrow> nm \<noteq> '''' \<Longrightarrow> nm \<noteq> ''default'' \<Longrightarrow> gat False (sv_notified s) nm \<Longrightarrow>
   effs = [] \<and> i64 (clientTotalTraffic t nm) = i64 (clientTotalTraffic s nm + volume ds)"
proof (induction ds arbitrary: s effs t)
  case (Cons d ds)
  obtain e1 s1 where a: "addClientTraffic s nm (fst d) (snd d) = (e1, s1)" by fastforce
  have "e1 = [] \<and> gat False (sv_notified s1) nm"
    using a Cons.prems by (auto simp: addClientTraffic_def checkTrafficLimit_def Let_def split: if_splits)
  with a Cons addClientTraffic_frame(2) [OF a] show ?case by (auto simp: volume_def ac_simps split: prod.splits)
qed (simp add: volume_def)

lemma clientTotalTraffic_i64 [simp]: "i64 (clientTotalTraffic s nm) = clientTotalTraffic s nm"
  by (simp add: clientTotalTraffic_def split: option.split)

text \<open>
  C29: The traffic limit of a managed client is reported by exactly one notification, sent in the very step
  that reaches the limit, and by none before; the aggregate counts every reported byte, as long as the
  total stays within the range of the 64-bit counters. Reaching
  the limit has no other effect: tunnels stay open and traffic goes on.
\<close>
theorem traffic_limit_notified_once:
  assumes "run_traffic s nm ds = (effs, t)" and "nm \<noteq> ''''" and "nm \<noteq> ''default''"
    and "0 < clientMaxTraffic s nm" and "clientTotalTraffic s nm < clientMaxTraffic s nm"
    and "\<not> gat False (sv_notified s) nm" and "\<forall>d \<in> set ds. 0 \<le> fst d \<and> 0 \<le> snd d"
    and "0 \<le> clientTotalTraffic s nm" and "clientTotalTraffic s nm + volume ds < 2 ^ 63"
  shows "effs = (if clientMaxTraffic s nm \<le> clientTotalTraffic s nm + volume ds then [Webhook ''traffic_limit'' nm] else []) \<and>
    clientTotalTraffic t nm = clientTotalTraffic s nm + volume ds"
  using assms
proof (induction ds arbitrary: s effs)
  case (Cons d ds)
  obtain e1 s1 where a: "addClientTraffic s nm (fst d) (snd d) = (e1, s1)" by fastforce
  obtain e2 where b: "run_traffic s1 nm ds = (e2, t)" and e: "effs = e1 @ e2"
    using Cons.prems(1) a by (auto split: prod.splits)
  note fr = addClientTraffic_frame [OF a Cons.prems(2,3)]
  have nn: "0 \<le> volume ds" using Cons.prems(7) unfolding volume_def by (intro sum_list_nonneg) fastforce
  have v: "volume (d # ds) = (fst d + snd d) + volume ds" by (simp add: volume_def)
  have dn: "0 \<le> fst d" "0 \<le> snd d" using Cons.prems(7) by simp_all
  have t1: "clientTotalTraffic s1 nm = clientTotalTraffic s nm + (fst d + snd d)"
    and d1: "i64 (fst d + snd d) = fst d + snd d"
    using fr(2) Cons.prems(8,9) v nn dn by (simp_all add: i64_id)
  show ?case
  proof (cases "clientTotalTraffic s1 nm < clientMaxTraffic s1 nm")
    case True
    then have "e1 = []" "\<not> gat False (sv_notified s1) nm"
      using a Cons.prems(2,3,6) fr by (auto simp: addClientTraffic_def checkTrafficLimit_def Let_def split: if_splits)
    with Cons.IH [OF b Cons.prems(2,3)] True t1 fr(1) Cons.prems(4,7,8,9) e v dn show ?thesis by (simp add: ac_simps)
  next
    case False
    then have "e1 = [Webhook ''traffic_limit'' nm]" "gat False (sv_notified s1) nm"
      using a Cons.prems(2-6) t1 d1 dn fr(1) by (auto simp: addClientTraffic_def checkTrafficLimit_def Let_def split: if_splits)
    moreover have "i64 (clientTotalTraffic s1 nm + volume ds) = clientTotalTraffic s nm + volume (d # ds)"
      using t1 v nn dn Cons.prems(8,9) by (simp add: i64_id)
    ultimately show ?thesis using run_traffic_silent [OF b Cons.prems(2,3)] False t1 fr(1) nn e v by simp
  qed
qed (simp add: volume_def)

theorem traffic_limit_notified_once_witness:
  "\<exists>t. run_traffic demo_server ''edge'' [(40, 10), (30, 30), (5, 0)] = ([Webhook ''traffic_limit'' ''edge''], t) \<and>
     clientTotalTraffic t ''edge'' = 115"
proof -
  have d: "clientMaxTraffic demo_server ''edge'' = 100" "clientTotalTraffic demo_server ''edge'' = 0"
    "\<not> gat False (sv_notified demo_server) ''edge''"
    by (simp_all add: clientMaxTraffic_def clientTotalTraffic_def demo_server_def register_connection_def AddManagedClient_def
        AddManagedClientWithOwner_def start_server_def DefaultServerConfig_def empty_store_def ListClients_def db_query_def
        fresh_server_def Let_def managed_list_def index_client_def GetClient_def AddClientWithOwner_def db_exec_def
        sql_insert_def)
  obtain effs t where r: "run_traffic demo_server ''edge'' [(40, 10), (30, 30), (5, 0)] = (effs, t)" by fastforce
  show ?thesis using traffic_limit_notified_once [OF r] r d by (simp add: volume_def)
qed

end
