(* ===== verification/Rendezvous.thy ===== *)
theory Rendezvous
  imports Server
begin

text \<open>
  Model of the rendezvous of user and data connections of a TCP tunnel in \<^verbatim>\<open>cmd/server/main.go\<close>
  (\<^verbatim>\<open>acceptTCPConnections\<close>, \<^verbatim>\<open>handleTCPUserConnection\<close>, \<^verbatim>\<open>acceptDataConnections\<close>). Every user connection runs
  in a goroutine of its own, so the handler is cut where it can be interleaved with others: after the
  notification is sent, at the registration under the lock, and at the \<^verbatim>\<open>select\<close>. Each channel is made by
  one handler and is numbered like its user connection; it has room for one connection. Connections are
  numbered in the order they are accepted. The copying itself is in \<open>Forward\<close>.
\<close>

section \<open>State and operations\<close>

datatype phase = Notified string | Waiting string | Serving string nat | Gone

record Rdv =
  rv_ready :: bool                              \<comment> \<open>\<^verbatim>\<open>proxy.DataListener != nil\<close>\<close>
  rv_pending :: "(string, nat) gomap"
  rv_chan :: "(nat, nat) gomap"
  rv_user :: "(nat, phase) gomap"
  rv_open :: "nat list"                         \<comment> \<open>open data connections\<close>
  rv_users :: nat                               \<comment> \<open>user connections accepted so far\<close>
  rv_datas :: nat                               \<comment> \<open>data connections accepted so far\<close>

definition new_rdv :: Rdv where
  "new_rdv = \<lparr>rv_ready = True, rv_pending = [], rv_chan = [], rv_user = [], rv_open = [], rv_users = 0, rv_datas = 0\<rparr>"

definition set_phase :: "nat \<Rightarrow> phase \<Rightarrow> Rdv \<Rightarrow> Rdv" where
  "set_phase u ph s = s\<lparr>rv_user := gput u ph (rv_user s)\<rparr>"

text \<open>A user connects: the client is told the id and the data port (\<open>wrote\<close> is the result of that write).\<close>

definition acceptTCPConnection :: "ServerProxy \<Rightarrow> Rdv \<Rightarrow> int \<Rightarrow> bool \<Rightarrow> effect list \<times> Rdv" where
  "acceptTCPConnection p s nano wrote =
     (let u = rv_users s; connID = fmt_d nano; s1 = s\<lparr>rv_users := Suc u\<rparr> in
      if wrote then
        ([Send (sp_ClientConn p) (PNewConn \<lparr>nc_ProxyName = sp_Name p, nc_ConnID = connID, nc_DataPort = sp_DataPort p\<rparr>)],
         set_phase u (Notified connID) s1)
      else ([Hangup u], set_phase u Gone s1))"

definition register_wait :: "nat \<Rightarrow> Rdv \<Rightarrow> Rdv" where
  "register_wait u s =
     (case map_of (rv_user s) u of
        Some (Notified connID) \<Rightarrow>
          if \<not> rv_ready s then set_phase u Gone s
          else set_phase u (Waiting connID) (s\<lparr>rv_pending := gput connID u (rv_pending s)\<rparr>)
      | _ \<Rightarrow> s)"

text \<open>The two cases of the \<^verbatim>\<open>select\<close>; the timeout can be chosen even when the channel is filled.\<close>

definition receive_data :: "nat \<Rightarrow> Rdv \<Rightarrow> Rdv" where
  "receive_data u s =
     (case (map_of (rv_user s) u, map_of (rv_chan s) u) of
        (Some (Waiting connID), Some d) \<Rightarrow> set_phase u (Serving connID d) (s\<lparr>rv_chan := gdel u (rv_chan s)\<rparr>)
      | _ \<Rightarrow> s)"

definition wait_timeout :: "nat \<Rightarrow> Rdv \<Rightarrow> Rdv" where
  "wait_timeout u s =
     (case map_of (rv_user s) u of
        Some (Waiting connID) \<Rightarrow> set_phase u Gone (s\<lparr>rv_pending := gdel connID (rv_pending s)\<rparr>)
      | _ \<Rightarrow> s)"

definition forwarding_ends :: "nat \<Rightarrow> Rdv \<Rightarrow> Rdv" where
  "forwarding_ends u s =
     (case map_of (rv_user s) u of
        Some (Serving connID d) \<Rightarrow> set_phase u Gone (s\<lparr>rv_open := removeAll d (rv_open s)\<rparr>)
      | _ \<Rightarrow> s)"

text \<open>A data connection: its first frame must identify a waiting user connection, or it is closed.\<close>

definition identify :: "(bytes \<Rightarrow> DataConnIdentify option) \<Rightarrow> stream \<Rightarrow> string option" where
  "identify unm inp =
     (case ReadMessage inp of
        Inl _ \<Rightarrow> None
      | Inr (msg, rest) \<Rightarrow>
          if msg_Type msg \<noteq> TypeDataConn then None
          else map_option di_ConnID (ParseMessage unm msg))"

definition acceptDataConnection :: "(bytes \<Rightarrow> DataConnIdentify option) \<Rightarrow> stream \<Rightarrow> Rdv \<Rightarrow> Rdv" where
  "acceptDataConnection unm inp s =
     (let d = rv_datas s; s1 = s\<lparr>rv_datas := Suc d\<rparr> in
      case identify unm inp of
        None \<Rightarrow> s1
      | Some connID \<Rightarrow>
          (case map_of (rv_pending s1) connID of
             None \<Rightarrow> s1
           | Some ch \<Rightarrow> s1\<lparr>rv_pending := gdel connID (rv_pending s1), rv_chan := gput ch d (rv_chan s1), rv_open := rv_open s1 @ [d]\<rparr>))"

section \<open>Runs\<close>

text \<open>
  Any interleaving of the handlers, with \<open>inp d\<close> the bytes the data connection \<open>d\<close> delivers. Closing the
  listeners only means that no further connections are accepted, so it needs no step of its own.
\<close>

inductive rdv_step :: "ServerProxy \<Rightarrow> (bytes \<Rightarrow> DataConnIdentify option) \<Rightarrow> (nat \<Rightarrow> stream) \<Rightarrow> Rdv \<Rightarrow> Rdv \<Rightarrow> bool"
  for p unm inp where
  user: "rdv_step p unm inp s (snd (acceptTCPConnection p s nano wrote))"
| register: "rdv_step p unm inp s (register_wait u s)"
| receive: "rdv_step p unm inp s (receive_data u s)"
| timeout: "rdv_step p unm inp s (wait_timeout u s)"
| ends: "rdv_step p unm inp s (forwarding_ends u s)"
| data: "rdv_step p unm inp s (acceptDataConnection unm (inp (rv_datas s)) s)"

inductive_cases rdv_stepE: "rdv_step p unm inp s t"

definition phase_of :: "Rdv \<Rightarrow> nat \<Rightarrow> phase option" where
  "phase_of s u = map_of (rv_user s) u"

definition holds :: "Rdv \<Rightarrow> nat \<Rightarrow> nat \<Rightarrow> bool" where
  "holds s u d \<longleftrightarrow> map_of (rv_chan s) u = Some d \<or> (\<exists>cid. phase_of s u = Some (Serving cid d))"

text \<open>
  \<open>matched\<close>: an entry of \<^verbatim>\<open>pending\<close> belongs to a handler that waits with an empty channel, and what a
  handler finds in its channel or serves announced the id of that handler. \<open>owned\<close>: open data connections
  are held, each by one handler.
\<close>

definition matched :: "(nat \<Rightarrow> string option) \<Rightarrow> (string \<Rightarrow> nat option) \<Rightarrow> (nat \<Rightarrow> nat option) \<Rightarrow> (nat \<Rightarrow> phase option) \<Rightarrow> bool" where
  "matched idf P C F \<longleftrightarrow>
     (\<forall>cid u. P cid = Some u \<longrightarrow> F u = Some (Waiting cid) \<and> C u = None) \<and>
     (\<forall>u d. C u = Some d \<longrightarrow> (\<exists>cid. idf d = Some cid \<and> F u = Some (Waiting cid)) \<or> F u = Some Gone) \<and>
     (\<forall>u cid d. F u = Some (Serving cid d) \<longrightarrow> idf d = Some cid \<and> C u = None)"

definition owned :: "(nat \<Rightarrow> nat \<Rightarrow> bool) \<Rightarrow> nat list \<Rightarrow> nat \<Rightarrow> bool" where
  "owned H ds n \<longleftrightarrow>
     (\<forall>u v d. H u d \<longrightarrow> H v d \<longrightarrow> u = v) \<and> (\<forall>u d. H u d \<longrightarrow> d \<in> set ds) \<and> (\<forall>d \<in> set ds. d < n \<and> (\<exists>u. H u d))"

definition rdv_inv :: "(nat \<Rightarrow> string option) \<Rightarrow> Rdv \<Rightarrow> bool" where
  "rdv_inv idf s \<longleftrightarrow>
     (\<forall>u. phase_of s u \<noteq> None \<longrightarrow> u < rv_users s) \<and>
     matched idf (map_of (rv_pending s)) (map_of (rv_chan s)) (phase_of s) \<and>
     owned (holds s) (rv_open s) (rv_datas s)"

lemma matchedI:
  assumes "\<And>cid u. P cid = Some u \<Longrightarrow> F u = Some (Waiting cid) \<and> C u = None"
    and "\<And>u d. C u = Some d \<Longrightarrow> (\<exists>cid. idf d = Some cid \<and> F u = Some (Waiting cid)) \<or> F u = Some Gone"
    and "\<And>u cid d. F u = Some (Serving cid d) \<Longrightarrow> idf d = Some cid \<and> C u = None"
  shows "matched idf P C F"
  using assms unfolding matched_def by blast

lemma matchedD:
  assumes "matched idf P C F"
  shows "P cid = Some u \<Longrightarrow> F u = Some (Waiting cid)" and "P cid = Some u \<Longrightarrow> C u = None"
    and "F u = Some (Serving cid d) \<Longrightarrow> idf d = Some cid" and "F u = Some (Serving cid d) \<Longrightarrow> C u = None"
    and "F u = Some (Notified cid) \<Longrightarrow> C u = None" and "F u = None \<Longrightarrow> C u = None"
    and "C u = Some d \<Longrightarrow> F u = Some (Waiting cid) \<Longrightarrow> idf d = Some cid"
    and "C u = Some d \<Longrightarrow> F u = Some Gone \<or> (\<exists>cid. idf d = Some cid \<and> F u = Some (Waiting cid))"
  using assms unfolding matched_def by (blast, blast, blast, blast, (cases "C u"; force)+)

lemma matched_new: "matched idf P C F \<Longrightarrow> F u = None \<Longrightarrow> ph = Notified cid \<or> ph = Gone \<Longrightarrow> matched idf P C (F(u \<mapsto> ph))"
  by (rule matchedI) (auto dest: matchedD split: if_splits)

lemma matched_register:
  "matched idf P C F \<Longrightarrow> F u = Some (Notified cid) \<Longrightarrow> matched idf (P(cid \<mapsto> u)) C (F(u \<mapsto> Waiting cid))"
  "matched idf P C F \<Longrightarrow> F u = Some (Notified cid) \<Longrightarrow> matched idf P C (F(u \<mapsto> Gone))"
  by (rule matchedI; auto dest: matchedD split: if_splits)+

lemma matched_receive:
  "matched idf P C F \<Longrightarrow> F u = Some (Waiting cid) \<Longrightarrow> C u = Some d \<Longrightarrow> matched idf P (C(u := None)) (F(u \<mapsto> Serving cid d))"
  by (rule matchedI) (auto dest: matchedD(1-4,7,8) split: if_splits)

lemma matched_timeout:
  "matched idf P C F \<Longrightarrow> F u = Some (Waiting cid) \<Longrightarrow> matched idf (P(cid := None)) C (F(u \<mapsto> Gone))"
  by (rule matchedI) (auto dest: matchedD split: if_splits)

lemma matched_ends: "matched idf P C F \<Longrightarrow> F u = Some (Serving cid d) \<Longrightarrow> matched idf P C (F(u \<mapsto> Gone))"
  by (rule matchedI) (auto dest: matchedD split: if_splits)

lemma matched_data:
  "matched idf P C F \<Longrightarrow> idf d = Some cid \<Longrightarrow> P cid = Some u \<Longrightarrow> matched idf (P(cid := None)) (C(u \<mapsto> d)) F"
  using matchedD(1) [of idf P C F _ u]
  by (intro matchedI) (fastforce dest: matchedD(1-4,8) split: if_splits)+

lemma owned_add:
  "owned H ds n \<Longrightarrow> (\<And>d. \<not> H u d) \<Longrightarrow> owned (\<lambda>v e. H v e \<or> v = u \<and> e = n) (ds @ [n]) (Suc n)"
  unfolding owned_def by (auto simp: less_Suc_eq)

lemma owned_remove:
  assumes "owned H ds n" "H u d" "\<And>e. H u e \<Longrightarrow> e = d"
  shows "owned (\<lambda>v e. H v e \<and> v \<noteq> u) (removeAll d ds) n"
proof -
  have one: "H v d \<Longrightarrow> v = u" for v using assms unfolding owned_def by blast
  show ?thesis
    unfolding owned_def
  proof (intro conjI)
    show "\<forall>e \<in> set (removeAll d ds). e < n \<and> (\<exists>v. H v e \<and> v \<noteq> u)"
      using assms(1,3) unfolding owned_def by simp blast
  qed (use assms(1) one in \<open>auto simp: owned_def\<close>)
qed

lemma owned_more: "owned H ds n \<Longrightarrow> owned H ds (Suc n)"
  unfolding owned_def by (auto simp: less_Suc_eq)

lemma phase_of_set [simp]: "phase_of (set_phase u ph s) = (phase_of s)(u \<mapsto> ph)"
  by (simp add: phase_of_def set_phase_def fun_eq_iff)

lemma set_phase_simps [simp]:
  "rv_pending (set_phase u ph s) = rv_pending s" "rv_chan (set_phase u ph s) = rv_chan s" "rv_open (set_phase u ph s) = rv_open s"
  "rv_users (set_phase u ph s) = rv_users s" "rv_datas (set_phase u ph s) = rv_datas s" "rv_ready (set_phase u ph s) = rv_ready s"
  by (simp_all add: set_phase_def)

lemma phase_of_frame [simp]:
  "phase_of (s\<lparr>rv_pending := pe\<rparr>) = phase_of s" "phase_of (s\<lparr>rv_chan := c\<rparr>) = phase_of s"
  "phase_of (s\<lparr>rv_open := op\<rparr>) = phase_of s" "phase_of (s\<lparr>rv_users := n\<rparr>) = phase_of s"
  "phase_of (s\<lparr>rv_datas := n\<rparr>) = phase_of s"
  by (simp_all add: phase_of_def fun_eq_iff)

lemma map_of_gput_fun: "map_of (gput k v m) = (map_of m)(k \<mapsto> v)" "map_of (gdel k m) = (map_of m)(k := None)"
  by (simp_all add: fun_eq_iff)

lemma rdv_inv_new: "rdv_inv idf new_rdv"
  by (simp add: rdv_inv_def new_rdv_def holds_def phase_of_def matched_def owned_def)

lemma rdv_inv_user:
  assumes "rdv_inv idf s" shows "rdv_inv idf (snd (acceptTCPConnection p s nano wrote))"
proof -
  have m: "matched idf (map_of (rv_pending s)) (map_of (rv_chan s)) (phase_of s)" using assms by (simp add: rdv_inv_def)
  have n: "phase_of s (rv_users s) = None" using assms unfolding rdv_inv_def by blast
  have "holds (snd (acceptTCPConnection p s nano wrote)) = holds s"
    using n by (auto simp: holds_def acceptTCPConnection_def Let_def fun_eq_iff)
  then show ?thesis
    using assms n matched_new [OF m n] by (auto simp: rdv_inv_def acceptTCPConnection_def Let_def less_Suc_eq)
qed

lemma rdv_inv_register:
  assumes "rdv_inv idf s" shows "rdv_inv idf (register_wait u s)"
proof (cases "\<exists>cid. phase_of s u = Some (Notified cid)")
  case True
  then obtain cid where u: "phase_of s u = Some (Notified cid)" by blast
  have m: "matched idf (map_of (rv_pending s)) (map_of (rv_chan s)) (phase_of s)" using assms by (simp add: rdv_inv_def)
  have "holds (register_wait u s) = holds s"
    using u by (auto simp: holds_def register_wait_def phase_of_def [symmetric] fun_eq_iff)
  then show ?thesis
    using assms u matched_register [OF m u]
    by (auto simp: rdv_inv_def register_wait_def phase_of_def [symmetric] map_of_gput_fun)
next
  case False
  then have "register_wait u s = s" by (auto simp: register_wait_def phase_of_def split: option.split phase.split)
  with assms show ?thesis by simp
qed

lemma rdv_inv_receive:
  assumes "rdv_inv idf s" shows "rdv_inv idf (receive_data u s)"
proof (cases "\<exists>cid d. phase_of s u = Some (Waiting cid) \<and> map_of (rv_chan s) u = Some d")
  case True
  then obtain cid d where u: "phase_of s u = Some (Waiting cid)" "map_of (rv_chan s) u = Some d" by blast
  have m: "matched idf (map_of (rv_pending s)) (map_of (rv_chan s)) (phase_of s)" using assms by (simp add: rdv_inv_def)
  have "holds (receive_data u s) = holds s"
    using u by (auto simp: holds_def receive_data_def phase_of_def [symmetric] fun_eq_iff)
  then show ?thesis
    using assms u matched_receive [OF m u]
    by (auto simp: rdv_inv_def receive_data_def phase_of_def [symmetric] map_of_gput_fun)
next
  case False
  then have "receive_data u s = s" by (auto simp: receive_data_def phase_of_def split: option.split phase.split)
  with assms show ?thesis by simp
qed

lemma rdv_inv_timeout:
  assumes "rdv_inv idf s" shows "rdv_inv idf (wait_timeout u s)"
proof (cases "\<exists>cid. phase_of s u = Some (Waiting cid)")
  case True
  then obtain cid where u: "phase_of s u = Some (Waiting cid)" by blast
  have m: "matched idf (map_of (rv_pending s)) (map_of (rv_chan s)) (phase_of s)" using assms by (simp add: rdv_inv_def)
  have "holds (wait_timeout u s) = holds s"
    using u by (auto simp: holds_def wait_timeout_def phase_of_def [symmetric] fun_eq_iff)
  then show ?thesis
    using assms u matched_timeout [OF m u]
    by (auto simp: rdv_inv_def wait_timeout_def phase_of_def [symmetric] map_of_gput_fun)
next
  case False
  then have "wait_timeout u s = s" by (auto simp: wait_timeout_def phase_of_def split: option.split phase.split)
  with assms show ?thesis by simp
qed

lemma rdv_inv_ends:
  assumes "rdv_inv idf s" shows "rdv_inv idf (forwarding_ends u s)"
proof (cases "\<exists>cid d. phase_of s u = Some (Serving cid d)")
  case True
  then obtain cid d where u: "phase_of s u = Some (Serving cid d)" by blast
  have m: "matched idf (map_of (rv_pending s)) (map_of (rv_chan s)) (phase_of s)" and o: "owned (holds s) (rv_open s) (rv_datas s)"
    using assms by (simp_all add: rdv_inv_def)
  have only: "holds s u e \<longleftrightarrow> e = d" for e using u matchedD(4) [OF m u] by (auto simp: holds_def)
  have "holds (forwarding_ends u s) = (\<lambda>v e. holds s v e \<and> v \<noteq> u)"
    using u matchedD(4) [OF m u] by (auto simp: holds_def forwarding_ends_def phase_of_def [symmetric] fun_eq_iff)
  moreover have "owned (\<lambda>v e. holds s v e \<and> v \<noteq> u) (removeAll d (rv_open s)) (rv_datas s)"
    using only by (intro owned_remove [OF o]) simp_all
  ultimately show ?thesis
    using assms u matched_ends [OF m u] by (simp add: rdv_inv_def forwarding_ends_def phase_of_def [symmetric])
next
  case False
  then have "forwarding_ends u s = s" by (auto simp: forwarding_ends_def phase_of_def split: option.split phase.split)
  with assms show ?thesis by simp
qed

lemma rdv_inv_data:
  assumes "rdv_inv (\<lambda>d. identify unm (inp d)) s"
  shows "rdv_inv (\<lambda>d. identify unm (inp d)) (acceptDataConnection unm (inp (rv_datas s)) s)"
proof (cases "\<exists>cid u. identify unm (inp (rv_datas s)) = Some cid \<and> map_of (rv_pending s) cid = Some u")
  case True
  then obtain cid u where i: "identify unm (inp (rv_datas s)) = Some cid" and p: "map_of (rv_pending s) cid = Some u" by blast
  have m: "matched (\<lambda>d. identify unm (inp d)) (map_of (rv_pending s)) (map_of (rv_chan s)) (phase_of s)"
    and o: "owned (holds s) (rv_open s) (rv_datas s)" using assms by (simp_all add: rdv_inv_def)
  have none: "\<not> holds s u e" for e using matchedD(1,2) [OF m p] by (auto simp: holds_def)
  have "holds (acceptDataConnection unm (inp (rv_datas s)) s) = (\<lambda>v e. holds s v e \<or> v = u \<and> e = rv_datas s)"
    using i p matchedD(1,2) [OF m p] by (auto simp: holds_def acceptDataConnection_def Let_def fun_eq_iff)
  then show ?thesis
    using assms i p owned_add [OF o none] matched_data [OF m, of "rv_datas s" cid u]
    by (auto simp: rdv_inv_def acceptDataConnection_def Let_def map_of_gput_fun)
next
  case False
  then have e: "acceptDataConnection unm (inp (rv_datas s)) s = s\<lparr>rv_datas := Suc (rv_datas s)\<rparr>"
    by (auto simp: acceptDataConnection_def Let_def split: option.split)
  have "holds (s\<lparr>rv_datas := Suc (rv_datas s)\<rparr>) = holds s" by (simp add: holds_def fun_eq_iff)
  with assms show ?thesis unfolding e by (auto simp: rdv_inv_def intro: owned_more)
qed

lemmas rdv_inv_intros = rdv_inv_user rdv_inv_register rdv_inv_receive rdv_inv_timeout rdv_inv_ends rdv_inv_data

lemma rdv_inv_steps:
  "(rdv_step p unm inp)\<^sup>*\<^sup>* s t \<Longrightarrow> rdv_inv (\<lambda>d. identify unm (inp d)) s \<Longrightarrow> rdv_inv (\<lambda>d. identify unm (inp d)) t"
  by (induction rule: rtranclp_induct) (auto elim!: rdv_stepE intro: rdv_inv_intros)

section \<open>Properties\<close>

text \<open>
  C7: In every interleaving of user and data connections of a tunnel (even when two users get the same
  id), a user connection is only ever served by a data connection that announced that user's id, the data
  connection is open, and no other user connection is served by it.
\<close>
theorem rendezvous_pairs_by_id:
  assumes "(rdv_step p unm inp)\<^sup>*\<^sup>* new_rdv s" and "phase_of s u = Some (Serving cid d)"
  shows "identify unm (inp d) = Some cid \<and> d \<in> set (rv_open s) \<and> (\<forall>v c. phase_of s v = Some (Serving c d) \<longrightarrow> v = u)"
proof -
  have inv: "matched (\<lambda>d. identify unm (inp d)) (map_of (rv_pending s)) (map_of (rv_chan s)) (phase_of s)"
    "owned (holds s) (rv_open s) (rv_datas s)"
    using rdv_inv_steps [OF assms(1) rdv_inv_new] by (simp_all add: rdv_inv_def)
  have "holds s u d" using assms(2) by (auto simp: holds_def)
  with inv(2) have "d \<in> set (rv_open s)" and "\<forall>v c. phase_of s v = Some (Serving c d) \<longrightarrow> v = u"
    unfolding owned_def holds_def by blast+
  with matchedD(3) [OF inv(1) assms(2)] show ?thesis by blast
qed

text \<open>
  C16: A user connection that waits is served as soon as a data connection announces its id: handing over
  the connection and taking it from the channel leads to forwarding, and the id is then used up, so a
  second data connection that announces it is closed at once.
\<close>
theorem rendezvous_completes:
  assumes "(rdv_step p unm inp)\<^sup>*\<^sup>* new_rdv s" and "map_of (rv_pending s) cid = Some u" and "identify unm input = Some cid"
    and "t = receive_data u (acceptDataConnection unm input s)"
  shows "phase_of t u = Some (Serving cid (rv_datas s)) \<and> map_of (rv_pending t) cid = None \<and>
    rv_open (acceptDataConnection unm input t) = rv_open t"
proof -
  have "phase_of s u = Some (Waiting cid)"
    using rdv_inv_steps [OF assms(1) rdv_inv_new] assms(2) unfolding rdv_inv_def by (blast dest: matchedD(1))
  then show ?thesis
    using assms(2-4) by (simp add: acceptDataConnection_def receive_data_def phase_of_def set_phase_def Let_def)
qed

text \<open>
  The id is announced to the client before it is registered. A data connection that arrives in between
  is closed, and the user connection then finds an empty channel: without another data connection only
  the timeout is left to it.
\<close>
theorem early_data_connection_is_lost:
  assumes "phase_of s u = Some (Notified cid)" and "map_of (rv_pending s) cid = None" and "rv_ready s"
    and "map_of (rv_chan s) u = None" and "identify unm input = Some cid"
    and "t = register_wait u (acceptDataConnection unm input s)"
  shows "rv_open t = rv_open s \<and> phase_of t u = Some (Waiting cid) \<and> receive_data u t = t \<and>
    phase_of (wait_timeout u t) u = Some Gone"
  using assms by (simp add: acceptDataConnection_def register_wait_def receive_data_def wait_timeout_def phase_of_def set_phase_def Let_def)

definition demo_unm :: "bytes \<Rightarrow> DataConnIdentify option" where
  "demo_unm b = Some \<lparr>di_ConnID = string_of_bytes b\<rparr>"

definition demo_inp :: "nat \<Rightarrow> stream" where
  "demo_inp d = \<lparr>inb = frameMessage TypeDataConn (bytes_of_string ''5''), tail_err = EOF\<rparr>"

lemma demo_identify: "identify demo_unm (demo_inp d) = Some ''5''"
  using ReadMessage_frame [of "\<lparr>msg_Type = TypeDataConn, msg_Data = bytes_of_string ''5''\<rparr>" "[]" EOF]
  by (simp add: identify_def demo_inp_def demo_unm_def ParseMessage_def TypeDataConn_def maxValidType_def MaxMessageSize_def
      valid_message_def)

text \<open>One user connection that got the id 5, up to the registration.\<close>

definition demo_waiting :: "ServerProxy \<Rightarrow> Rdv" where
  "demo_waiting p = register_wait 0 (snd (acceptTCPConnection p new_rdv 5 True))"

lemma demo_waiting_eq:
  "demo_waiting p = \<lparr>rv_ready = True, rv_pending = [(''5'', 0)], rv_chan = [], rv_user = [(0, Waiting ''5'')], rv_open = [],
     rv_users = 1, rv_datas = 0\<rparr>"
  by (simp add: demo_waiting_def register_wait_def acceptTCPConnection_def new_rdv_def set_phase_def Let_def fmt_d_def
      dec_digits.simps char_of_def bit_0)

lemma demo_waiting_reachable: "(rdv_step p demo_unm demo_inp)\<^sup>*\<^sup>* new_rdv (demo_waiting p)"
  unfolding demo_waiting_def by (meson converse_rtranclp_into_rtranclp r_into_rtranclp rdv_step.user rdv_step.register)

theorem rendezvous_pairs_by_id_witness:
  "\<exists>p s. (rdv_step p demo_unm demo_inp)\<^sup>*\<^sup>* new_rdv s \<and> phase_of s 0 = Some (Serving ''5'' 0) \<and>
     identify demo_unm (demo_inp 0) = Some ''5''"
proof -
  fix p
  let ?s = "receive_data 0 (acceptDataConnection demo_unm (demo_inp (rv_datas (demo_waiting p))) (demo_waiting p))"
  have r: "(rdv_step p demo_unm demo_inp)\<^sup>*\<^sup>* new_rdv ?s"
    using demo_waiting_reachable [of p] by (meson rtranclp.rtrancl_into_rtrancl rdv_step.receive rdv_step.data)
  have "phase_of ?s 0 = Some (Serving ''5'' 0)"
    by (simp add: demo_waiting_eq acceptDataConnection_def demo_identify receive_data_def Let_def phase_of_def set_phase_def)
  with rendezvous_pairs_by_id [OF r this] r show ?thesis by blast
qed

theorem rendezvous_completes_witness:
  "\<exists>t. phase_of t 0 = Some (Serving ''5'' 0) \<and> map_of (rv_pending t) ''5'' = None"
proof -
  fix p
  have "map_of (rv_pending (demo_waiting p)) ''5'' = Some 0" "rv_datas (demo_waiting p) = 0" by (simp_all add: demo_waiting_eq)
  with rendezvous_completes [OF demo_waiting_reachable this(1) demo_identify [of 0] refl] show ?thesis by auto
qed

theorem early_data_connection_is_lost_witness:
  "\<exists>s. phase_of s 0 = Some (Notified ''5'') \<and>
     phase_of (wait_timeout 0 (register_wait 0 (acceptDataConnection demo_unm (demo_inp 0) s))) 0 = Some Gone"
proof -
  let ?s = "new_rdv\<lparr>rv_users := 1, rv_user := [(0, Notified ''5'')]\<rparr>"
  have "phase_of ?s 0 = Some (Notified ''5'')" by (simp add: phase_of_def)
  with early_data_connection_is_lost [OF this _ _ _ demo_identify [of 0] refl] show ?thesis
    by (auto simp: new_rdv_def)
qed

end
