(* ===== verification/Client.thy ===== *)
theory Client
  imports Config Protocol Auth Server
begin

text \<open>
  Model of the client, \<^verbatim>\<open>cmd/client/main.go\<close>, after its configuration (which is in \<open>Config\<close>): logging in,
  synchronising and registering tunnels, the message loop, the UDP data channel with its local
  backend sessions, the clean-up after a disconnection, traffic reports and the reconnection loop of \<^verbatim>\<open>main\<close>.
  Sockets are numbers; \<open>k_socks\<close> are the open UDP sockets. A channel that is only ever closed
  (\<^verbatim>\<open>udpQuit\<close>) is \<open>None\<close> for nil and otherwise whether it was closed; closing it twice is a panic, given as \<open>None\<close>.
  What the operating system and the peer answer is an argument: results of dialling, of writes, and the
  bytes the server delivers. A read that fails ends the connection's stream. Log lines are not modelled.
\<close>

section \<open>State\<close>

record udpSession =
  bs_id :: string
  bs_conn :: nat
  bs_lastActive :: int

record LProxy =
  lp_Name :: string
  lp_Type :: ProxyType
  lp_LocalAddr :: string
  lp_LocalPort :: int
  lp_RemotePort :: int
  lp_BytesIn :: int
  lp_BytesOut :: int
  lp_udpDataConn :: "nat option"
  lp_udpServer :: "(string \<times> int) option"
  lp_udpSessions :: "(string, udpSession) gomap"
  lp_udpQuit :: "bool option"

record Client =
  k_cfg :: ClientConfig
  k_auth :: Auth
  k_proxies :: "(string, LProxy) gomap"
  k_conn :: bool                              \<comment> \<open>\<^verbatim>\<open>c.conn != nil\<close>\<close>
  k_apiKey :: string
  k_tunnelID :: string
  k_reportAddr :: string
  k_socks :: "nat list"
  k_next :: nat

definition new_client :: "ClientConfig \<Rightarrow> client_flags \<Rightarrow> string \<Rightarrow> Client" where
  "new_client cfg fl reportAddr =
     \<lparr>k_cfg = cfg, k_auth = NewAuth (cc_Token cfg), k_proxies = [], k_conn = False, k_apiKey = fl_apiKey fl,
      k_tunnelID = fl_tunnelID fl,
      k_reportAddr = (if fl_apiKey fl \<noteq> '''' \<and> reportAddr = '''' then fl_apiAddr fl else reportAddr),
      k_socks = [], k_next = 0\<rparr>"

definition dial_udp :: "Client \<Rightarrow> nat \<times> Client" where
  "dial_udp c = (k_next c, c\<lparr>k_socks := k_socks c @ [k_next c], k_next := Suc (k_next c)\<rparr>)"

definition close_udp :: "nat \<Rightarrow> Client \<Rightarrow> Client" where
  "close_udp h c = c\<lparr>k_socks := removeAll h (k_socks c)\<rparr>"

section \<open>Dialling the server\<close>

datatype dial_req = PlainDial string | TLSDial string "bytes option" bool   \<comment> \<open>address, root CAs, skip verification\<close>

definition dialServer :: "(string \<Rightarrow> bytes option) \<Rightarrow> (bytes \<Rightarrow> bool) \<Rightarrow> (dial_req \<Rightarrow> 'c) \<Rightarrow> Client \<Rightarrow> string \<Rightarrow> 'c" where
  "dialServer readFile pemOK dial c addr =
     (if \<not> cc_TLSEnable (k_cfg c) then dial (PlainDial addr)
      else
        let roots = (if cc_TLSCA (k_cfg c) \<noteq> '''' then
                       (case readFile (cc_TLSCA (k_cfg c)) of Some pem \<Rightarrow> if pemOK pem then Some pem else None | None \<Rightarrow> None)
                     else None)
        in dial (TLSDial addr roots (cc_TLSInsecure (k_cfg c))))"

section \<open>The UDP data channel\<close>

record dial_env =
  de_resolve :: bool
  de_dial :: bool
  de_write :: bool

definition startUDPDataChannel :: "dial_env \<Rightarrow> 64 word \<Rightarrow> LProxy \<Rightarrow> int \<Rightarrow> Client \<Rightarrow> bool \<times> bytes list \<times> LProxy \<times> Client" where
  "startUDPDataChannel os unix p dataPort c =
     (if \<not> de_resolve os then (False, [], p, c)
      else if \<not> de_dial os then (False, [], p, c)
      else
        case dial_udp c of (conn, c1) \<Rightarrow>
        let p1 = p\<lparr>lp_udpDataConn := Some conn, lp_udpServer := Some (cc_ServerIP (k_cfg c), dataPort),
                   lp_udpSessions := [], lp_udpQuit := Some False\<rparr>;
            hello = Sign (k_auth c) unix (MarshalEnvelope \<lparr>env_Kind = 0x00, env_SessionID = '''', env_Data = []\<rparr>)
        in if \<not> de_write os then (False, [], p1, close_udp conn c1) else (True, [hello], p1, c1))"

definition getOrCreateBackend :: "dial_env \<Rightarrow> int \<Rightarrow> string \<Rightarrow> LProxy \<Rightarrow> Client \<Rightarrow> nat option \<times> LProxy \<times> Client" where
  "getOrCreateBackend os now sid p c =
     (case map_of (lp_udpSessions p) sid of
        Some s \<Rightarrow> (Some (bs_conn s), p\<lparr>lp_udpSessions := gput sid (s\<lparr>bs_lastActive := now\<rparr>) (lp_udpSessions p)\<rparr>, c)
      | None \<Rightarrow>
          if \<not> de_resolve os then (None, p, c)
          else if \<not> de_dial os then (None, p, c)
          else
            case dial_udp c of (conn, c1) \<Rightarrow>
              (Some conn, p\<lparr>lp_udpSessions := gput sid \<lparr>bs_id = sid, bs_conn = conn, bs_lastActive = now\<rparr> (lp_udpSessions p)\<rparr>, c1))"

definition closeBackendSession :: "string \<Rightarrow> LProxy \<Rightarrow> Client \<Rightarrow> LProxy \<times> Client" where
  "closeBackendSession sid p c =
     (case map_of (lp_udpSessions p) sid of
        None \<Rightarrow> (p, c)
      | Some s \<Rightarrow> (p\<lparr>lp_udpSessions := gdel sid (lp_udpSessions p)\<rparr>, close_udp (bs_conn s) c))"

text \<open>
  The body of the loop of the client's \<^verbatim>\<open>handleUDPDataChannel\<close>: a datagram from the server; the result has
  the datagrams written to backends, as pairs of socket and payload.
\<close>

definition client_handleUDPDataChannel ::
    "dial_env \<Rightarrow> int \<Rightarrow> 64 word \<Rightarrow> LProxy \<Rightarrow> Client \<Rightarrow> bytes \<Rightarrow> (nat \<times> bytes) list \<times> LProxy \<times> Client" where
  "client_handleUDPDataChannel os now unix p c pkt =
     (case Verify (k_auth c) unix pkt of
        None \<Rightarrow> ([], p, c)
      | Some data \<Rightarrow>
          (case UnmarshalEnvelope data of
             None \<Rightarrow> ([], p, c)
           | Some env \<Rightarrow>
               if env_Kind env = 0x01 then
                 (case getOrCreateBackend os now (env_SessionID env) p c of (_, p1, c1) \<Rightarrow> ([], p1, c1))
               else if env_Kind env = 0x02 then
                 (if env_Data env = [] then ([], p, c)
                  else
                    case getOrCreateBackend os now (env_SessionID env) p c of (b, p1, c1) \<Rightarrow>
                      ((case b of None \<Rightarrow> [] | Some conn \<Rightarrow> [(conn, env_Data env)]), p1, c1))
               else if env_Kind env = 0x03 then
                 (case closeBackendSession (env_SessionID env) p c of (p1, c1) \<Rightarrow> ([], p1, c1))
               else ([], p, c)))"

text \<open>The body of the loop of \<^verbatim>\<open>readBackend\<close> (a reply of the local service), and what follows the loop.\<close>

definition readBackend :: "64 word \<Rightarrow> Client \<Rightarrow> string \<Rightarrow> bytes \<Rightarrow> bytes list" where
  "readBackend unix c sid payload =
     (if payload = [] then []
      else
        let signed = Sign (k_auth c) unix (MarshalEnvelope \<lparr>env_Kind = 0x02, env_SessionID = sid, env_Data = payload\<rparr>)
        in if length signed > 65507 then [] else [signed])"

definition readBackend_end :: "64 word \<Rightarrow> string \<Rightarrow> LProxy \<Rightarrow> Client \<Rightarrow> bytes list \<times> LProxy \<times> Client" where
  "readBackend_end unix sid p c =
     (case closeBackendSession sid p c of (p1, c1) \<Rightarrow>
        ([Sign (k_auth c) unix (MarshalEnvelope \<lparr>env_Kind = 0x03, env_SessionID = sid, env_Data = []\<rparr>)], p1, c1))"

section \<open>Registering tunnels\<close>

datatype request = RqLogin Login | RqSyncProxies | RqNewProxy NewProxy | RqHeartbeat

text \<open>What a failed \<^verbatim>\<open>ReadMessage\<close> leaves: everything is used up by a short read, the header by a refused one.\<close>

definition after_read :: "stream \<Rightarrow> stream" where
  "after_read inp =
     (case ReadMessage inp of
        Inr (_, rest) \<Rightarrow> rest
      | Inl (IoErr _) \<Rightarrow> inp\<lparr>inb := []\<rparr>
      | Inl _ \<Rightarrow> inp\<lparr>inb := drop MsgHeaderSize (inb inp)\<rparr>)"

definition new_local_proxy :: "string \<Rightarrow> ProxyConfig \<Rightarrow> LProxy" where
  "new_local_proxy nm pc =
     \<lparr>lp_Name = nm, lp_Type = pc_Type pc, lp_LocalAddr = pc_LocalAddr pc, lp_LocalPort = pc_LocalPort pc,
      lp_RemotePort = pc_Port pc, lp_BytesIn = 0, lp_BytesOut = 0, lp_udpDataConn = None, lp_udpServer = None,
      lp_udpSessions = [], lp_udpQuit = None\<rparr>"

definition newproxy_of :: "string \<Rightarrow> ProxyConfig \<Rightarrow> NewProxy" where
  "newproxy_of nm pc = \<lparr>np_Name = nm, np_Type = pc_Type pc, np_RemotePort = pc_Port pc, np_LocalAddr = '''', np_LocalPort = 0\<rparr>"

record session_env =
  se_wrote :: "request \<Rightarrow> bool"               \<comment> \<open>whether the write of a request succeeds\<close>
  se_udp :: "string \<Rightarrow> dial_env"              \<comment> \<open>setting up the UDP channel of a tunnel\<close>
  se_unix :: "64 word"
  se_unmLogin :: "bytes \<Rightarrow> LoginResp option"  \<comment> \<open>JSON decoders\<close>
  se_unmSync :: "bytes \<Rightarrow> SyncProxiesResp option"
  se_unmResp :: "bytes \<Rightarrow> NewProxyResp option"

definition registerProxy :: "session_env \<Rightarrow> string \<Rightarrow> ProxyConfig \<Rightarrow> Client \<Rightarrow> stream \<Rightarrow> request list \<times> Client \<times> stream" where
  "registerProxy en nm pc c inp =
     (let p = new_local_proxy nm pc; rq = RqNewProxy (newproxy_of nm pc) in
      if \<not> se_wrote en rq then ([], c, inp)
      else
        case ReadMessage inp of
          Inl _ \<Rightarrow> ([rq], c, after_read inp)
        | Inr (respMsg, rest) \<Rightarrow>
            (case ParseMessage (se_unmResp en) respMsg of
               None \<Rightarrow> ([rq], c, rest)
             | Some resp \<Rightarrow>
                 if \<not> nr_Success resp then ([rq], c, rest)
                 else if lp_Type p = ProxyUDP \<and> nr_UDPDataPort resp \<noteq> 0 then
                   (case startUDPDataChannel (se_udp en nm) (se_unix en) p (nr_UDPDataPort resp) c of (_, _, p1, c1) \<Rightarrow>
                      ([rq], c1\<lparr>k_proxies := gput nm p1 (k_proxies c1)\<rparr>, rest))
                 else ([rq], c\<lparr>k_proxies := gput nm p (k_proxies c)\<rparr>, rest)))"

fun register_all :: "session_env \<Rightarrow> (string \<times> ProxyConfig) list \<Rightarrow> Client \<Rightarrow> stream \<Rightarrow> request list \<times> Client \<times> stream" where
  "register_all en [] c inp = ([], c, inp)"
| "register_all en (e # es) c inp =
     (if map_of (k_proxies c) (fst e) \<noteq> None then register_all en es c inp
      else
        case registerProxy en (fst e) (snd e) c inp of (r1, c1, i1) \<Rightarrow>
        case register_all en es c1 i1 of (r2, c2, i2) \<Rightarrow> (r1 @ r2, c2, i2))"

definition registerLocalProxies :: "session_env \<Rightarrow> Client \<Rightarrow> stream \<Rightarrow> request list \<times> Client \<times> stream" where
  "registerLocalProxies en c inp = register_all en (cc_Proxies (k_cfg c)) c inp"

definition config_of_item :: "SyncProxyItem \<Rightarrow> string \<times> ProxyConfig" where
  "config_of_item i =
     (si_Name i, \<lparr>pc_Type = si_Type i, pc_Port = si_RemotePort i, pc_LocalAddr = si_LocalAddr i, pc_LocalPort = si_LocalPort i\<rparr>)"

definition syncAndRegisterProxies :: "session_env \<Rightarrow> Client \<Rightarrow> stream \<Rightarrow> request list \<times> Client \<times> stream" where
  "syncAndRegisterProxies en c inp =
     (if \<not> se_wrote en RqSyncProxies then registerLocalProxies en c inp
      else
        let items =
          (case ReadMessage inp of
             Inl _ \<Rightarrow> None
           | Inr (msg, rest) \<Rightarrow>
               if msg_Type msg \<noteq> TypeSyncProxiesResp then None else ParseMessage (se_unmSync en) msg)
        in case items of
             None \<Rightarrow> (case registerLocalProxies en c (after_read inp) of (r, t) \<Rightarrow> (RqSyncProxies # r, t))
           | Some resp \<Rightarrow>
               (case register_all en (map config_of_item (sr_Proxies resp)) c (after_read inp) of (r1, c1, i1) \<Rightarrow>
                case registerLocalProxies en c1 i1 of (r2, t) \<Rightarrow> (RqSyncProxies # r1 @ r2, t)))"

section \<open>Connecting\<close>

datatype connect_err = DialFailed | WriteFailed | ReadFailed proto_err | UnexpectedType MessageType | LoginRespInvalid | AuthFailed string

definition connect :: "session_env \<Rightarrow> stream option \<Rightarrow> Client \<Rightarrow> (connect_err + stream) \<times> request list \<times> Client" where
  "connect en dialled c =
     (case dialled of
        None \<Rightarrow> (Inl DialFailed, [], c)
      | Some inp \<Rightarrow>
          let login = RqLogin \<lparr>lg_Version = '''', lg_Token = cc_Token (k_cfg c)\<rparr> in
          if \<not> se_wrote en login then (Inl WriteFailed, [], c)
          else
            (case ReadMessage inp of
               Inl e \<Rightarrow> (Inl (ReadFailed e), [login], c)
             | Inr (msg, rest) \<Rightarrow>
                 if msg_Type msg \<noteq> TypeLoginResp then (Inl (UnexpectedType (msg_Type msg)), [login], c)
                 else
                   (case ParseMessage (se_unmLogin en) msg of
                      None \<Rightarrow> (Inl LoginRespInvalid, [login], c)
                    | Some resp \<Rightarrow>
                        if \<not> lr_Success resp then (Inl (AuthFailed (lr_Error resp)), [login], c)
                        else
                          (case syncAndRegisterProxies en (c\<lparr>k_conn := True\<rparr>) rest of (r, c1, i1) \<Rightarrow>
                             (Inr i1, login # r, c1)))))"

definition heartbeat_tick :: "Client \<Rightarrow> request list option" where
  "heartbeat_tick c = (if \<not> k_conn c then None else Some [RqHeartbeat])"

section \<open>Messages of the server\<close>

datatype cevent =
    DialLocal string int | DialData string int | Identify DataConnIdentify
  | CloseLocal | CloseData | Forwarding string string   \<comment> \<open>connection id, tunnel\<close>

record conn_env =
  ce_local :: bool
  ce_data :: bool
  ce_ident :: bool

definition handleNewConn :: "(bytes \<Rightarrow> NewConn option) \<Rightarrow> conn_env \<Rightarrow> Client \<Rightarrow> Message \<Rightarrow> cevent list" where
  "handleNewConn unm os c msg =
     (case ParseMessage unm msg of
        None \<Rightarrow> []
      | Some nc \<Rightarrow>
          (case map_of (k_proxies c) (nc_ProxyName nc) of
             None \<Rightarrow> []
           | Some p \<Rightarrow>
               if lp_Type p \<noteq> ProxyTCP then []
               else if \<not> ce_local os then [DialLocal (lp_LocalAddr p) (lp_LocalPort p)]
               else if \<not> ce_data os then
                 [DialLocal (lp_LocalAddr p) (lp_LocalPort p), DialData (cc_ServerIP (k_cfg c)) (nc_DataPort nc), CloseLocal]
               else if \<not> ce_ident os then
                 [DialLocal (lp_LocalAddr p) (lp_LocalPort p), DialData (cc_ServerIP (k_cfg c)) (nc_DataPort nc), CloseData, CloseLocal]
               else
                 [DialLocal (lp_LocalAddr p) (lp_LocalPort p), DialData (cc_ServerIP (k_cfg c)) (nc_DataPort nc),
                  Identify \<lparr>di_ConnID = nc_ConnID nc\<rparr>, Forwarding (nc_ConnID nc) (nc_ProxyName nc)]))"

definition close_udp_opt :: "nat option \<Rightarrow> Client \<Rightarrow> Client" where
  "close_udp_opt h c = (case h of None \<Rightarrow> c | Some i \<Rightarrow> close_udp i c)"

text \<open>\<^verbatim>\<open>handleCloseProxy\<close>; its \<^verbatim>\<open>select\<close> never closes the quit channel twice.\<close>

definition client_handleCloseProxy :: "(bytes \<Rightarrow> CloseProxyMsg option) \<Rightarrow> Client \<Rightarrow> Message \<Rightarrow> Client" where
  "client_handleCloseProxy unm c msg =
     (case ParseMessage unm msg of
        None \<Rightarrow> c
      | Some cp \<Rightarrow>
          (case map_of (k_proxies c) (cp_Name cp) of
             None \<Rightarrow> c
           | Some p \<Rightarrow>
               (let c1 = close_udp_opt (lp_udpDataConn p) c in c1\<lparr>k_proxies := gdel (cp_Name cp) (k_proxies c1)\<rparr>)))"

fun client_message_loop ::
    "nat \<Rightarrow> (bytes \<Rightarrow> NewConn option) \<Rightarrow> (bytes \<Rightarrow> CloseProxyMsg option) \<Rightarrow> (nat \<Rightarrow> conn_env) \<Rightarrow> stream \<Rightarrow> Client \<Rightarrow>
     cevent list \<times> Client \<times> proto_err option" where
  "client_message_loop 0 unmN unmC os inp c = ([], c, None)"
| "client_message_loop (Suc fuel) unmN unmC os inp c =
     (case ReadMessage inp of
        Inl e \<Rightarrow> ([], c, Some e)
      | Inr (msg, rest) \<Rightarrow>
          if msg_Type msg = TypeNewConn then
            (case client_message_loop fuel unmN unmC os rest c of (es, r) \<Rightarrow> (handleNewConn unmN (os fuel) c msg @ es, r))
          else if msg_Type msg = TypeCloseProxy then
            client_message_loop fuel unmN unmC os rest (client_handleCloseProxy unmC c msg)
          else client_message_loop fuel unmN unmC os rest c)"

definition handleMessages ::
    "(bytes \<Rightarrow> NewConn option) \<Rightarrow> (bytes \<Rightarrow> CloseProxyMsg option) \<Rightarrow> (nat \<Rightarrow> conn_env) \<Rightarrow> stream \<Rightarrow> Client \<Rightarrow>
     cevent list \<times> Client \<times> proto_err option" where
  "handleMessages unmN unmC os inp c = client_message_loop (Suc (length (inb inp))) unmN unmC os inp c"

section \<open>After a disconnection\<close>

definition shutdown_proxy :: "LProxy \<Rightarrow> Client \<Rightarrow> (LProxy \<times> Client) option" where
  "shutdown_proxy p c =
     (if lp_Type p \<noteq> ProxyUDP \<or> lp_udpDataConn p = None then Some (p, c)
      else if lp_udpQuit p \<noteq> Some False then None
      else
        let c1 = fold (\<lambda>s. close_udp (bs_conn (snd s))) (lp_udpSessions p) c in
        Some (p\<lparr>lp_udpQuit := Some True, lp_udpSessions := []\<rparr>, close_udp_opt (lp_udpDataConn p) c1))"

fun shutdown_loop :: "(string \<times> LProxy) list \<Rightarrow> Client \<Rightarrow> Client option" where
  "shutdown_loop [] c = Some c"
| "shutdown_loop (e # es) c =
     (case shutdown_proxy (snd e) c of
        None \<Rightarrow> None
      | Some (p, c1) \<Rightarrow> shutdown_loop es (c1\<lparr>k_proxies := gput (fst e) p (k_proxies c1)\<rparr>))"

definition shutdownProxies :: "Client \<Rightarrow> Client option" where
  "shutdownProxies c = shutdown_loop (k_proxies c) c"

section \<open>Traffic reports\<close>

definition report_url :: "string \<Rightarrow> string" where
  "report_url addr =
     (let a = (if take 4 addr = ''http'' then addr else ''https://'' @ addr);
          b = rev (dropWhile (\<lambda>c. c = CHR ''/'') (rev a))
      in b @ ''/api/tunnel.php?action=traffic_report'')"

definition report_form :: "Client \<Rightarrow> int \<Rightarrow> int \<Rightarrow> string" where
  "report_form c i out =
     ''tunnel_id='' @ k_tunnelID c @ ''&bytes_in='' @ fmt_d i @ ''&bytes_out='' @ fmt_d out"

text \<open>The counters and their totals are \<^verbatim>\<open>int64\<close>: sums and differences wrap around.\<close>

definition total_in :: "Client \<Rightarrow> int" where
  "total_in c = i64 (sum_list (map (\<lambda>e. lp_BytesIn (snd e)) (k_proxies c)))"

definition total_out :: "Client \<Rightarrow> int" where
  "total_out c = i64 (sum_list (map (\<lambda>e. lp_BytesOut (snd e)) (k_proxies c)))"

text \<open>
  The exchange \<open>http\<close> gives the body of the answer for a URL, a form and a key, \<open>json\<close> its code. The result
  has the totals that the server accepted.
\<close>

definition reportTraffic ::
    "(string \<Rightarrow> string \<Rightarrow> string \<Rightarrow> bytes option) \<Rightarrow> (bytes \<Rightarrow> int option) \<Rightarrow> Client \<Rightarrow> (int \<times> int) option \<times> Client" where
  "reportTraffic http json c =
     (if k_reportAddr c = '''' \<or> k_apiKey c = '''' then (None, c)
      else
        let i = total_in c; out = total_out c in
        if i = 0 \<and> out = 0 then (None, c)
        else
          case http (report_url (k_reportAddr c)) (report_form c i out) (k_apiKey c) of
            None \<Rightarrow> (None, c)
          | Some body \<Rightarrow>
              (case json body of
                 None \<Rightarrow> (None, c)
               | Some code \<Rightarrow>
                   if code \<noteq> 0 then (None, c)
                   else
                     (Some (i, out),
                      c\<lparr>k_proxies := map (\<lambda>(n, p). (n, p\<lparr>lp_BytesIn := i64 (lp_BytesIn p - i), lp_BytesOut := i64 (lp_BytesOut p - out)\<rparr>))
                          (k_proxies c)\<rparr>)))"

text \<open>
  The reporter started by \<^verbatim>\<open>main\<close>: the interval in nanoseconds is a 64-bit product, and \<^verbatim>\<open>time.NewTicker\<close> panics
  (\<open>None\<close>) unless it is positive. One element of \<open>ticks\<close> is what happens from one tick to the next: how the
  client has changed since, and the exchange of the report.
\<close>

definition report_nanos :: "int \<Rightarrow> int" where
  "report_nanos seconds = sint (word_of_int seconds * (1000000000 :: 64 word))"

fun report_ticks ::
    "(bytes \<Rightarrow> int option) \<Rightarrow> ((Client \<Rightarrow> Client) \<times> (string \<Rightarrow> string \<Rightarrow> string \<Rightarrow> bytes option)) list \<Rightarrow> Client \<Rightarrow> (int \<times> int) list \<times> Client" where
  "report_ticks json [] c = ([], c)"
| "report_ticks json ((chg, http) # ticks) c =
     (case reportTraffic http json (chg c) of (r, c1) \<Rightarrow>
      case report_ticks json ticks c1 of (rs, c2) \<Rightarrow> ((case r of None \<Rightarrow> rs | Some x \<Rightarrow> x # rs), c2))"

definition startTrafficReporter ::
    "(bytes \<Rightarrow> int option) \<Rightarrow> int \<Rightarrow> ((Client \<Rightarrow> Client) \<times> (string \<Rightarrow> string \<Rightarrow> string \<Rightarrow> bytes option)) list \<Rightarrow> Client \<Rightarrow>
     ((int \<times> int) list \<times> Client) option" where
  "startTrafficReporter json seconds ticks c =
     (if report_nanos seconds \<le> 0 then None else Some (report_ticks json ticks c))"

section \<open>The reconnection loop\<close>

text \<open>
  One pass of the loop of \<^verbatim>\<open>main\<close> is an \<open>attempt\<close>: what dialling gives, the environment of the login, and the
  environment of the message loop. A run is given by its attempts; it ends early by \<^verbatim>\<open>os.Exit\<close> after a refused
  login or by a panic.
\<close>

record attempt =
  at_dial :: "dial_req \<Rightarrow> stream option"
  at_env :: session_env
  at_unmNewConn :: "bytes \<Rightarrow> NewConn option"
  at_unmClose :: "bytes \<Rightarrow> CloseProxyMsg option"
  at_conn :: "nat \<Rightarrow> conn_env"

datatype client_end = Running | Exited string | Panicked

definition client_attempt ::
    "(string \<Rightarrow> bytes option) \<Rightarrow> (bytes \<Rightarrow> bool) \<Rightarrow> attempt \<Rightarrow> Client \<Rightarrow> client_end \<times> request list \<times> Client" where
  "client_attempt readFile pemOK a c =
     (case connect (at_env a)
             (dialServer readFile pemOK (at_dial a) c (cc_ServerIP (k_cfg c) @ '':'' @ fmt_d (cc_ServerPort (k_cfg c)))) c of
        (Inl (AuthFailed e), rs, c1) \<Rightarrow> (Exited e, rs, c1)
      | (Inl _, rs, c1) \<Rightarrow> (Running, rs, c1)
      | (Inr inp, rs, c1) \<Rightarrow>
          (case handleMessages (at_unmNewConn a) (at_unmClose a) (at_conn a) inp c1 of (_, c2, _) \<Rightarrow>
             (case shutdownProxies c2 of
                None \<Rightarrow> (Panicked, rs, c2)
              | Some c3 \<Rightarrow> (Running, rs, c3))))"

fun client_main ::
    "(string \<Rightarrow> bytes option) \<Rightarrow> (bytes \<Rightarrow> bool) \<Rightarrow> attempt list \<Rightarrow> Client \<Rightarrow> client_end \<times> request list list \<times> Client" where
  "client_main readFile pemOK [] c = (Running, [], c)"
| "client_main readFile pemOK (a # as) c =
     (case client_attempt readFile pemOK a c of
        (Running, rs, c1) \<Rightarrow> (case client_main readFile pemOK as c1 of (e, rss, c2) \<Rightarrow> (e, rs # rss, c2))
      | (e, rs, c1) \<Rightarrow> (e, [rs], c1))"

section \<open>Lemmas\<close>

lemma dial_udp_proxies [simp]: "k_proxies (snd (dial_udp c)) = k_proxies c" "k_cfg (snd (dial_udp c)) = k_cfg c"
  "k_auth (snd (dial_udp c)) = k_auth c"
  by (simp_all add: dial_udp_def)

lemma close_udp_proxies [simp]:
  "k_proxies (close_udp h c) = k_proxies c" "k_cfg (close_udp h c) = k_cfg c" "k_auth (close_udp h c) = k_auth c"
  "k_proxies (close_udp_opt o1 c) = k_proxies c" "k_cfg (close_udp_opt o1 c) = k_cfg c"
  by (simp_all add: close_udp_def close_udp_opt_def split: option.split)

lemma startUDP_frame:
  assumes "startUDPDataChannel os unix p port c = (ok, out, p1, c1)"
  shows "k_proxies c1 = k_proxies c" "k_cfg c1 = k_cfg c" "lp_Type p1 = lp_Type p"
  using assms by (auto simp: startUDPDataChannel_def dial_udp_def close_udp_def Let_def split: if_splits)

lemma registerProxy_frame:
  assumes "registerProxy en nm pc c inp = (rs, c1, i1)"
  shows "k_cfg c1 = k_cfg c" and "other \<noteq> nm \<Longrightarrow> map_of (k_proxies c1) other = map_of (k_proxies c) other"
  using assms
  by (auto simp: registerProxy_def Let_def dest: startUDP_frame(1,2) split: if_splits sum.splits option.splits prod.splits)

text \<open>A tunnel that the client already knows is neither requested nor changed.\<close>

lemma register_all_known:
  assumes "map_of (k_proxies c) nm = Some p" and "register_all en es c inp = (rs, c1, i1)"
  shows "map_of (k_proxies c1) nm = Some p \<and> k_cfg c1 = k_cfg c"
  using assms
proof (induction es arbitrary: c inp rs)
  case (Cons e es)
  show ?case
  proof (cases "map_of (k_proxies c) (fst e)")
    case None
    then obtain r2 c2 i2 rs' where r: "registerProxy en (fst e) (snd e) c inp = (r2, c2, i2)" "register_all en es c2 i2 = (rs', c1, i1)"
      using Cons.prems(2) by (auto split: prod.splits)
    have "map_of (k_proxies c2) nm = Some p" using None Cons.prems(1) registerProxy_frame(2) [OF r(1), of nm]
      by (cases "nm = fst e") auto
    with Cons.IH [OF this r(2)] registerProxy_frame(1) [OF r(1)] show ?thesis by simp
  qed (use Cons in auto)
qed simp

lemma register_all_nothing:
  "\<forall>e \<in> set es. map_of (k_proxies c) (fst e) \<noteq> None \<Longrightarrow> register_all en es c inp = ([], c, inp)"
  by (induction es) auto

lemma registerLocal_known:
  "map_of (k_proxies c) nm = Some p \<Longrightarrow> registerLocalProxies en c inp = (rs, c1, i1) \<Longrightarrow> map_of (k_proxies c1) nm = Some p \<and> k_cfg c1 = k_cfg c"
  unfolding registerLocalProxies_def by (rule register_all_known)

lemma sync_known:
  assumes "map_of (k_proxies c) nm = Some p" and "syncAndRegisterProxies en c inp = (rs, c1, i1)"
  shows "map_of (k_proxies c1) nm = Some p"
  using assms
  by (auto simp: syncAndRegisterProxies_def Let_def dest: registerLocal_known register_all_known split: if_splits option.splits prod.splits)

lemma connect_known:
  assumes "map_of (k_proxies c) nm = Some p" and "connect en d c = (r, rs, c1)"
  shows "map_of (k_proxies c1) nm = Some p"
  using assms sync_known [of "c\<lparr>k_conn := True\<rparr>" nm p en]
  by (auto simp: connect_def Let_def split: if_splits option.splits sum.splits prod.splits)

lemma connect_requests:
  assumes "connect en d c = (r, rs, c1)"
  shows "rs = [] \<or> rs = [RqLogin \<lparr>lg_Version = '''', lg_Token = cc_Token (k_cfg c)\<rparr>] \<or>
    (\<exists>inp. rs = RqLogin \<lparr>lg_Version = '''', lg_Token = cc_Token (k_cfg c)\<rparr> # fst (syncAndRegisterProxies en (c\<lparr>k_conn := True\<rparr>) inp))"
  using assms unfolding connect_def Let_def
  by (auto split: option.splits sum.splits prod.splits if_splits) (metis fst_conv)

lemma message_loop_known:
  "client_message_loop fuel unmN unmC os inp c = (es, c1, r) \<Longrightarrow> map_of (k_proxies c1) nm = Some p \<Longrightarrow> map_of (k_proxies c) nm = Some p"
proof (induction fuel arbitrary: inp c es)
  case (Suc fuel)
  have "map_of (k_proxies (client_handleCloseProxy unmC c msg)) nm = Some p \<Longrightarrow> map_of (k_proxies c) nm = Some p" for msg
    by (auto simp: client_handleCloseProxy_def Let_def split: option.splits if_splits)
  with Suc show ?case by (auto split: sum.splits prod.splits if_splits)
qed simp

lemma message_loop_ends: "length (inb inp) < fuel \<Longrightarrow> snd (snd (client_message_loop fuel unmN unmC os inp c)) \<noteq> None"
proof (induction fuel arbitrary: inp c)
  case (Suc fuel)
  show ?case
  proof (cases "ReadMessage inp")
    case (Inr r)
    obtain msg rest where r: "r = (msg, rest)" by fastforce
    have "length (inb rest) < fuel" using Suc.prems Inr r by (auto simp: ReadMessage_Inr_iff)
    with Suc.IH [OF this] Inr r show ?thesis by (auto simp: case_prod_unfold)
  qed simp
qed simp

text \<open>Shutting down marks every UDP tunnel as quit and keeps the table's names.\<close>

definition quit_proxy :: "LProxy \<Rightarrow> LProxy" where
  "quit_proxy p = (if lp_Type p \<noteq> ProxyUDP \<or> lp_udpDataConn p = None then p else p\<lparr>lp_udpQuit := Some True, lp_udpSessions := []\<rparr>)"

lemma fold_close_proxies [simp]:
  "k_proxies (fold (\<lambda>s. close_udp (bs_conn (snd s))) ss c) = k_proxies c" "k_cfg (fold (\<lambda>s. close_udp (bs_conn (snd s))) ss c) = k_cfg c"
  by (induction ss arbitrary: c) auto

lemma shutdown_proxy_Some:
  "shutdown_proxy p c = Some (p1, c1) \<Longrightarrow> p1 = quit_proxy p \<and> k_proxies c1 = k_proxies c \<and> k_cfg c1 = k_cfg c"
  by (auto simp: shutdown_proxy_def quit_proxy_def Let_def split: if_splits)

lemma shutdown_loop_Some:
  "shutdown_loop es c = Some c1 \<Longrightarrow> distinct (map fst es) \<Longrightarrow>
   map_of (k_proxies c1) nm = (case map_of es nm of Some p \<Rightarrow> Some (quit_proxy p) | None \<Rightarrow> map_of (k_proxies c) nm) \<and> k_cfg c1 = k_cfg c"
proof (induction es arbitrary: c)
  case (Cons e es)
  then obtain p c2 where s: "shutdown_proxy (snd e) c = Some (p, c2)"
    and l: "shutdown_loop es (c2\<lparr>k_proxies := gput (fst e) p (k_proxies c2)\<rparr>) = Some c1"
    by (auto split: option.splits)
  have "map_of es (fst e) = None" using Cons.prems(2) by (simp add: map_of_eq_None_iff)
  then show ?case
    using Cons.IH [OF l] Cons.prems(2) shutdown_proxy_Some [OF s] by (auto split: option.splits)
qed simp

lemma shutdownProxies_Some:
  assumes "gwf (k_proxies c)" "shutdownProxies c = Some c1"
  shows "map_of (k_proxies c1) nm = map_option quit_proxy (map_of (k_proxies c) nm)" and "k_cfg c1 = k_cfg c"
  using shutdown_loop_Some [of "k_proxies c" c c1 nm] assms by (auto simp: shutdownProxies_def gwf_def split: option.splits)

lemma shutdown_loop_other:
  "nm \<notin> fst ` set es \<Longrightarrow> shutdown_loop es c = Some c1 \<Longrightarrow> map_of (k_proxies c1) nm = map_of (k_proxies c) nm"
proof (induction es arbitrary: c)
  case (Cons e es)
  then show ?case by (auto dest!: shutdown_proxy_Some split: option.splits)
qed simp

lemma shutdown_loop_panics:
  "(nm, p) \<in> set es \<Longrightarrow> lp_Type p = ProxyUDP \<Longrightarrow> lp_udpDataConn p \<noteq> None \<Longrightarrow> lp_udpQuit p = Some True \<Longrightarrow> shutdown_loop es c = None"
proof (induction es arbitrary: c)
  case (Cons e es)
  then show ?case by (cases "e = (nm, p)") (auto simp: shutdown_proxy_def split: option.splits)
qed simp

section \<open>Properties\<close>

text \<open>
  C30: After a disconnection the client keeps its table of tunnels. When it connects again, no tunnel of its
  configuration and no tunnel of the server's list that it had before is requested from the server, which
  has removed them: apart from the login and the synchronisation the new connection carries no request.
\<close>
theorem reconnect_requests_no_tunnel:
  assumes "gwf (k_proxies c)" and "shutdownProxies c = Some c1"
    and "\<forall>e \<in> set (cc_Proxies (k_cfg c)). map_of (k_proxies c) (fst e) \<noteq> None"
    and "\<forall>b resp. se_unmSync en b = Some resp \<longrightarrow> (\<forall>i \<in> set (sr_Proxies resp). map_of (k_proxies c) (si_Name i) \<noteq> None)"
    and "connect en d c1 = (r, rs, c2)"
  shows "set rs \<subseteq> {RqLogin \<lparr>lg_Version = '''', lg_Token = cc_Token (k_cfg c)\<rparr>, RqSyncProxies}"
proof -
  note sh = shutdownProxies_Some [OF assms(1,2)]
  let ?c = "c1\<lparr>k_conn := True\<rparr>"
  have l: "registerLocalProxies en ?c inp = ([], ?c, inp)" for inp
    unfolding registerLocalProxies_def using assms(3) by (intro register_all_nothing) (simp add: sh)
  have i: "register_all en (map config_of_item (sr_Proxies resp)) ?c inp = ([], ?c, inp)" if "se_unmSync en b = Some resp" for b resp inp
    using assms(4) that by (intro register_all_nothing) (auto simp: sh config_of_item_def)
  have "set (fst (syncAndRegisterProxies en ?c inp)) \<subseteq> {RqSyncProxies}" for inp
    by (auto simp: syncAndRegisterProxies_def Let_def l i ParseMessage_def split: option.splits sum.splits prod.splits if_splits)
  then show ?thesis
    using connect_requests [OF assms(5)] by (force simp: sh)
qed

text \<open>
  A client with a UDP tunnel that loses its connection twice crashes: the first disconnection closes the
  tunnel's quit channel, the reconnection keeps the tunnel as it is, and the next disconnection closes the
  channel again, unless the server asked to close that tunnel in between.
\<close>
theorem second_disconnection_panics:
  assumes "gwf (k_proxies c)" and "map_of (k_proxies c) nm = Some p" and "lp_Type p = ProxyUDP" and "lp_udpDataConn p \<noteq> None"
    and "shutdownProxies c = Some c1" and "client_attempt readFile pemOK a c1 = (e, rs, c2)"
    and "map_of (k_proxies c2) nm \<noteq> None" and "\<exists>inp. fst (connect (at_env a) (dialServer readFile pemOK (at_dial a) c1
           (cc_ServerIP (k_cfg c1) @ '':'' @ fmt_d (cc_ServerPort (k_cfg c1)))) c1) = Inr inp"
  shows "e = Panicked"
proof -
  let ?q = "quit_proxy p"
  have q: "lp_Type ?q = ProxyUDP" "lp_udpDataConn ?q \<noteq> None" "lp_udpQuit ?q = Some True"
    using assms(3,4) by (auto simp: quit_proxy_def)
  have k: "map_of (k_proxies c1) nm = Some ?q" using shutdownProxies_Some(1) [OF assms(1,5)] assms(2) by simp
  obtain inp rs1 c3 where co: "connect (at_env a) (dialServer readFile pemOK (at_dial a) c1
      (cc_ServerIP (k_cfg c1) @ '':'' @ fmt_d (cc_ServerPort (k_cfg c1)))) c1 = (Inr inp, rs1, c3)"
    using assms(8) by (metis fst_conv surj_pair)
  obtain es c4 r4 where ml: "handleMessages (at_unmNewConn a) (at_unmClose a) (at_conn a) inp c3 = (es, c4, r4)" by (metis prod_cases3)
  show ?thesis
  proof (cases "shutdownProxies c4")
    case None
    then show ?thesis using assms(6) co ml by (simp add: client_attempt_def)
  next
    case (Some c5)
    then have "c2 = c5" using assms(6) co ml by (simp add: client_attempt_def)
    show ?thesis
    proof (cases "map_of (k_proxies c4) nm")
      case None
      then have "map_of (k_proxies c5) nm = None"
        using shutdown_loop_other [of nm "k_proxies c4" c4 c5] \<open>shutdownProxies c4 = Some c5\<close>
        by (simp add: shutdownProxies_def map_of_eq_None_iff)
      then show ?thesis using assms(7) \<open>c2 = c5\<close> by simp
    next
      case (Some p4)
      with message_loop_known [OF ml [unfolded handleMessages_def]] connect_known [OF k co] have "p4 = ?q" by auto
      with Some shutdown_loop_panics [OF map_of_SomeD q] \<open>shutdownProxies c4 = Some c5\<close> show ?thesis
        by (simp add: shutdownProxies_def)
    qed
  qed
qed

text \<open>A client with one UDP tunnel, and a server that accepts the login and then closes.\<close>

definition demo_udp_proxy :: LProxy where
  "demo_udp_proxy = (new_local_proxy ''dns'' \<lparr>pc_Type = ProxyUDP, pc_Port = 53, pc_LocalAddr = ''127.0.0.1'', pc_LocalPort = 53\<rparr>)
     \<lparr>lp_udpDataConn := Some 0, lp_udpQuit := Some False\<rparr>"

definition demo_client :: Client where
  "demo_client = \<lparr>k_cfg = DefaultClientConfig\<lparr>cc_Proxies := [(''dns'', \<lparr>pc_Type = ProxyUDP, pc_Port = 53, pc_LocalAddr = ''127.0.0.1'', pc_LocalPort = 53\<rparr>)]\<rparr>,
     k_auth = NewAuth ''t'', k_proxies = [(''dns'', demo_udp_proxy)], k_conn = True, k_apiKey = '''', k_tunnelID = '''', k_reportAddr = '''',
     k_socks = [0], k_next = 1\<rparr>"

definition demo_env :: session_env where
  "demo_env = \<lparr>se_wrote = (\<lambda>_. True), se_udp = (\<lambda>_. \<lparr>de_resolve = True, de_dial = True, de_write = True\<rparr>), se_unix = 0,
     se_unmLogin = (\<lambda>_. Some \<lparr>lr_Success = True, lr_Error = ''''\<rparr>), se_unmSync = (\<lambda>_. None), se_unmResp = (\<lambda>_. None)\<rparr>"

definition demo_login_stream :: stream where
  "demo_login_stream = \<lparr>inb = frameMessage TypeLoginResp [], tail_err = EOF\<rparr>"

definition demo_attempt :: attempt where
  "demo_attempt = \<lparr>at_dial = (\<lambda>_. Some demo_login_stream), at_env = demo_env, at_unmNewConn = (\<lambda>_. None), at_unmClose = (\<lambda>_. None),
     at_conn = (\<lambda>_. \<lparr>ce_local = True, ce_data = True, ce_ident = True\<rparr>)\<rparr>"

definition demo_client_down :: Client where
  "demo_client_down = demo_client\<lparr>k_proxies := [(''dns'', quit_proxy demo_udp_proxy)], k_socks := []\<rparr>"

lemma demo_shutdown: "shutdownProxies demo_client = Some demo_client_down"
  by (simp add: shutdownProxies_def demo_client_def demo_client_down_def shutdown_proxy_def quit_proxy_def demo_udp_proxy_def
      new_local_proxy_def close_udp_opt_def close_udp_def)

lemma ReadMessage_nothing: "ReadMessage \<lparr>inb = [], tail_err = e\<rparr> = Inl (IoErr e)"
  by (simp add: ReadMessage_def ReadFull_def)

lemma demo_connect:
  "connect demo_env (Some demo_login_stream) demo_client_down =
     (Inr \<lparr>inb = [], tail_err = EOF\<rparr>, [RqLogin \<lparr>lg_Version = '''', lg_Token = ''your_token_here''\<rparr>, RqSyncProxies], demo_client_down)"
proof -
  have rd: "ReadMessage demo_login_stream = Inr (\<lparr>msg_Type = TypeLoginResp, msg_Data = []\<rparr>, \<lparr>inb = [], tail_err = EOF\<rparr>)"
    using ReadMessage_frame [of "\<lparr>msg_Type = TypeLoginResp, msg_Data = []\<rparr>" "[]" EOF]
    by (simp add: demo_login_stream_def valid_message_def TypeLoginResp_def maxValidType_def)
  show ?thesis
    by (simp add: connect_def rd demo_env_def ParseMessage_def syncAndRegisterProxies_def ReadMessage_nothing after_read_def
        registerLocalProxies_def demo_client_down_def demo_client_def DefaultClientConfig_def)
qed

theorem reconnect_requests_no_tunnel_witness:
  "\<exists>c c1 r rs c2. shutdownProxies c = Some c1 \<and> connect demo_env (Some demo_login_stream) c1 = (Inr r, rs, c2) \<and>
     RqSyncProxies \<in> set rs \<and> (\<forall>np. RqNewProxy np \<notin> set rs)"
proof -
  have "gwf (k_proxies demo_client)" "\<forall>e \<in> set (cc_Proxies (k_cfg demo_client)). map_of (k_proxies demo_client) (fst e) \<noteq> None"
    "\<forall>b resp. se_unmSync demo_env b = Some resp \<longrightarrow> (\<forall>i \<in> set (sr_Proxies resp). map_of (k_proxies demo_client) (si_Name i) \<noteq> None)"
    by (simp_all add: demo_client_def gwf_def demo_env_def)
  from reconnect_requests_no_tunnel [OF this(1) demo_shutdown this(2,3) demo_connect] demo_shutdown demo_connect
  show ?thesis by (intro exI conjI) auto
qed

theorem second_disconnection_panics_witness:
  "\<exists>c2 rs. client_attempt (\<lambda>_. None) (\<lambda>_. False) demo_attempt demo_client_down = (Panicked, rs, c2)"
proof -
  obtain e rs c2 where a: "client_attempt (\<lambda>_. None) (\<lambda>_. False) demo_attempt demo_client_down = (e, rs, c2)" by (metis prod_cases3)
  have dial: "dialServer (\<lambda>_. None) (\<lambda>_. False) (at_dial demo_attempt) demo_client_down addr = Some demo_login_stream" for addr
    by (simp add: dialServer_def demo_attempt_def Let_def)
  have co: "connect (at_env demo_attempt) (dialServer (\<lambda>_. None) (\<lambda>_. False) (at_dial demo_attempt) demo_client_down addr) demo_client_down =
     (Inr \<lparr>inb = [], tail_err = EOF\<rparr>, [RqLogin \<lparr>lg_Version = '''', lg_Token = ''your_token_here''\<rparr>, RqSyncProxies], demo_client_down)" for addr
    using demo_connect by (simp add: dial) (simp add: demo_attempt_def)
  have k: "gwf (k_proxies demo_client)" "map_of (k_proxies demo_client) ''dns'' = Some demo_udp_proxy" "lp_Type demo_udp_proxy = ProxyUDP"
    "lp_udpDataConn demo_udp_proxy \<noteq> None"
    by (simp_all add: demo_client_def gwf_def demo_udp_proxy_def new_local_proxy_def)
  have shut: "shutdownProxies demo_client_down = None"
    by (simp add: shutdownProxies_def demo_client_down_def shutdown_proxy_def quit_proxy_def demo_udp_proxy_def new_local_proxy_def)
  have "map_of (k_proxies c2) ''dns'' \<noteq> None"
    using a shut by (simp add: client_attempt_def co handleMessages_def ReadMessage_nothing) (auto simp: demo_client_down_def)
  then have "e = Panicked"
    using co by (intro second_disconnection_panics [OF k demo_shutdown a]) (auto simp del: split_paired_Ex)
  with a show ?thesis by blast
qed

text \<open>
  A traffic report subtracts the sum over all tunnels from every tunnel. With \<open>n\<close> tunnels an accepted
  report leaves \<open>(1 - n)\<close> times the reported amount (in the arithmetic of 64 bits): the counters are reset
  exactly for a single tunnel, and become negative for two or more, so later reports are wrong. Without an
  accepted report nothing changes.
\<close>
theorem report_resets_only_single_tunnels:
  assumes "reportTraffic http json c = (r, c1)"
  shows "(r = None \<and> c1 = c) \<or>
    (r = Some (total_in c, total_out c) \<and>
     total_in c1 = i64 ((1 - int (length (k_proxies c))) * total_in c) \<and>
     total_out c1 = i64 ((1 - int (length (k_proxies c))) * total_out c))"
proof -
  have s: "i64 (sum_list (map (\<lambda>x. i64 (f x - i64 k)) xs)) = i64 (sum_list (map f xs) - int (length xs) * k)"
    for f :: "string \<times> LProxy \<Rightarrow> int" and k xs
  proof (induction xs)
    case (Cons x xs)
    have "i64 (i64 (f x - i64 k) + sum_list (map (\<lambda>x. i64 (f x - i64 k)) xs)) =
        i64 ((f x - k) + i64 (sum_list (map (\<lambda>x. i64 (f x - i64 k)) xs)))"
      by simp
    also have "\<dots> = i64 ((f x - k) + (sum_list (map f xs) - int (length xs) * k))"
      unfolding Cons.IH by simp
    finally show ?case by (simp add: algebra_simps)
  qed simp
  have e: "i64 (S - n * S) = i64 ((1 - n) * i64 S)" for S n
    unfolding i64_mult by (simp add: left_diff_distrib)
  show ?thesis
    using assms
    by (auto simp: reportTraffic_def Let_def total_in_def total_out_def comp_def case_prod_unfold s e simp del: i64_diff i64_mult
        split: if_splits option.splits)
qed

theorem report_resets_only_single_tunnels_witness:
  "\<exists>c c1 r. reportTraffic (\<lambda>_ _ _. Some []) (\<lambda>_. Some 0) c = (Some r, c1) \<and> total_in c = 30 \<and> total_in c1 = - 30"
proof -
  let ?c = "demo_client\<lparr>k_apiKey := ''k'', k_reportAddr := ''a'',
     k_proxies := [(''x'', demo_udp_proxy\<lparr>lp_BytesIn := 10\<rparr>), (''y'', demo_udp_proxy\<lparr>lp_BytesIn := 20\<rparr>)]\<rparr>"
  obtain r c1 where rt: "reportTraffic (\<lambda>_ _ _. Some []) (\<lambda>_. Some 0) ?c = (r, c1)" by fastforce
  have "total_in ?c = 30" by (simp add: total_in_def i64_id)
  moreover have "r \<noteq> None" using rt calculation by (auto simp: reportTraffic_def Let_def)
  ultimately show ?thesis using rt report_resets_only_single_tunnels [OF rt] by (intro exI [of _ ?c] exI [of _ c1]) (auto simp: i64_id)
qed

text \<open>
  The reporter over any number of ticks. With one tunnel nothing is lost or reported twice: the accepted
  reports and what is still counted add up to the traffic (modulo the width of the counters), whichever
  exchanges fail.
\<close>

lemma report_step_single:
  assumes "reportTraffic http json c = (r, c1)" and "length (k_proxies c) = 1"
  shows "(case r of None \<Rightarrow> 0 | Some x \<Rightarrow> fst x) + total_in c1 = total_in c"
    and "(case r of None \<Rightarrow> 0 | Some x \<Rightarrow> snd x) + total_out c1 = total_out c"
    and "length (k_proxies c1) = 1"
  using report_resets_only_single_tunnels [OF assms(1)] assms
  by (auto simp: reportTraffic_def Let_def split: if_splits option.splits)

lemma total_i64 [simp]: "i64 (total_in c) = total_in c" "i64 (total_out c) = total_out c"
  by (simp_all add: total_in_def total_out_def)

lemma reports_conserve_single_tunnel:
  assumes "list_all2 (\<lambda>t (din, dout). \<forall>c. length (k_proxies (fst t c)) = length (k_proxies c) \<and>
      total_in (fst t c) = i64 (total_in c + din) \<and> total_out (fst t c) = i64 (total_out c + dout)) ticks ds"
    and "length (k_proxies c) = 1" and "report_ticks json ticks c = (rs, c')"
  shows "i64 (sum_list (map fst rs) + total_in c') = i64 (total_in c + sum_list (map fst ds)) \<and>
    i64 (sum_list (map snd rs) + total_out c') = i64 (total_out c + sum_list (map snd ds))"
  using assms
proof (induction ticks arbitrary: ds c rs)
  case (Cons t ticks)
  obtain d ds' where ds: "ds = d # ds'" using Cons.prems(1) by (auto simp: list_all2_Cons1)
  obtain r c1 where r: "reportTraffic (snd t) json (fst t c) = (r, c1)" by fastforce
  obtain rs' where rs': "report_ticks json ticks c1 = (rs', c')" "rs = (case r of None \<Rightarrow> rs' | Some x \<Rightarrow> x # rs')"
    using Cons.prems(3) r by (cases t) (auto split: prod.splits)
  have t: "length (k_proxies (fst t c)) = 1" "total_in (fst t c) = i64 (total_in c + fst d)" "total_out (fst t c) = i64 (total_out c + snd d)"
    using Cons.prems(1,2) ds by (auto simp: case_prod_unfold)
  note step = report_step_single [OF r t(1)]
  have ih: "i64 (sum_list (map fst rs') + total_in c') = i64 (total_in c1 + sum_list (map fst ds'))"
      "i64 (sum_list (map snd rs') + total_out c') = i64 (total_out c1 + sum_list (map snd ds'))"
    using Cons.IH [OF _ step(3) rs'(1)] Cons.prems(1) ds by simp_all
  have q: "i64 (a + b) = i64 (z + (x + y))" if "i64 b = i64 (w + y)" and "a + w = i64 (z + x)" for a b w x y z
  proof -
    have "i64 (a + b) = i64 (a + (w + y))" using that(1) by (metis i64_add(2))
    also have "\<dots> = i64 (i64 (z + x) + y)" using that(2) by (simp add: add.assoc [symmetric] del: i64_add)
    finally show ?thesis by (simp add: add.assoc)
  qed
  have rs: "sum_list (map fst rs) = (case r of None \<Rightarrow> 0 | Some x \<Rightarrow> fst x) + sum_list (map fst rs')"
      "sum_list (map snd rs) = (case r of None \<Rightarrow> 0 | Some x \<Rightarrow> snd x) + sum_list (map snd rs')"
    using rs'(2) by (simp_all split: option.split)
  show ?case
    using q [OF ih(1)] q [OF ih(2)] step(1,2) t(2,3) by (simp add: rs ds add.assoc)
qed simp

text \<open>Intervals of a second and more run, up to 292 years; 0 and negative values panic.\<close>

lemma report_nanos_exact:
  assumes "\<bar>seconds\<bar> \<le> 9223372036"
  shows "report_nanos seconds = seconds * 1000000000"
proof -
  have "word_of_int seconds * (1000000000 :: 64 word) = word_of_int (seconds * 1000000000)" by simp
  then have "report_nanos seconds = signed_take_bit 63 (seconds * 1000000000)"
    unfolding report_nanos_def by (simp only: sint_sbintrunc' len_num1) (simp add: signed_take_bit_eq_take_bit_shift)
  then show ?thesis using assms by (simp add: signed_take_bit_int_eq_self)
qed

lemma startTrafficReporter_panics:
  assumes "\<bar>seconds\<bar> \<le> 9223372036"
  shows "startTrafficReporter json seconds ticks c = None \<longleftrightarrow> seconds \<le> 0"
  by (simp add: startTrafficReporter_def report_nanos_exact [OF assms])

end
