(* ===== verification/WebSession.thy ===== *)
theory WebSession
  imports Tenants
begin

text \<open>
  Model of the administration panel in \<^verbatim>\<open>pkg/web/server.go\<close> and \<^verbatim>\<open>pkg/web/security.go\<close>: password login with its
  lock-out, sessions with CSRF tokens, security settings, password change, logs, and the panel's handlers. The
  panel manages the server through the \<^verbatim>\<open>ProxyManager\<close> interface, which is the model \<open>Server\<close> (\<open>ws_pm\<close>); the
  database is the one of that server. Instants are nanoseconds since Go's zero time, so an unset \<^verbatim>\<open>time.Time\<close>
  is 0. Random bytes, JSON decoders, file contents and results of writing files are arguments. Texts of log
  entries are UTF-8; error texts of responses are named constants.
\<close>

section \<open>Text\<close>

definition utf8 :: "nat \<Rightarrow> string" where
  "utf8 n =
     (if n < 0x80 then [char_of n]
      else if n < 0x800 then [char_of (0xC0 + n div 64), char_of (0x80 + n mod 64)]
      else [char_of (0xE0 + n div 4096), char_of (0x80 + n div 64 mod 64), char_of (0x80 + n mod 64)])"

definition uni :: "nat list \<Rightarrow> string" where
  "uni ns = concat (map utf8 ns)"

fun has_prefix :: "string \<Rightarrow> string \<Rightarrow> bool" where
  "has_prefix s [] = True"
| "has_prefix [] (c # cs) = False"
| "has_prefix (d # ds) (c # cs) = (d = c \<and> has_prefix ds cs)"

fun contains_text :: "string \<Rightarrow> string \<Rightarrow> bool" where
  "contains_text [] k = (k = [])"
| "contains_text (c # cs) k = (has_prefix (c # cs) k \<or> contains_text cs k)"

text \<open>\<^verbatim>\<open>itoa\<close>: the loop runs while the number is positive, so a negative number gives no digits.\<close>

definition itoa :: "int \<Rightarrow> string" where
  "itoa n = (if n = 0 then ''0'' else if n > 0 then dec_digits (nat n) else '''')"

text \<open>The host of \<^verbatim>\<open>net.SplitHostPort\<close>, or \<open>None\<close> for an error.\<close>

definition split_host :: "string \<Rightarrow> string option" where
  "split_host hp =
     (if CHR '':'' \<notin> set hp then None
      else if take 1 hp = ''['' then
        (if CHR '']'' \<notin> set hp then None
         else
           let host = takeWhile (\<lambda>c. c \<noteq> CHR '']'') (drop 1 hp); rest = drop (length host + 2) hp in
           if take 1 rest \<noteq> '':'' \<or> CHR '':'' \<in> set (drop 1 rest) then None
           else if CHR ''['' \<in> set (drop 1 hp) \<or> CHR '']'' \<in> set rest then None
           else Some host)
      else
        let host = before_last_colon hp in
        if CHR '':'' \<in> set host \<or> CHR ''['' \<in> set hp \<or> CHR '']'' \<in> set hp then None else Some host)"

section \<open>State\<close>

record SecuritySettings =
  sec_SessionTimeoutMin :: int
  sec_RateLimitMax :: int
  sec_RateLimitLockMin :: int
  sec_CSRFProtection :: bool
  sec_SecurityHeaders :: bool
  sec_HttpOnlyCookie :: bool
  sec_SameSiteCookie :: bool
  sec_CustomCSP :: string

record WebSettings =
  wst_Security :: SecuritySettings
  wst_AdminPasswordHash :: string
  wst_AdminPasswordSalt :: string

record sessionInfo =
  ss_expireTime :: int
  ss_csrfToken :: string

record loginAttempt =
  la_count :: int
  la_lockUntil :: int

record LogEntry =
  lo_Time :: int
  lo_Level :: string
  lo_Message :: string

record WebConfig =
  wc_Addr :: string
  wc_Port :: int
  wc_AdminPassword :: string
  wc_TrustProxy :: bool
  wc_SettingsFile :: string
  wc_CertFile :: string
  wc_KeyFile :: string
  wc_APIKeys :: "string list"
  wc_WebhookURL :: string

record WebServer =
  ws_passwordHash :: string
  ws_passwordSalt :: string
  ws_sessions :: "(string, sessionInfo) gomap"
  ws_failedLogins :: "(string, loginAttempt) gomap"
  ws_logs :: "LogEntry list"
  ws_config :: WebConfig
  ws_security :: SecuritySettings
  ws_settingsFile :: string
  ws_apiKeys :: "(string, bool) gomap option"
  ws_pm :: Server
  ws_disk :: "WebSettings option"                \<comment> \<open>content of the settings file\<close>

definition AddLog :: "int \<Rightarrow> string \<Rightarrow> string \<Rightarrow> WebServer \<Rightarrow> WebServer" where
  "AddLog now level msg ws =
     (let l = ws_logs ws @ [\<lparr>lo_Time = now, lo_Level = level, lo_Message = msg\<rparr>]
      in ws\<lparr>ws_logs := (if length l > 500 then drop (length l - 500) l else l)\<rparr>)"

section \<open>Settings\<close>

definition defaultSecuritySettings :: SecuritySettings where
  "defaultSecuritySettings = \<lparr>sec_SessionTimeoutMin = 30, sec_RateLimitMax = 5, sec_RateLimitLockMin = 15, sec_CSRFProtection = True,
     sec_SecurityHeaders = True, sec_HttpOnlyCookie = True, sec_SameSiteCookie = True, sec_CustomCSP = ''''\<rparr>"

text \<open>\<^verbatim>\<open>json.Unmarshal(data, ws)\<close> overwrites the fields that the file has.\<close>

definition loadWebSettings :: "(bytes \<Rightarrow> WebSettings \<Rightarrow> WebSettings) \<Rightarrow> string \<Rightarrow> bytes option \<Rightarrow> WebSettings" where
  "loadWebSettings unm path file =
     (let d = \<lparr>wst_Security = defaultSecuritySettings, wst_AdminPasswordHash = '''', wst_AdminPasswordSalt = ''''\<rparr> in
      if path = '''' then d else case file of None \<Rightarrow> d | Some data \<Rightarrow> unm data d)"

record save_env =
  sv_marshal_ok :: bool
  sv_write_ok :: bool
  sv_rename_ok :: bool

definition saveSettings :: "save_env \<Rightarrow> SecuritySettings \<Rightarrow> string \<Rightarrow> string \<Rightarrow> WebServer \<Rightarrow> bool \<times> WebServer" where
  "saveSettings io sec pwdHash pwdSalt ws =
     (if ws_settingsFile ws = '''' then (True, ws)
      else if \<not> sv_marshal_ok io then (False, ws)
      else if \<not> sv_write_ok io then (False, ws)
      else if \<not> sv_rename_ok io then (False, ws)
      else (True, ws\<lparr>ws_disk := Some \<lparr>wst_Security = sec, wst_AdminPasswordHash = pwdHash, wst_AdminPasswordSalt = pwdSalt\<rparr>\<rparr>))"

definition timeout_min :: "WebServer \<Rightarrow> int" where
  "timeout_min ws = (let m = sec_SessionTimeoutMin (ws_security ws) in if m \<le> 0 then 30 else m)"

definition getSessionTimeout :: "WebServer \<Rightarrow> int" where
  "getSessionTimeout ws = timeout_min ws * Minute"

definition getSessionTimeoutSec :: "WebServer \<Rightarrow> int" where
  "getSessionTimeoutSec ws = timeout_min ws * 60"

definition getRateLimitMax :: "WebServer \<Rightarrow> int" where
  "getRateLimitMax ws = (let m = sec_RateLimitMax (ws_security ws) in if m \<le> 0 then 5 else m)"

definition getRateLimitLockMin :: "WebServer \<Rightarrow> int" where
  "getRateLimitLockMin ws = (let m = sec_RateLimitLockMin (ws_security ws) in if m \<le> 0 then 15 else m)"

datatype SameSite = SameSiteDefaultMode | SameSiteStrictMode

definition sameSite :: "WebServer \<Rightarrow> SameSite" where
  "sameSite ws = (if sec_SameSiteCookie (ws_security ws) then SameSiteStrictMode else SameSiteDefaultMode)"

definition applySecurityHeaders :: "WebServer \<Rightarrow> (string \<times> string) list" where
  "applySecurityHeaders ws =
     (if \<not> sec_SecurityHeaders (ws_security ws) then []
      else
        [(''X-Content-Type-Options'', ''nosniff''), (''X-Frame-Options'', ''DENY''), (''X-XSS-Protection'', ''1; mode=block''),
         (''Content-Security-Policy'',
          if sec_CustomCSP (ws_security ws) \<noteq> '''' then sec_CustomCSP (ws_security ws)
          else ''default-src '' @ [CHR 0x27] @ ''self'' @ [CHR 0x27] @ ''; script-src '' @ [CHR 0x27] @ ''self'' @ [CHR 0x27] @ '' '' @
               [CHR 0x27] @ ''unsafe-inline'' @ [CHR 0x27] @ ''; style-src '' @ [CHR 0x27] @ ''self'' @ [CHR 0x27] @ '' '' @ [CHR 0x27] @
               ''unsafe-inline'' @ [CHR 0x27]),
         (''Referrer-Policy'', ''strict-origin-when-cross-origin''), (''X-Permitted-Cross-Domain-Policies'', ''none''),
         (''Strict-Transport-Security'', ''max-age=31536000; includeSubDomains'')])"

section \<open>Passwords and random values\<close>

definition hashPasswordWithSalt :: "string \<Rightarrow> string \<Rightarrow> string" where
  "hashPasswordWithSalt password salt =
     hex_EncodeToString ((Sum256 ^^ 1000) (Sum256 (bytes_of_string (salt @ password @ salt))))"

definition generateSalt :: "bytes \<Rightarrow> string" where "generateSalt b = hex_EncodeToString b"
definition generateSessionID :: "bytes \<Rightarrow> string" where "generateSessionID b = hex_EncodeToString b"
definition generateCSRFToken :: "bytes \<Rightarrow> string" where "generateCSRFToken b = hex_EncodeToString b"

definition key_map :: "string list \<Rightarrow> (string, bool) gomap" where
  "key_map ks = foldl (\<lambda>m k. if k \<noteq> '''' then gput k True m else m) [] ks"

definition NewWebServer ::
    "(bytes \<Rightarrow> WebSettings \<Rightarrow> WebSettings) \<Rightarrow> bytes option \<Rightarrow> bytes \<Rightarrow> WebConfig \<Rightarrow> Server \<Rightarrow> WebServer" where
  "NewWebServer unm file rnd cfg pm =
     (let salt = generateSalt rnd;
          settings = loadWebSettings unm (wc_SettingsFile cfg) file;
          static = (if wc_APIKeys cfg \<noteq> [] then Some (key_map (wc_APIKeys cfg)) else None);
          dbKeys = (case sv_store pm of None \<Rightarrow> [] | Some st \<Rightarrow> (case ListAPIKeys st of Inr ks \<Rightarrow> ks | Inl _ \<Rightarrow> []));
          keys = (if dbKeys \<noteq> [] then
                    Some (foldl (\<lambda>m k. gput (ak_Key k) True m) (case static of None \<Rightarrow> [] | Some m \<Rightarrow> m) dbKeys)
                  else static);
          own = (wst_AdminPasswordHash settings \<noteq> '''' \<and> wst_AdminPasswordSalt settings \<noteq> '''')
      in \<lparr>ws_passwordHash = (if own then wst_AdminPasswordHash settings else hashPasswordWithSalt (wc_AdminPassword cfg) salt),
          ws_passwordSalt = (if own then wst_AdminPasswordSalt settings else salt), ws_sessions = [], ws_failedLogins = [],
          ws_logs = [], ws_config = cfg, ws_security = wst_Security settings, ws_settingsFile = wc_SettingsFile cfg,
          ws_apiKeys = keys, ws_pm = pm, ws_disk = (if file = None then None else Some settings)\<rparr>)"

section \<open>Requests and responses\<close>

record http_req =
  hr_Method :: string
  hr_Path :: string
  hr_Header :: "string \<Rightarrow> string"                 \<comment> \<open>the empty text for a missing header\<close>
  hr_Query :: "string \<Rightarrow> string"
  hr_Form :: "string \<Rightarrow> string"
  hr_Cookie :: "string option"                   \<comment> \<open>the session cookie\<close>

  hr_RemoteAddr :: string
  hr_TLS :: bool
  hr_Body :: bytes

datatype web_err =
    MethodNotAllowed | LockedFor int | InvalidRequest | WrongPassword | Unauthorized | SessionExpired | InvalidCSRF
  | ReadOnlyPanel | MissingID | NotOnline | MissingName | NoSuchTunnel | SaveFailed | PasswordTooShort | PasswordUnchanged

record cookie =
  ck_Value :: string
  ck_HttpOnly :: bool
  ck_Secure :: bool
  ck_SameSite :: SameSite
  ck_MaxAge :: int

datatype panel_body =
    PErr web_err | PSuccess | PLoggedIn string cookie | PLoggedOut | PStatus StatusInfo | PProxies "ProxyInfo list" | PConfig string int
  | PClients "ClientInfo list" | PLogs "LogEntry list" nat | PSecurity SecuritySettings | PSecStatus nat "(string \<times> int) list"
  | PEvents "LogEntry list" nat

text \<open>A response is a status code and a body; with it come the effects on the server's connections.\<close>

type_synonym panel_result = "(nat \<times> panel_body) \<times> effect list \<times> WebServer"

text \<open>The decoder sees at most 1 MiB of the body (\<^verbatim>\<open>http.MaxBytesReader\<close>).\<close>

definition decode_limited :: "(bytes \<Rightarrow> 'a option) \<Rightarrow> http_req \<Rightarrow> 'a option" where
  "decode_limited unm r = unm (take (2 ^ 20) (hr_Body r))"

definition getClientIP :: "WebServer \<Rightarrow> http_req \<Rightarrow> string" where
  "getClientIP ws r =
     (if wc_TrustProxy (ws_config ws) \<and> hr_Header r ''X-Forwarded-For'' \<noteq> '''' then hr_Header r ''X-Forwarded-For''
      else case split_host (hr_RemoteAddr r) of Some h \<Rightarrow> h | None \<Rightarrow> hr_RemoteAddr r)"

section \<open>Lock-out\<close>

definition isIPLocked :: "WebServer \<Rightarrow> int \<Rightarrow> string \<Rightarrow> bool" where
  "isIPLocked ws now ip =
     (case map_of (ws_failedLogins ws) ip of None \<Rightarrow> False | Some a \<Rightarrow> now < la_lockUntil a)"

definition recordFailedLogin :: "int \<Rightarrow> string \<Rightarrow> WebServer \<Rightarrow> WebServer" where
  "recordFailedLogin now ip ws =
     (let a = gat \<lparr>la_count = 0, la_lockUntil = 0\<rparr> (ws_failedLogins ws) ip;
          a1 = a\<lparr>la_count := la_count a + 1\<rparr>;
          a2 = (if la_count a1 \<ge> getRateLimitMax ws
                then a1\<lparr>la_lockUntil := now + getRateLimitLockMin ws * Minute, la_count := 0\<rparr> else a1)
      in ws\<lparr>ws_failedLogins := gput ip a2 (ws_failedLogins ws)\<rparr>)"

definition recordSuccessfulLogin :: "string \<Rightarrow> WebServer \<Rightarrow> WebServer" where
  "recordSuccessfulLogin ip ws = ws\<lparr>ws_failedLogins := gdel ip (ws_failedLogins ws)\<rparr>"

text \<open>One tick of \<^verbatim>\<open>cleanupSessions\<close>.\<close>

definition cleanupSessions :: "int \<Rightarrow> WebServer \<Rightarrow> WebServer" where
  "cleanupSessions now ws =
     ws\<lparr>ws_sessions := filter (\<lambda>e. \<not> now > ss_expireTime (snd e)) (ws_sessions ws),
        ws_failedLogins := filter (\<lambda>e. \<not> (now > la_lockUntil (snd e) \<and> la_count (snd e) = 0)) (ws_failedLogins ws)\<rparr>"

section \<open>Login and sessions\<close>

text \<open>\<open>rs\<close> and \<open>rc\<close> are the random bytes for the session id and the CSRF token.\<close>

definition handleLogin :: "(bytes \<Rightarrow> string option) \<Rightarrow> bytes \<Rightarrow> bytes \<Rightarrow> int \<Rightarrow> http_req \<Rightarrow> WebServer \<Rightarrow> panel_result" where
  "handleLogin unm rs rc now r ws =
     (if hr_Method r \<noteq> ''POST'' then ((405, PErr MethodNotAllowed), [], ws)
      else
        let ip = getClientIP ws r in
        if isIPLocked ws now ip then
          ((429, PErr (LockedFor (getRateLimitLockMin ws))), [],
           AddLog now ''warn'' (uni [0x767b, 0x5f55, 0x5c1d, 0x8bd5, 0x88ab, 0x62d2, 0x7edd, 0xff08] @ ''IP'' @
             uni [0x5df2, 0x9501, 0x5b9a, 0xff09] @ '': '' @ ip) ws)
        else
          case decode_limited unm r of
            None \<Rightarrow> ((400, PErr InvalidRequest), [], ws)
          | Some password \<Rightarrow>
              if hashPasswordWithSalt password (ws_passwordSalt ws) \<noteq> ws_passwordHash ws then
                ((401, PErr WrongPassword), [],
                 AddLog now ''warn'' (uni [0x767b, 0x5f55, 0x5931, 0x8d25, 0xff08, 0x5bc6, 0x7801, 0x9519, 0x8bef, 0xff09] @ '': '' @ ip)
                   (recordFailedLogin now ip ws))
              else
                let ws1 = recordSuccessfulLogin ip ws;
                    sessionID = generateSessionID rs; csrfToken = generateCSRFToken rc;
                    ws2 = ws1\<lparr>ws_sessions := gput sessionID \<lparr>ss_expireTime = now + getSessionTimeout ws1, ss_csrfToken = csrfToken\<rparr>
                               (ws_sessions ws1)\<rparr>;
                    ck = \<lparr>ck_Value = sessionID, ck_HttpOnly = sec_HttpOnlyCookie (ws_security ws2), ck_Secure = hr_TLS r,
                          ck_SameSite = sameSite ws2, ck_MaxAge = getSessionTimeoutSec ws2\<rparr>
                in ((200, PLoggedIn csrfToken ck), [],
                    AddLog now ''info'' (uni [0x7ba1, 0x7406, 0x5458, 0x767b, 0x5f55, 0x6210, 0x529f] @ '': '' @ ip) ws2))"

definition handleLogout :: "int \<Rightarrow> http_req \<Rightarrow> WebServer \<Rightarrow> panel_result" where
  "handleLogout now r ws =
     (let ws1 = (case hr_Cookie r of None \<Rightarrow> ws | Some v \<Rightarrow> ws\<lparr>ws_sessions := gdel v (ws_sessions ws)\<rparr>)
      in ((200, PLoggedOut), [], AddLog now ''info'' (uni [0x7ba1, 0x7406, 0x5458, 0x767b, 0x51fa]) ws1))"

definition authMiddleware :: "(http_req \<Rightarrow> WebServer \<Rightarrow> panel_result) \<Rightarrow> int \<Rightarrow> http_req \<Rightarrow> WebServer \<Rightarrow> panel_result" where
  "authMiddleware next now r ws =
     (case hr_Cookie r of
        None \<Rightarrow> ((401, PErr Unauthorized), [], ws)
      | Some v \<Rightarrow>
          (case map_of (ws_sessions ws) v of
             None \<Rightarrow> ((401, PErr SessionExpired), [], ws)
           | Some session \<Rightarrow>
               if now > ss_expireTime session then
                 ((401, PErr SessionExpired), [], ws\<lparr>ws_sessions := gdel v (ws_sessions ws)\<rparr>)
               else
                 let ws1 = ws\<lparr>ws_sessions := gput v \<lparr>ss_expireTime = now + 30 * Minute, ss_csrfToken = ss_csrfToken session\<rparr> (ws_sessions ws)\<rparr>;
                     token = (if hr_Header r ''X-CSRF-Token'' \<noteq> '''' then hr_Header r ''X-CSRF-Token'' else hr_Form r ''csrf_token'')
                 in if hr_Method r \<in> {''POST'', ''PUT'', ''DELETE''} \<and> sec_CSRFProtection (ws_security ws1) \<and>
                       (token = '''' \<or> token \<noteq> ss_csrfToken session)
                    then ((403, PErr InvalidCSRF), [], ws1)
                    else next r ws1))"

section \<open>Handlers of the panel\<close>

definition handleStatus :: "int \<Rightarrow> int \<Rightarrow> http_req \<Rightarrow> WebServer \<Rightarrow> panel_result" where
  "handleStatus startTime now r ws = ((200, PStatus (GetStatus (ws_pm ws) startTime now)), [], ws)"

definition handleProxies :: "http_req \<Rightarrow> WebServer \<Rightarrow> panel_result" where
  "handleProxies r ws =
     (if hr_Method r = ''GET'' then ((200, PProxies (GetProxies (ws_pm ws))), [], ws) else ((405, PErr ReadOnlyPanel), [], ws))"

definition handleConfig :: "http_req \<Rightarrow> WebServer \<Rightarrow> panel_result" where
  "handleConfig r ws =
     (if hr_Method r = ''GET'' then ((200, PConfig (wc_Addr (ws_config ws)) (wc_Port (ws_config ws))), [], ws)
      else ((405, PErr ReadOnlyPanel), [], ws))"

definition handleClients :: "(nat \<Rightarrow> string) \<Rightarrow> http_req \<Rightarrow> WebServer \<Rightarrow> panel_result" where
  "handleClients addr r ws =
     (if hr_Method r \<noteq> ''GET'' then ((405, PErr MethodNotAllowed), [], ws) else ((200, PClients (GetClients addr (ws_pm ws))), [], ws))"

definition handleKickClient :: "(bytes \<Rightarrow> string option) \<Rightarrow> int \<Rightarrow> http_req \<Rightarrow> WebServer \<Rightarrow> panel_result" where
  "handleKickClient unm now r ws =
     (if hr_Method r \<noteq> ''POST'' then ((405, PErr MethodNotAllowed), [], ws)
      else
        case unm (hr_Body r) of
          None \<Rightarrow> ((400, PErr MissingID), [], ws)
        | Some cid \<Rightarrow>
            if cid = '''' then ((400, PErr MissingID), [], ws)
            else
              (case KickClient (ws_pm ws) cid of
                 (False, _) \<Rightarrow> ((404, PErr NotOnline), [], ws)
               | (True, effs) \<Rightarrow>
                   ((200, PSuccess), effs,
                    AddLog now ''info'' (''Web '' @ uni [0x5f3a, 0x5236, 0x4e0b, 0x7ebf, 0x5ba2, 0x6237, 0x7aef] @ '' ['' @ cid @ '']'') ws)))"

definition panel_handleCloseProxy :: "(bytes \<Rightarrow> string option) \<Rightarrow> http_req \<Rightarrow> WebServer \<Rightarrow> panel_result" where
  "panel_handleCloseProxy unm r ws =
     (if hr_Method r \<noteq> ''POST'' then ((405, PErr MethodNotAllowed), [], ws)
      else
        case unm (hr_Body r) of
          None \<Rightarrow> ((400, PErr MissingName), [], ws)
        | Some nm \<Rightarrow>
            if nm = '''' then ((400, PErr MissingName), [], ws)
            else
              (case CloseProxy (ws_pm ws) nm of
                 (False, _, _) \<Rightarrow> ((404, PErr NoSuchTunnel), [], ws)
               | (True, effs, pm) \<Rightarrow> ((200, PSuccess), effs, ws\<lparr>ws_pm := pm\<rparr>)))"

definition handleLogs :: "http_req \<Rightarrow> WebServer \<Rightarrow> panel_result" where
  "handleLogs r ws =
     (if hr_Method r = ''GET'' then ((200, PLogs (rev (ws_logs ws)) (length (ws_logs ws))), [], ws)
      else ((405, PErr MethodNotAllowed), [], ws))"

definition clamp :: "int \<Rightarrow> int \<Rightarrow> int" where
  "clamp hi v = (let a = (if v < 1 then 1 else v) in if a > hi then hi else a)"

definition handleSecurity :: "(bytes \<Rightarrow> SecuritySettings option) \<Rightarrow> save_env \<Rightarrow> int \<Rightarrow> http_req \<Rightarrow> WebServer \<Rightarrow> panel_result" where
  "handleSecurity unm io now r ws =
     (if hr_Method r = ''GET'' then ((200, PSecurity (ws_security ws)), [], ws)
      else if hr_Method r = ''POST'' then
        (case decode_limited unm r of
           None \<Rightarrow> ((400, PErr InvalidRequest), [], ws)
         | Some req \<Rightarrow>
             let sec = req\<lparr>sec_SessionTimeoutMin := clamp 1440 (sec_SessionTimeoutMin req), sec_RateLimitMax := clamp 100 (sec_RateLimitMax req),
                           sec_RateLimitLockMin := clamp 1440 (sec_RateLimitLockMin req)\<rparr>;
                 ws1 = ws\<lparr>ws_security := sec\<rparr>
             in case saveSettings io sec (ws_passwordHash ws1) (ws_passwordSalt ws1) ws1 of
                  (False, ws2) \<Rightarrow> ((200, PErr SaveFailed), [], ws2)
                | (True, ws2) \<Rightarrow> ((200, PSuccess), [], AddLog now ''info'' (uni [0x5b89, 0x5168, 0x7b56, 0x7565, 0x5df2, 0x66f4, 0x65b0]) ws2))
      else ((405, PErr MethodNotAllowed), [], ws))"

definition handleSecurityStatus :: "int \<Rightarrow> http_req \<Rightarrow> WebServer \<Rightarrow> panel_result" where
  "handleSecurityStatus now r ws =
     ((200, PSecStatus (length (ws_sessions ws))
        (map (\<lambda>e. (fst e, la_lockUntil (snd e))) (filter (\<lambda>e. now < la_lockUntil (snd e)) (ws_failedLogins ws)))), [], ws)"

definition handleSecurityUnlock :: "(bytes \<Rightarrow> string option) \<Rightarrow> int \<Rightarrow> http_req \<Rightarrow> WebServer \<Rightarrow> panel_result" where
  "handleSecurityUnlock unm now r ws =
     (if hr_Method r \<noteq> ''POST'' then ((405, PErr MethodNotAllowed), [], ws)
      else
        case decode_limited unm r of
          None \<Rightarrow> ((400, PErr InvalidRequest), [], ws)
        | Some ip \<Rightarrow>
            if ip = '''' then ((400, PErr InvalidRequest), [], ws)
            else ((200, PSuccess), [],
                  AddLog now ''info'' (uni [0x624b, 0x52a8, 0x89e3, 0x9501] @ '' IP: '' @ ip)
                    (ws\<lparr>ws_failedLogins := gdel ip (ws_failedLogins ws)\<rparr>)))"

definition security_keywords :: "string list" where
  "security_keywords =
     [uni [0x767b, 0x5f55], uni [0x9501, 0x5b9a], uni [0x5b89, 0x5168], uni [0x5de1, 0x67e5], uni [0x767b, 0x51fa], uni [0x5bc6, 0x7801],
      ''IP'', uni [0x5931, 0x8d25], ''CSRF'', uni [0x4f1a, 0x8bdd], uni [0x89e3, 0x9501], uni [0x544a, 0x8b66]]"

text \<open>The loop runs over the logs, newest first, until it has 50 entries.\<close>

fun event_loop :: "LogEntry list \<Rightarrow> LogEntry list \<Rightarrow> LogEntry list" where
  "event_loop [] out = out"
| "event_loop (l # ls) out =
     (let out1 = (if list_ex (contains_text (lo_Message l)) security_keywords then out @ [l] else out)
      in if length out1 \<ge> 50 then out1 else event_loop ls out1)"

definition handleSecurityEvents :: "http_req \<Rightarrow> WebServer \<Rightarrow> panel_result" where
  "handleSecurityEvents r ws =
     (let out = event_loop (rev (ws_logs ws)) [] in ((200, PEvents out (length out)), [], ws))"

text \<open>\<open>unm\<close> gives the current and the new password; \<open>rnd\<close> are the random bytes of the new salt.\<close>

definition handleChangePassword ::
    "(bytes \<Rightarrow> (string \<times> string) option) \<Rightarrow> bytes \<Rightarrow> save_env \<Rightarrow> int \<Rightarrow> http_req \<Rightarrow> WebServer \<Rightarrow> panel_result" where
  "handleChangePassword unm rnd io now r ws =
     (if hr_Method r \<noteq> ''POST'' then ((405, PErr MethodNotAllowed), [], ws)
      else
        case decode_limited unm r of
          None \<Rightarrow> ((400, PErr InvalidRequest), [], ws)
        | Some (cur, new) \<Rightarrow>
            if hashPasswordWithSalt cur (ws_passwordSalt ws) \<noteq> ws_passwordHash ws then ((200, PErr WrongPassword), [], ws)
            else if length new < 6 then ((200, PErr PasswordTooShort), [], ws)
            else if new = cur then ((200, PErr PasswordUnchanged), [], ws)
            else
              let newSalt = generateSalt rnd; newHash = hashPasswordWithSalt new newSalt;
                  ws1 = ws\<lparr>ws_passwordSalt := newSalt, ws_passwordHash := newHash\<rparr>
              in case saveSettings io (ws_security ws1) newHash newSalt ws1 of
                   (False, ws2) \<Rightarrow> ((200, PErr SaveFailed), [], ws2)
                 | (True, ws2) \<Rightarrow>
                     ((200, PSuccess), [],
                      AddLog now ''warn'' (uni [0x7ba1, 0x7406, 0x5bc6, 0x7801, 0x5df2, 0x4fee, 0x6539, 0xff0c, 0x6240, 0x6709, 0x4f1a, 0x8bdd,
                        0x5df2, 0x5931, 0x6548]) (ws2\<lparr>ws_sessions := []\<rparr>)))"

section \<open>The panel's routes\<close>

text \<open>What a request needs beside the request itself: clock, random bytes, decoders and the result of saving.\<close>

record panel_env =
  pe_now :: int
  pe_start :: int
  pe_rnd1 :: bytes
  pe_rnd2 :: bytes
  pe_text :: "bytes \<Rightarrow> string option"
  pe_sec :: "bytes \<Rightarrow> SecuritySettings option"
  pe_pwd :: "bytes \<Rightarrow> (string \<times> string) option"
  pe_io :: save_env
  pe_addr :: "nat \<Rightarrow> string"

definition panel_routes :: "panel_env \<Rightarrow> (string \<times> (http_req \<Rightarrow> WebServer \<Rightarrow> panel_result)) list" where
  "panel_routes e =
     [(''/api/logout'', handleLogout (pe_now e)), (''/api/status'', handleStatus (pe_start e) (pe_now e)), (''/api/proxies'', handleProxies),
      (''/api/config'', handleConfig), (''/api/logs'', handleLogs), (''/api/security'', handleSecurity (pe_sec e) (pe_io e) (pe_now e)),
      (''/api/security-status'', handleSecurityStatus (pe_now e)), (''/api/security-unlock'', handleSecurityUnlock (pe_text e) (pe_now e)),
      (''/api/security-events'', handleSecurityEvents), (''/api/change-password'', handleChangePassword (pe_pwd e) (pe_rnd1 e) (pe_io e) (pe_now e)),
      (''/api/clients'', handleClients (pe_addr e)), (''/api/clients/kick'', handleKickClient (pe_text e) (pe_now e)),
      (''/api/proxies/close'', panel_handleCloseProxy (pe_text e))]"

text \<open>
  \<open>None\<close> means that the path is not one of the panel. The login handler and the session check both begin with
  \<^verbatim>\<open>applySecurityHeaders\<close>; these headers come with the result.
\<close>

definition panel_serve :: "panel_env \<Rightarrow> http_req \<Rightarrow> WebServer \<Rightarrow> ((string \<times> string) list \<times> panel_result) option" where
  "panel_serve e r ws =
     (if hr_Path r = ''/api/login'' then
        Some (applySecurityHeaders ws, handleLogin (pe_text e) (pe_rnd1 e) (pe_rnd2 e) (pe_now e) r ws)
      else case map_of (panel_routes e) (hr_Path r) of
        None \<Rightarrow> None
      | Some h \<Rightarrow> Some (applySecurityHeaders ws, authMiddleware h (pe_now e) r ws))"

text \<open>
  \<^verbatim>\<open>Start\<close>: the address to listen on, whether with TLS, and the log entries. Serving itself is \<open>panel_serve\<close>.
\<close>

definition Start :: "int \<Rightarrow> WebServer \<Rightarrow> string \<times> bool \<times> WebServer" where
  "Start now ws =
     (let cfg = ws_config ws;
          addr = (if wc_Addr cfg = '''' then ''127.0.0.1'' else wc_Addr cfg) @ '':'' @ itoa (wc_Port cfg);
          ws1 = AddLog now ''info'' (''Web'' @ uni [0x7ba1, 0x7406, 0x9762, 0x677f, 0x5df2, 0x542f, 0x52a8] @ '': '' @ addr) ws;
          host = (case split_host addr of Some h \<Rightarrow> h | None \<Rightarrow> '''');
          ws2 = (if host = ''0.0.0.0'' \<or> host = '''' then
                   AddLog now ''warn'' (uni [0x8b66, 0x544a, 0xff1a] @ ''Web'' @ uni [0x7ba1, 0x7406, 0x9762, 0x677f, 0x76d1, 0x542c, 0x5728] @
                     ''0.0.0.0'' @ uni [0xff0c, 0x5b58, 0x5728, 0x5b89, 0x5168, 0x98ce, 0x9669]) ws1
                 else ws1)
      in (addr, wc_CertFile cfg \<noteq> '''' \<and> wc_KeyFile cfg \<noteq> '''', ws2))"

section \<open>Lemmas\<close>

lemma AddLog_frame [simp]:
  "ws_sessions (AddLog now l m ws) = ws_sessions ws" "ws_failedLogins (AddLog now l m ws) = ws_failedLogins ws"
  "ws_passwordHash (AddLog now l m ws) = ws_passwordHash ws" "ws_passwordSalt (AddLog now l m ws) = ws_passwordSalt ws"
  "ws_config (AddLog now l m ws) = ws_config ws" "ws_security (AddLog now l m ws) = ws_security ws" "ws_pm (AddLog now l m ws) = ws_pm ws"
  "ws_apiKeys (AddLog now l m ws) = ws_apiKeys ws" "ws_disk (AddLog now l m ws) = ws_disk ws" "ws_settingsFile (AddLog now l m ws) = ws_settingsFile ws"
  by (simp_all add: AddLog_def Let_def)

lemma recordFailed_frame [simp]:
  "ws_sessions (recordFailedLogin now ip ws) = ws_sessions ws" "ws_security (recordFailedLogin now ip ws) = ws_security ws"
  "ws_passwordHash (recordFailedLogin now ip ws) = ws_passwordHash ws" "ws_passwordSalt (recordFailedLogin now ip ws) = ws_passwordSalt ws"
  "ws_config (recordFailedLogin now ip ws) = ws_config ws" "ws_pm (recordFailedLogin now ip ws) = ws_pm ws"
  by (simp_all add: recordFailedLogin_def Let_def)


lemma AddLog_limits [simp]:
  "getRateLimitMax (AddLog now l m ws) = getRateLimitMax ws" "getRateLimitLockMin (AddLog now l m ws) = getRateLimitLockMin ws"
  "getClientIP (AddLog now l m ws) r = getClientIP ws r"
  "getRateLimitMax (recordFailedLogin now ip ws) = getRateLimitMax ws" "getRateLimitLockMin (recordFailedLogin now ip ws) = getRateLimitLockMin ws"
  "getClientIP (recordFailedLogin now ip ws) r = getClientIP ws r"
  by (simp_all add: getRateLimitMax_def getRateLimitLockMin_def getClientIP_def)

lemma length_hash: "length (hashPasswordWithSalt p s) = 64"
proof -
  have "length ((Sum256 ^^ n) (Sum256 m)) = 32" for n m by (cases n) simp_all
  then show ?thesis by (simp add: hashPasswordWithSalt_def)
qed

text \<open>The rotating log never exceeds its bound and keeps the newest entries.\<close>

lemma AddLog_bounded: "length (ws_logs ws) \<le> 500 \<Longrightarrow> length (ws_logs (AddLog now l m ws)) \<le> 500"
  by (simp add: AddLog_def Let_def)

text \<open>What a session check amounts to.\<close>

definition valid_session :: "int \<Rightarrow> http_req \<Rightarrow> WebServer \<Rightarrow> bool" where
  "valid_session now r ws \<longleftrightarrow>
     (case hr_Cookie r of
        None \<Rightarrow> False
      | Some v \<Rightarrow>
          (case map_of (ws_sessions ws) v of
             None \<Rightarrow> False
           | Some session \<Rightarrow>
               now \<le> ss_expireTime session \<and>
               (hr_Method r \<in> {''POST'', ''PUT'', ''DELETE''} \<and> sec_CSRFProtection (ws_security ws) \<longrightarrow>
                  (let token = (if hr_Header r ''X-CSRF-Token'' \<noteq> '''' then hr_Header r ''X-CSRF-Token'' else hr_Form r ''csrf_token'')
                   in token \<noteq> '''' \<and> token = ss_csrfToken session))))"

text \<open>
  What a refused request leaves behind: an expired session that it named is removed, and a session that it named but for
  which it had no CSRF token has been renewed; nothing else changes.
\<close>

definition after_refusal :: "int \<Rightarrow> http_req \<Rightarrow> WebServer \<Rightarrow> WebServer" where
  "after_refusal now r ws =
     (case hr_Cookie r of
        None \<Rightarrow> ws
      | Some v \<Rightarrow>
          (case map_of (ws_sessions ws) v of
             None \<Rightarrow> ws
           | Some session \<Rightarrow>
               if now > ss_expireTime session then ws\<lparr>ws_sessions := gdel v (ws_sessions ws)\<rparr>
               else ws\<lparr>ws_sessions := gput v (session\<lparr>ss_expireTime := now + 30 * Minute\<rparr>) (ws_sessions ws)\<rparr>))"

definition live_session :: "int \<Rightarrow> http_req \<Rightarrow> WebServer \<Rightarrow> bool" where
  "live_session now r ws \<longleftrightarrow>
     (case hr_Cookie r of
        None \<Rightarrow> False
      | Some v \<Rightarrow> (case map_of (ws_sessions ws) v of None \<Rightarrow> False | Some session \<Rightarrow> now \<le> ss_expireTime session))"

lemma authMiddleware_refuses:
  assumes "\<not> valid_session now r ws"
  shows "fst (fst (authMiddleware h now r ws)) = (if live_session now r ws then 403 else 401) \<and> fst (snd (authMiddleware h now r ws)) = [] \<and>
    snd (snd (authMiddleware h now r ws)) = after_refusal now r ws"
proof (cases "hr_Cookie r")
  case (Some v)
  show ?thesis
  proof (cases "map_of (ws_sessions ws) v")
    case None
    with Some show ?thesis by (simp add: authMiddleware_def live_session_def after_refusal_def)
  next
    case (Some session)
    have renewed: "\<lparr>ss_expireTime = t, ss_csrfToken = ss_csrfToken session\<rparr> = session\<lparr>ss_expireTime := t\<rparr>" for t
      by simp
    note simps = authMiddleware_def live_session_def after_refusal_def \<open>hr_Cookie r = Some v\<close> Some renewed option.simps Let_def
    show ?thesis
    proof (cases "now > ss_expireTime session")
      case True
      then show ?thesis unfolding simps by simp
    next
      case False
      then have "hr_Method r \<in> {''POST'', ''PUT'', ''DELETE''} \<and> sec_CSRFProtection (ws_security ws) \<and>
        (let token = (if hr_Header r ''X-CSRF-Token'' \<noteq> '''' then hr_Header r ''X-CSRF-Token'' else hr_Form r ''csrf_token'')
         in token = '''' \<or> token \<noteq> ss_csrfToken session)"
        using assms by (simp add: valid_session_def \<open>hr_Cookie r = Some v\<close> Some Let_def not_less)
      with False show ?thesis unfolding simps by simp
    qed
  qed
qed (simp add: authMiddleware_def live_session_def after_refusal_def)

text \<open>One wrong password.\<close>

definition wrong_attempt :: "(bytes \<Rightarrow> string option) \<Rightarrow> string \<Rightarrow> WebServer \<Rightarrow> int \<times> http_req \<Rightarrow> bool" where
  "wrong_attempt unm ip ws a \<longleftrightarrow> 0 \<le> fst a \<and> hr_Method (snd a) = ''POST'' \<and> getClientIP ws (snd a) = ip \<and>
     (case decode_limited unm (snd a) of None \<Rightarrow> False | Some pw \<Rightarrow> hashPasswordWithSalt pw (ws_passwordSalt ws) \<noteq> ws_passwordHash ws)"

definition after_login :: "(bytes \<Rightarrow> string option) \<Rightarrow> bytes \<Rightarrow> bytes \<Rightarrow> WebServer \<Rightarrow> int \<times> http_req \<Rightarrow> WebServer" where
  "after_login unm rs rc ws a = snd (snd (handleLogin unm rs rc (fst a) (snd a) ws))"

definition tried :: "WebServer \<Rightarrow> string \<Rightarrow> loginAttempt" where
  "tried ws ip = gat \<lparr>la_count = 0, la_lockUntil = 0\<rparr> (ws_failedLogins ws) ip"

lemma isIPLocked_tried: "0 \<le> now \<Longrightarrow> isIPLocked ws now ip \<longleftrightarrow> now < la_lockUntil (tried ws ip)"
  by (simp add: isIPLocked_def tried_def gat_def split: option.split)

lemma after_wrong_attempt:
  assumes "wrong_attempt unm ip ws a" and "la_lockUntil (tried ws ip) \<le> fst a"
  shows "\<exists>m. after_login unm rs rc ws a = AddLog (fst a) ''warn'' m (recordFailedLogin (fst a) ip ws)"
  using assms isIPLocked_tried [of "fst a" ws ip]
  by (auto simp: wrong_attempt_def after_login_def handleLogin_def Let_def split: option.splits)

lemma tried_recordFailed:
  "tried (recordFailedLogin now ip ws) ip =
     (if la_count (tried ws ip) + 1 \<ge> getRateLimitMax ws then \<lparr>la_count = 0, la_lockUntil = now + getRateLimitLockMin ws * Minute\<rparr>
      else (tried ws ip)\<lparr>la_count := la_count (tried ws ip) + 1\<rparr>)"
  by (simp add: tried_def recordFailedLogin_def Let_def)

lemma tried_AddLog [simp]: "tried (AddLog now l m ws) ip = tried ws ip"
  by (simp add: tried_def)

lemma wrong_attempt_cong:
  "ws_passwordSalt ws' = ws_passwordSalt ws \<Longrightarrow> ws_passwordHash ws' = ws_passwordHash ws \<Longrightarrow> ws_config ws' = ws_config ws \<Longrightarrow>
   wrong_attempt unm ip ws' = wrong_attempt unm ip ws"
  unfolding wrong_attempt_def getClientIP_def by presburger

lemma wrong_attempts_lock:
  assumes "\<forall>a \<in> set as. wrong_attempt unm ip ws a" and "as \<noteq> []" and "la_lockUntil (tried ws ip) \<le> 0"
    and "la_count (tried ws ip) + int (length as) = getRateLimitMax ws"
  shows "la_lockUntil (tried (foldl (after_login unm rs rc) ws as) ip) = fst (last as) + getRateLimitLockMin ws * Minute \<and>
    ws_sessions (foldl (after_login unm rs rc) ws as) = ws_sessions ws \<and> ws_config (foldl (after_login unm rs rc) ws as) = ws_config ws \<and>
    ws_security (foldl (after_login unm rs rc) ws as) = ws_security ws"
  using assms
proof (induction as arbitrary: ws)
  case (Cons a as)
  have "0 \<le> fst a" using Cons.prems(1) by (simp add: wrong_attempt_def)
  then obtain m where m: "after_login unm rs rc ws a = AddLog (fst a) ''warn'' m (recordFailedLogin (fst a) ip ws)" (is "_ = ?w")
    using after_wrong_attempt [of unm ip ws a] Cons.prems(1,3) by fastforce
  show ?case
  proof (cases "as = []")
    case True
    then show ?thesis using Cons.prems(4) m by (simp add: tried_recordFailed)
  next
    case False
    then have less: "la_count (tried ws ip) + 1 < getRateLimitMax ws" using Cons.prems(4) by (cases as) auto
    then have t: "tried ?w ip = (tried ws ip)\<lparr>la_count := la_count (tried ws ip) + 1\<rparr>" by (simp add: tried_recordFailed)
    have wc: "wrong_attempt unm ip ?w = wrong_attempt unm ip ws" by (rule wrong_attempt_cong) simp_all
    show ?thesis using Cons.IH [of ?w] Cons.prems False t by (simp add: m wc)
  qed
qed simp

section \<open>Properties\<close>

text \<open>
  C9: No request to the panel gets past the session check without a session that exists and has not expired
  and, for a changing request while CSRF protection is on, that session's CSRF token. Every other request
  (except to log in) is answered with 403 if it names a live session and with 401 otherwise, and has no effect
  outside the session it names: an expired one is removed, and a live one, refused for its CSRF token, has
  nevertheless been renewed by 30 minutes.
\<close>
theorem panel_needs_valid_session:
  assumes "panel_serve e r ws = Some (hs, resp, effs, ws')" and "hr_Path r \<noteq> ''/api/login''" and "\<not> valid_session (pe_now e) r ws"
  shows "fst resp = (if live_session (pe_now e) r ws then 403 else 401) \<and> effs = [] \<and> ws' = after_refusal (pe_now e) r ws"
proof -
  obtain h where h: "authMiddleware h (pe_now e) r ws = (resp, effs, ws')"
    using assms(1,2) by (auto simp: panel_serve_def split: option.splits)
  with authMiddleware_refuses [OF assms(3), of h] show ?thesis by simp
qed

text \<open>
  C19: Guessing the panel's password is bounded: after as many wrong passwords from one address as the limit
  allows, every further login from it before the lock ends is answered with 429, whatever password it carries
  and without looking at it, and nobody is logged in by any of these requests.
\<close>
theorem password_guessing_locks:
  assumes "\<forall>a \<in> set as. wrong_attempt unm ip ws a" and "map_of (ws_failedLogins ws) ip = None"
    and "int (length as) = getRateLimitMax ws" and "ws1 = foldl (after_login unm rs rc) ws as"
    and "hr_Method r = ''POST''" and "getClientIP ws r = ip" and "0 \<le> t" and "t < fst (last as) + getRateLimitLockMin ws * Minute"
    and "handleLogin unm rs rc t r ws1 = (resp, effs, ws2)"
  shows "resp = (429, PErr (LockedFor (getRateLimitLockMin ws))) \<and> ws_sessions ws2 = ws_sessions ws"
proof -
  have "getRateLimitMax ws > 0" by (simp add: getRateLimitMax_def Let_def)
  then have ne: "as \<noteq> []" using assms(3) by auto
  have t0: "tried ws ip = \<lparr>la_count = 0, la_lockUntil = 0\<rparr>" by (simp add: tried_def gat_def assms(2))
  note lk = wrong_attempts_lock [OF assms(1) ne, of rs rc, folded assms(4), unfolded t0]
  have ws1: "la_lockUntil (tried ws1 ip) = fst (last as) + getRateLimitLockMin ws * Minute" "ws_sessions ws1 = ws_sessions ws"
    "ws_config ws1 = ws_config ws" "ws_security ws1 = ws_security ws"
    using lk assms(3) by simp_all
  then have "isIPLocked ws1 t ip" using assms(7,8) by (simp add: isIPLocked_tried)
  moreover have "getClientIP ws1 r = ip" "getRateLimitLockMin ws1 = getRateLimitLockMin ws"
    using ws1 assms(6) by (simp_all add: getClientIP_def getRateLimitLockMin_def)
  ultimately show ?thesis using assms(5,9) ws1 by (auto simp: handleLogin_def)
qed

text \<open>
  C36: A password change that is reported as successful needed the old password, ends every session and puts the
  new password in force, also after a restart that reads the settings file back, whatever password the
  configuration then names.
\<close>
theorem password_change_takes_effect:
  assumes "handleChangePassword unm rnd io now r ws = ((code, PSuccess), effs, ws')" and "ws_settingsFile ws \<noteq> ''''" and "rnd \<noteq> []"
  shows "\<exists>cur new. decode_limited unm r = Some (cur, new) \<and> hashPasswordWithSalt cur (ws_passwordSalt ws) = ws_passwordHash ws \<and>
    6 \<le> length new \<and> new \<noteq> cur \<and> ws_sessions ws' = [] \<and> ws_passwordHash ws' = hashPasswordWithSalt new (ws_passwordSalt ws') \<and>
    (\<forall>ld file rnd2 cfg pm. wc_SettingsFile cfg = ws_settingsFile ws \<longrightarrow> (\<forall>d. Some (ld file d) = ws_disk ws') \<longrightarrow>
       ws_passwordHash (NewWebServer ld (Some file) rnd2 cfg pm) = ws_passwordHash ws' \<and>
       ws_passwordSalt (NewWebServer ld (Some file) rnd2 cfg pm) = ws_passwordSalt ws')"
proof -
  obtain cur new where d: "decode_limited unm r = Some (cur, new)" "hashPasswordWithSalt cur (ws_passwordSalt ws) = ws_passwordHash ws"
      "6 \<le> length new" "new \<noteq> cur" "sv_marshal_ok io \<and> sv_write_ok io \<and> sv_rename_ok io"
    using assms by (auto simp: handleChangePassword_def saveSettings_def Let_def split: if_splits option.splits prod.splits)
  then have w: "ws_sessions ws' = []" "ws_passwordSalt ws' = generateSalt rnd" "ws_passwordHash ws' = hashPasswordWithSalt new (generateSalt rnd)"
    "ws_disk ws' = Some \<lparr>wst_Security = ws_security ws, wst_AdminPasswordHash = ws_passwordHash ws', wst_AdminPasswordSalt = ws_passwordSalt ws'\<rparr>"
    using assms by (auto simp: handleChangePassword_def saveSettings_def Let_def split: if_splits)
  have ne: "generateSalt rnd \<noteq> ''''" "hashPasswordWithSalt new s \<noteq> ''''" for s
    using assms(3) length_hex [of rnd] length_hash [of new s] by (auto simp: generateSalt_def simp del: length_hex)
  show ?thesis
    using d w assms(2) ne by (intro exI [of _ cur] exI [of _ new]) (auto simp: NewWebServer_def loadWebSettings_def Let_def)
qed

text \<open>A panel whose password is \<^verbatim>\<open>secret\<close>, and a request to it.\<close>

definition demo_panel :: WebServer where
  "demo_panel = NewWebServer (\<lambda>_ s. s) None [7]
     \<lparr>wc_Addr = '''', wc_Port = 0, wc_AdminPassword = ''secret'', wc_TrustProxy = False, wc_SettingsFile = ''s.json'',
      wc_CertFile = '''', wc_KeyFile = '''', wc_APIKeys = [], wc_WebhookURL = ''''\<rparr>
     demo_server"

definition demo_http :: "string \<Rightarrow> string \<Rightarrow> http_req" where
  "demo_http meth path = \<lparr>hr_Method = meth, hr_Path = path, hr_Header = (\<lambda>_. ''''), hr_Query = (\<lambda>_. ''''), hr_Form = (\<lambda>_. ''''),
     hr_Cookie = None, hr_RemoteAddr = ''9.9.9.9:50000'', hr_TLS = False, hr_Body = []\<rparr>"

lemma demo_panel_simps [simp]:
  "ws_passwordHash demo_panel = hashPasswordWithSalt ''secret'' (generateSalt [7])" "ws_passwordSalt demo_panel = generateSalt [7]"
  "ws_settingsFile demo_panel = ''s.json''" "ws_failedLogins demo_panel = []" "ws_security demo_panel = defaultSecuritySettings" "getRateLimitMax demo_panel = 5" "getRateLimitLockMin demo_panel = 15"
  "ws_sessions demo_panel = []" "wc_TrustProxy (ws_config demo_panel) = False"
  by (simp_all add: demo_panel_def NewWebServer_def loadWebSettings_def Let_def getRateLimitMax_def getRateLimitLockMin_def defaultSecuritySettings_def)

lemma demo_host [simp]: "split_host ''9.9.9.9:50000'' = Some ''9.9.9.9''"
  by (simp add: split_host_def before_last_colon_def)

theorem panel_needs_valid_session_witness:
  "\<exists>e hs resp effs ws'. panel_serve e ((demo_http ''POST'' ''/api/change-password'')\<lparr>hr_Cookie := Some ''s''\<rparr>)
       (demo_panel\<lparr>ws_sessions := [(''s'', \<lparr>ss_expireTime = 5, ss_csrfToken = ''x''\<rparr>)]\<rparr>) = Some (hs, resp, effs, ws') \<and>
     fst resp = 403 \<and> effs = [] \<and> ws_sessions ws' = [(''s'', \<lparr>ss_expireTime = 30 * Minute, ss_csrfToken = ''x''\<rparr>)] \<and>
     ws_passwordHash ws' = ws_passwordHash demo_panel"
proof -
  let ?e = "\<lparr>pe_now = 0, pe_start = 0, pe_rnd1 = [], pe_rnd2 = [], pe_text = Map.empty, pe_sec = Map.empty, pe_pwd = Map.empty,
    pe_io = \<lparr>sv_marshal_ok = True, sv_write_ok = True, sv_rename_ok = True\<rparr>, pe_addr = (\<lambda>_. '''')\<rparr>"
  let ?r = "(demo_http ''POST'' ''/api/change-password'')\<lparr>hr_Cookie := Some ''s''\<rparr>"
  let ?ws = "demo_panel\<lparr>ws_sessions := [(''s'', \<lparr>ss_expireTime = 5, ss_csrfToken = ''x''\<rparr>)]\<rparr>"
  have path: "hr_Path ?r = ''/api/change-password''" by (simp add: demo_http_def)
  have "panel_serve ?e ?r ?ws \<noteq> None" unfolding panel_serve_def path by (simp add: panel_routes_def case_prod_unfold)
  then obtain hs resp effs ws' where p: "panel_serve ?e ?r ?ws = Some (hs, resp, effs, ws')" by (metis option.exhaust prod_cases4)
  have bad: "\<not> valid_session (pe_now ?e) ?r ?ws"
    by (simp add: valid_session_def demo_http_def defaultSecuritySettings_def)
  have "fst resp = (if live_session (pe_now ?e) ?r ?ws then 403 else 401) \<and> effs = [] \<and> ws' = after_refusal (pe_now ?e) ?r ?ws"
    by (rule panel_needs_valid_session [OF p _ bad]) (simp add: demo_http_def)
  then show ?thesis using p by (intro exI [of _ ?e] exI [of _ hs] exI [of _ resp] exI [of _ effs] exI [of _ ws']) (simp add: live_session_def after_refusal_def)
qed

theorem password_guessing_locks_witness:
  "\<exists>ws as r t. length as = 5 \<and>
     fst (handleLogin (\<lambda>_. Some ''guess'') [] [] t r (foldl (after_login (\<lambda>_. Some ''guess'') [] []) ws as)) = (429, PErr (LockedFor 15))"
proof -
  let ?ws = "demo_panel\<lparr>ws_passwordHash := ''x''\<rparr>" and ?r = "demo_http ''POST'' ''/api/login''"
  let ?as = "replicate 5 (10 :: int, ?r)"
  let ?unm = "\<lambda>_ :: bytes. Some ''guess''"
  have lim: "getRateLimitMax ?ws = 5" "getRateLimitLockMin ?ws = 15" and ip: "getClientIP ?ws ?r = ''9.9.9.9''"
    by (simp_all add: getRateLimitMax_def getRateLimitLockMin_def getClientIP_def demo_http_def defaultSecuritySettings_def)
  have wrong: "\<forall>a \<in> set ?as. wrong_attempt ?unm ''9.9.9.9'' ?ws a"
    using length_hash [of "''guess''" "generateSalt [7]"]
    by (auto simp: wrong_attempt_def decode_limited_def demo_http_def getClientIP_def)
  obtain resp effs ws2 where h: "handleLogin ?unm [] [] 10 ?r (foldl (after_login ?unm [] []) ?ws ?as) = (resp, effs, ws2)" by (metis prod_cases3)
  have "resp = (429, PErr (LockedFor (getRateLimitLockMin ?ws))) \<and> ws_sessions ws2 = ws_sessions ?ws"
    by (rule password_guessing_locks [OF wrong _ _ refl _ ip _ _ h]) (simp_all add: lim demo_http_def Minute_def Second_def)
  then show ?thesis using h lim by (intro exI [of _ ?ws] exI [of _ ?as] exI [of _ ?r] exI [of _ 10]) simp
qed

theorem password_change_takes_effect_witness:
  "\<exists>unm r effs ws'. handleChangePassword unm [8] \<lparr>sv_marshal_ok = True, sv_write_ok = True, sv_rename_ok = True\<rparr> 0 r demo_panel =
     ((200, PSuccess), effs, ws') \<and> ws_sessions ws' = []"
proof -
  let ?unm = "\<lambda>_ :: bytes. Some (''secret'', ''better'')" and ?r = "demo_http ''POST'' ''/api/change-password''"
  let ?io = "\<lparr>sv_marshal_ok = True, sv_write_ok = True, sv_rename_ok = True\<rparr>"
  obtain effs ws' where c: "handleChangePassword ?unm [8] ?io 0 ?r demo_panel = ((200, PSuccess), effs, ws')"
    by (simp add: handleChangePassword_def demo_http_def decode_limited_def saveSettings_def Let_def)
  have "ws_sessions ws' = []" using password_change_takes_effect [OF c] by auto
  with c show ?thesis by blast
qed

end
