(* ===== verification/WebApi.thy ===== *)
theory WebApi
  imports WebSession
begin

text \<open>
  Model of the open API of \<^verbatim>\<open>pkg/web/server.go\<close> (\<^verbatim>\<open>/api/v1/...\<close>): the check of API keys and user tokens, and the
  handlers for clients, tunnels, API keys, users and login. They work on the model of the tunnel server and its
  database (\<open>ws_pm\<close>). The identity that the middleware puts into the request context is an argument (\<open>ctx\<close>).
  JSON decoders, the time stamp and random bytes are fields of \<open>api_env\<close>. A lookup whose error the code discards
  (\<^verbatim>\<open>c, found, _ :=\<close>) counts as not found.
\<close>

section \<open>Paths\<close>

definition trim_prefix :: "string \<Rightarrow> string \<Rightarrow> string" where
  "trim_prefix s p = (if has_prefix s p then drop (length p) s else s)"

definition trim_slashes :: "string \<Rightarrow> string" where
  "trim_slashes s = rev (dropWhile (\<lambda>c. c = CHR ''/'') (rev (dropWhile (\<lambda>c. c = CHR ''/'') s)))"

fun split_slash :: "string \<Rightarrow> string list" where
  "split_slash [] = [[]]"
| "split_slash (c # cs) =
     (if c = CHR ''/'' then [] # split_slash cs else (case split_slash cs of [] \<Rightarrow> [[c]] | p # ps \<Rightarrow> (c # p) # ps))"

definition path_parts :: "string \<Rightarrow> string \<Rightarrow> string list" where
  "path_parts prefix path = split_slash (trim_slashes (trim_prefix path prefix))"

section \<open>Identities\<close>

record apiIdentity =
  id_Admin :: bool
  id_Username :: string
  id_Role :: string

datatype api_err =
    MissingKey | InvalidKey | NotAllowed | NeedNameToken | Tenant tenant_err | NoClientName | ForbiddenClient | UnknownClient
  | NoTunnelName | UnknownTunnelRun | NoDB | Database db_err | NeedKey | NoKey | UnknownKey | BadJSON | BadTunnel | BadType | TunnelLimit string int
  | ForbiddenTunnel | OnlyEnable | UnknownTunnel | BadPort | UpdateFailed | DeleteFailed | AdminOnly | NeedUserPassword | BadRole
  | NoUserName | ForbiddenUser | UnknownUser | NeedPassword | UnknownAction | BadLogin

datatype api_body =
    AErr api_err | ASuccess | AClientRows "(ClientTrafficInfo \<times> string) list" | AClients "ClientTrafficInfo list" | AClient ClientTrafficInfo
  | AKeys "APIKey list" | AProxies "(StoreProxy \<times> bool) list" | AProxy "StoreProxy option" | AUsers "User list" | AUser User
  | AToken string | ALogin string string string

type_synonym api_result = "(nat \<times> api_body) \<times> effect list \<times> WebServer"

record proxy_req =
  pq_Name :: string
  pq_Type :: string
  pq_RemotePort :: int
  pq_LocalAddr :: string
  pq_LocalPort :: int
  pq_ClientName :: string

record patch_req =
  pt_Type :: "string option"
  pt_RemotePort :: "int option"
  pt_LocalAddr :: "string option"
  pt_LocalPort :: "int option"
  pt_Enabled :: "bool option"

record api_env =
  ae_now :: string
  ae_rnd1 :: "bytes option"
  ae_rnd2 :: "bytes option"
  ae_client :: "bytes \<Rightarrow> (string \<times> string \<times> int \<times> int) option"
  ae_text :: "bytes \<Rightarrow> string option"
  ae_pair :: "bytes \<Rightarrow> (string \<times> string) option"
  ae_proxy :: "bytes \<Rightarrow> proxy_req option"
  ae_patch :: "bytes \<Rightarrow> patch_req option"
  ae_user :: "bytes \<Rightarrow> (string \<times> string \<times> string) option"

abbreviation ws_store :: "WebServer \<Rightarrow> Store option" where
  "ws_store ws \<equiv> sv_store (ws_pm ws)"

definition put_store :: "Store \<Rightarrow> WebServer \<Rightarrow> WebServer" where
  "put_store st ws = ws\<lparr>ws_pm := (ws_pm ws)\<lparr>sv_store := Some st\<rparr>\<rparr>"

text \<open>A lookup whose error is discarded.\<close>

definition found :: "db_err + 'a option \<Rightarrow> 'a option" where
  "found q = (case q of Inr (Some x) \<Rightarrow> Some x | _ \<Rightarrow> None)"

definition request_key :: "http_req \<Rightarrow> string" where
  "request_key r =
     (if hr_Header r ''X-API-Key'' \<noteq> '''' then hr_Header r ''X-API-Key''
      else if has_prefix (hr_Header r ''Authorization'') ''Bearer '' then trim_prefix (hr_Header r ''Authorization'') ''Bearer ''
      else '''')"

definition apiKeyMiddleware :: "(apiIdentity option \<Rightarrow> http_req \<Rightarrow> WebServer \<Rightarrow> api_result) \<Rightarrow> http_req \<Rightarrow> WebServer \<Rightarrow> api_result" where
  "apiKeyMiddleware next r ws =
     (let key = request_key r;
          admin = \<lparr>id_Admin = True, id_Username = '''', id_Role = ''admin''\<rparr>;
          static = (case ws_apiKeys ws of None \<Rightarrow> False | Some m \<Rightarrow> gat False m key)
      in if key = '''' then ((401, AErr MissingKey), [], ws)
         else
           case ws_store ws of
             None \<Rightarrow> if static then next (Some admin) r ws else ((401, AErr InvalidKey), [], ws)
           | Some st \<Rightarrow>
               if HasAPIKey st key = Inr True then next (Some admin) r ws
               else
                 (case found (GetUserByToken st key) of
                    Some u \<Rightarrow> next (Some \<lparr>id_Admin = False, id_Username = us_Username u, id_Role = us_Role u\<rparr>) r ws
                  | None \<Rightarrow> if static then next (Some admin) r ws else ((401, AErr InvalidKey), [], ws)))"

text \<open>Without an identity in the context the caller counts as administrator.\<close>

definition currentIdentity :: "apiIdentity option \<Rightarrow> apiIdentity" where
  "currentIdentity ctx = (case ctx of Some v \<Rightarrow> v | None \<Rightarrow> \<lparr>id_Admin = True, id_Username = '''', id_Role = ''''\<rparr>)"

definition canAccessClient :: "apiIdentity option \<Rightarrow> WebServer \<Rightarrow> string \<Rightarrow> bool" where
  "canAccessClient ctx ws clientName =
     (let ident = currentIdentity ctx in
      if id_Admin ident then True
      else case ws_store ws of
        None \<Rightarrow> False
      | Some st \<Rightarrow> (case found (GetClient st clientName) of Some c \<Rightarrow> cl_Owner c = id_Username ident | None \<Rightarrow> False))"

section \<open>Clients\<close>

definition v1HandleClients :: "api_env \<Rightarrow> apiIdentity option \<Rightarrow> http_req \<Rightarrow> WebServer \<Rightarrow> api_result" where
  "v1HandleClients e ctx r ws =
     (let ident = currentIdentity ctx; pm = ws_pm ws in
      if hr_Method r = ''GET'' then
        let all = ListClientsTraffic pm in
        if id_Admin ident then
          let ownerOf = (case ws_store ws of
                           None \<Rightarrow> []
                         | Some st \<Rightarrow> (case ListClients st of Inr cs \<Rightarrow> foldl (\<lambda>m c. gput (cl_Name c) (cl_Owner c) m) [] cs | Inl _ \<Rightarrow> []))
          in ((200, AClientRows (map (\<lambda>c. (c, gat '''' ownerOf (ti_Name c))) all)), [], ws)
        else
          let mine = (case ws_store ws of
                        None \<Rightarrow> []
                      | Some st \<Rightarrow> (case ListClientsByOwner st (id_Username ident) of Inr cs \<Rightarrow> map cl_Name cs | Inl _ \<Rightarrow> []))
          in ((200, AClients (filter (\<lambda>c. ti_Name c \<in> set mine) all)), [], ws)
      else if hr_Method r = ''POST'' then
        (case ae_client e (hr_Body r) of
           None \<Rightarrow> ((400, AErr NeedNameToken), [], ws)
         | Some (nm, token, mt, mb) \<Rightarrow>
             if nm = '''' \<or> token = '''' then ((400, AErr NeedNameToken), [], ws)
             else
               let owner = (if id_Admin ident then '''' else id_Username ident) in
               (case AddManagedClient pm (ae_now e) nm token mt mb owner of
                  (Inl err, pm1) \<Rightarrow> ((409, AErr (Tenant err)), [], ws\<lparr>ws_pm := pm1\<rparr>)
                | (Inr _, pm1) \<Rightarrow> ((200, ASuccess), [], ws\<lparr>ws_pm := pm1\<rparr>)))
      else ((405, AErr NotAllowed), [], ws))"

definition client_detail :: "string \<Rightarrow> WebServer \<Rightarrow> nat \<times> api_body" where
  "client_detail nm ws = (case GetClientTraffic (ws_pm ws) nm of None \<Rightarrow> (404, AErr UnknownClient) | Some info \<Rightarrow> (200, AClient info))"

text \<open>Both branches of the \<^verbatim>\<open>GET\<close> case (with and without \<^verbatim>\<open>/traffic\<close>) answer alike.\<close>

definition v1HandleClientPath :: "apiIdentity option \<Rightarrow> http_req \<Rightarrow> WebServer \<Rightarrow> api_result" where
  "v1HandleClientPath ctx r ws =
     (let parts = path_parts ''/api/v1/clients/'' (hr_Path r); ident = currentIdentity ctx in
      if parts = [] \<or> hd parts = '''' then ((400, AErr NoClientName), [], ws)
      else
        let nm = hd parts;
            refused = (\<not> id_Admin ident \<and>
                       (case ws_store ws of
                          None \<Rightarrow> False
                        | Some st \<Rightarrow>
                            (case found (GetClient st nm) of None \<Rightarrow> True | Some c \<Rightarrow> cl_Owner c \<noteq> id_Username ident)))
        in if refused then ((403, AErr ForbiddenClient), [], ws)
           else if hr_Method r = ''GET'' then
             (if length parts \<ge> 2 \<and> parts ! 1 = ''traffic'' then (client_detail nm ws, [], ws) else (client_detail nm ws, [], ws))
           else if hr_Method r = ''DELETE'' then
             (case RemoveManagedClient (ws_pm ws) nm of
                (Inl err, effs, pm1) \<Rightarrow> ((404, AErr (Tenant err)), effs, ws\<lparr>ws_pm := pm1\<rparr>)
              | (Inr _, effs, pm1) \<Rightarrow> ((200, ASuccess), effs, ws\<lparr>ws_pm := pm1\<rparr>))
           else ((405, AErr NotAllowed), [], ws))"

section \<open>API keys\<close>

definition v1HandleAPIKeys :: "api_env \<Rightarrow> apiIdentity option \<Rightarrow> http_req \<Rightarrow> WebServer \<Rightarrow> api_result" where
  "v1HandleAPIKeys e ctx r ws =
     (case ws_store ws of
        None \<Rightarrow> ((503, AErr NoDB), [], ws)
      | Some st \<Rightarrow>
          if hr_Method r = ''GET'' then
            (case ListAPIKeys st of Inl err \<Rightarrow> ((500, AErr (Database err)), [], ws) | Inr ks \<Rightarrow> ((200, AKeys ks), [], ws))
          else if hr_Method r = ''POST'' then
            (case ae_pair e (hr_Body r) of
               None \<Rightarrow> ((400, AErr NeedKey), [], ws)
             | Some (key, note) \<Rightarrow>
                 if key = '''' then ((400, AErr NeedKey), [], ws)
                 else
                   (case AddAPIKey st (ae_now e) key note of
                      (Inl err, st1) \<Rightarrow> ((409, AErr (Database err)), [], put_store st1 ws)
                    | (Inr _, st1) \<Rightarrow>
                        ((200, ASuccess), [],
                         (put_store st1 ws)\<lparr>ws_apiKeys := Some (gput key True (case ws_apiKeys ws of None \<Rightarrow> [] | Some m \<Rightarrow> m))\<rparr>)))
          else ((405, AErr NotAllowed), [], ws))"

definition v1HandleAPIKeyPath :: "apiIdentity option \<Rightarrow> http_req \<Rightarrow> WebServer \<Rightarrow> api_result" where
  "v1HandleAPIKeyPath ctx r ws =
     (if hr_Method r \<noteq> ''DELETE'' then ((405, AErr NotAllowed), [], ws)
      else
        case ws_store ws of
          None \<Rightarrow> ((503, AErr NoDB), [], ws)
        | Some st \<Rightarrow>
            let key = trim_slashes (trim_prefix (hr_Path r) ''/api/v1/api-keys/'') in
            if key = '''' then ((400, AErr NoKey), [], ws)
            else
              (case DeleteAPIKey st key of
                 (Inl err, st1) \<Rightarrow> ((500, AErr (Database err)), [], put_store st1 ws)
               | (Inr False, st1) \<Rightarrow> ((404, AErr UnknownKey), [], put_store st1 ws)
               | (Inr True, st1) \<Rightarrow>
                   ((200, ASuccess), [], (put_store st1 ws)\<lparr>ws_apiKeys := map_option (gdel key) (ws_apiKeys ws)\<rparr>)))"

section \<open>Tunnels\<close>

definition v1HandleCloseProxy :: "api_env \<Rightarrow> apiIdentity option \<Rightarrow> http_req \<Rightarrow> WebServer \<Rightarrow> api_result" where
  "v1HandleCloseProxy e ctx r ws =
     (if hr_Method r \<noteq> ''POST'' then ((405, AErr NotAllowed), [], ws)
      else
        case ae_text e (hr_Body r) of
          None \<Rightarrow> ((400, AErr NoTunnelName), [], ws)
        | Some nm \<Rightarrow>
            if nm = '''' then ((400, AErr NoTunnelName), [], ws)
            else
              (case CloseProxy (ws_pm ws) nm of
                 (False, effs, pm1) \<Rightarrow> ((404, AErr UnknownTunnelRun), effs, ws\<lparr>ws_pm := pm1\<rparr>)
               | (True, effs, pm1) \<Rightarrow> ((200, ASuccess), effs, ws\<lparr>ws_pm := pm1\<rparr>)))"

definition wanted :: "string \<Rightarrow> bool" where
  "wanted q \<longleftrightarrow> q = ''1'' \<or> q = ''true''"

text \<open>The filters of \<^verbatim>\<open>GET /api/v1/proxies\<close>; an empty parameter does not filter.\<close>

definition row_shown :: "apiIdentity option \<Rightarrow> http_req \<Rightarrow> WebServer \<Rightarrow> StoreProxy \<times> bool \<Rightarrow> bool" where
  "row_shown ctx r ws row =
     (let p = fst row; active = snd row; q = hr_Query r in
      canAccessClient ctx ws (px_ClientName p) \<and>
      (q ''client_name'' \<noteq> '''' \<longrightarrow> px_ClientName p = q ''client_name'') \<and>
      (q ''type'' \<noteq> '''' \<longrightarrow> px_Type p = q ''type'') \<and>
      (q ''enabled'' \<noteq> '''' \<longrightarrow> px_Enabled p = wanted (q ''enabled'')) \<and>
      (q ''active'' \<noteq> '''' \<longrightarrow> active = wanted (q ''active'')) \<and>
      (q ''q'' \<noteq> '''' \<longrightarrow> contains_text (px_Name p) (q ''q'')))"

definition list_tunnels :: "apiIdentity option \<Rightarrow> http_req \<Rightarrow> Store \<Rightarrow> WebServer \<Rightarrow> nat \<times> api_body" where
  "list_tunnels ctx r st ws =
     (case ListProxies st of
        Inl err \<Rightarrow> (500, AErr (Database err))
      | Inr ps \<Rightarrow>
          let runtime = foldl (\<lambda>m p. gput (pi_Name p) (pi_Active p) m) [] (GetProxies (ws_pm ws))
          in (200, AProxies (filter (row_shown ctx r ws) (map (\<lambda>p. (p, gat False runtime (px_Name p))) ps))))"

text \<open>The quota counts the enabled tunnels; a failed count reads as none.\<close>

definition limit_reached :: "Store \<Rightarrow> string \<Rightarrow> int option" where
  "limit_reached st clientName =
     (case found (GetClient st clientName) of
        None \<Rightarrow> None
      | Some cli \<Rightarrow>
          let existing = (case ListProxiesByClient st clientName of Inr ps \<Rightarrow> ps | Inl _ \<Rightarrow> []) in
          if cl_MaxTunnels cli > 0 \<and> int (length existing) \<ge> cl_MaxTunnels cli then Some (cl_MaxTunnels cli) else None)"

definition create_tunnel :: "api_env \<Rightarrow> apiIdentity option \<Rightarrow> proxy_req \<Rightarrow> Store \<Rightarrow> WebServer \<Rightarrow> api_result" where
  "create_tunnel e ctx req st ws =
     (if pq_Name req = '''' \<or> pq_ClientName req = '''' \<or> pq_RemotePort req \<le> 0 \<or> pq_RemotePort req > 65535 then ((400, AErr BadTunnel), [], ws)
      else
        let typ = (if pq_Type req = '''' then ''tcp'' else pq_Type req) in
        if typ \<noteq> ''tcp'' \<and> typ \<noteq> ''udp'' then ((400, AErr BadType), [], ws)
        else
          let localAddr = (if pq_LocalAddr req = '''' then ''127.0.0.1'' else pq_LocalAddr req); cn = pq_ClientName req in
          if \<not> canAccessClient ctx ws cn then ((404, AErr UnknownClient), [], ws)
          else
            case limit_reached st cn of
              Some n \<Rightarrow> ((409, AErr (TunnelLimit cn n)), [], ws)
            | None \<Rightarrow>
                (case CreateProxy st (ae_now e)
                        \<lparr>px_ID = 0, px_Name = pq_Name req, px_Type = typ, px_RemotePort = pq_RemotePort req, px_LocalAddr = localAddr,
                         px_LocalPort = pq_LocalPort req, px_ClientName = cn, px_Enabled = True, px_CreatedAt = ''''\<rparr> of
                   (Inl err, st1) \<Rightarrow> ((409, AErr (Database err)), [], put_store st1 ws)
                 | (Inr _, st1) \<Rightarrow>
                     let ws1 = put_store st1 ws in
                     ((200, ASuccess), NotifyClientSync (ws_pm ws1) cn @ [Webhook ''proxy_created'' (pq_Name req)], ws1)))"

definition v1HandleProxies :: "api_env \<Rightarrow> apiIdentity option \<Rightarrow> http_req \<Rightarrow> WebServer \<Rightarrow> api_result" where
  "v1HandleProxies e ctx r ws =
     (case ws_store ws of
        None \<Rightarrow> ((503, AErr NoDB), [], ws)
      | Some st \<Rightarrow>
          if hr_Method r = ''GET'' then (list_tunnels ctx r st ws, [], ws)
          else if hr_Method r = ''POST'' then
            (case ae_proxy e (hr_Body r) of
               None \<Rightarrow> ((400, AErr BadJSON), [], ws)
             | Some req \<Rightarrow> create_tunnel e ctx req st ws)
          else ((405, AErr NotAllowed), [], ws))"

text \<open>The end of a change of a tunnel: close it where it runs, and make its client reconnect. Errors are ignored.\<close>

definition close_and_notify :: "bool \<Rightarrow> string \<Rightarrow> string \<Rightarrow> WebServer \<Rightarrow> effect list \<times> WebServer" where
  "close_and_notify close nm clientName ws =
     (let (effs, pm1) = (if close then (case CloseProxy (ws_pm ws) nm of (_, es, s) \<Rightarrow> (es, s)) else ([], ws_pm ws))
      in (effs @ NotifyClientSync pm1 clientName, ws\<lparr>ws_pm := pm1\<rparr>))"

definition switch_tunnel :: "string \<Rightarrow> bool \<Rightarrow> Store \<Rightarrow> WebServer \<Rightarrow> api_result" where
  "switch_tunnel nm enabled st ws =
     (case found (GetProxy st nm) of
        None \<Rightarrow> ((404, AErr UnknownTunnel), [], ws)
      | Some p \<Rightarrow>
          (case SetProxyEnabled st nm enabled of
             (Inl err, st1) \<Rightarrow> ((500, AErr (Database err)), [], put_store st1 ws)
           | (Inr _, st1) \<Rightarrow>
               (case close_and_notify (\<not> enabled) nm (px_ClientName p) (put_store st1 ws) of (effs, ws1) \<Rightarrow>
                ((200, ASuccess), effs @ [Webhook ''proxy_disabled'' nm], ws1))))"

definition patch_tunnel :: "api_env \<Rightarrow> string \<Rightarrow> http_req \<Rightarrow> Store \<Rightarrow> WebServer \<Rightarrow> api_result" where
  "patch_tunnel e nm r st ws =
     (case found (GetProxy st nm) of
        None \<Rightarrow> ((404, AErr UnknownTunnel), [], ws)
      | Some p \<Rightarrow>
          (case ae_patch e (hr_Body r) of
             None \<Rightarrow> ((400, AErr BadJSON), [], ws)
           | Some req \<Rightarrow>
               let typ = (case pt_Type req of Some v \<Rightarrow> v | None \<Rightarrow> px_Type p);
                   remotePort = (case pt_RemotePort req of Some v \<Rightarrow> v | None \<Rightarrow> px_RemotePort p);
                   localAddr = (case pt_LocalAddr req of Some v \<Rightarrow> v | None \<Rightarrow> px_LocalAddr p);
                   localPort = (case pt_LocalPort req of Some v \<Rightarrow> v | None \<Rightarrow> px_LocalPort p);
                   enabled = (case pt_Enabled req of Some v \<Rightarrow> v | None \<Rightarrow> px_Enabled p)
               in if typ \<noteq> ''tcp'' \<and> typ \<noteq> ''udp'' then ((400, AErr BadType), [], ws)
                  else if remotePort \<le> 0 \<or> remotePort > 65535 then ((400, AErr BadPort), [], ws)
                  else
                    let localAddr1 = (if localAddr = '''' then ''127.0.0.1'' else localAddr) in
                    (case UpdateProxy st nm typ remotePort localPort localAddr1 enabled of
                       (Inr True, st1) \<Rightarrow>
                         (case close_and_notify (\<not> enabled) nm (px_ClientName p) (put_store st1 ws) of (effs, ws1) \<Rightarrow>
                          ((200, AProxy (found (GetProxy st1 nm))), effs @ [Webhook ''proxy_updated'' nm], ws1))
                     | (_, st1) \<Rightarrow> ((404, AErr UpdateFailed), [], put_store st1 ws))))"

definition delete_tunnel :: "string \<Rightarrow> Store \<Rightarrow> WebServer \<Rightarrow> api_result" where
  "delete_tunnel nm st ws =
     (case found (GetProxy st nm) of
        None \<Rightarrow> ((404, AErr UnknownTunnel), [], ws)
      | Some p \<Rightarrow>
          (case DeleteProxy st nm of
             (Inr True, st1) \<Rightarrow>
               (case close_and_notify True nm (px_ClientName p) (put_store st1 ws) of (effs, ws1) \<Rightarrow>
                ((200, ASuccess), effs @ [Webhook ''proxy_deleted'' nm], ws1))
           | (_, st1) \<Rightarrow> ((404, AErr DeleteFailed), [], put_store st1 ws)))"

definition v1HandleProxyPath :: "api_env \<Rightarrow> apiIdentity option \<Rightarrow> http_req \<Rightarrow> WebServer \<Rightarrow> api_result" where
  "v1HandleProxyPath e ctx r ws =
     (case ws_store ws of
        None \<Rightarrow> ((503, AErr NoDB), [], ws)
      | Some st \<Rightarrow>
          let parts = path_parts ''/api/v1/proxies/'' (hr_Path r) in
          if parts = [] \<or> hd parts = '''' \<or> hd parts = ''close'' then ((400, AErr NoTunnelName), [], ws)
          else
            let nm = hd parts;
                refused = (\<not> id_Admin (currentIdentity ctx) \<and>
                           (case found (GetProxy st nm) of None \<Rightarrow> True | Some p \<Rightarrow> \<not> canAccessClient ctx ws (px_ClientName p)))
            in if refused then ((403, AErr ForbiddenTunnel), [], ws)
               else if length parts \<ge> 2 then
                 (if parts ! 1 \<noteq> ''enable'' \<and> parts ! 1 \<noteq> ''disable'' then ((400, AErr OnlyEnable), [], ws)
                  else if hr_Method r \<noteq> ''POST'' then ((405, AErr NotAllowed), [], ws)
                  else switch_tunnel nm (parts ! 1 = ''enable'') st ws)
               else if hr_Method r = ''GET'' then
                 (case found (GetProxy st nm) of None \<Rightarrow> ((404, AErr UnknownTunnel), [], ws) | Some p \<Rightarrow> ((200, AProxy (Some p)), [], ws))
               else if hr_Method r = ''PATCH'' then patch_tunnel e nm r st ws
               else if hr_Method r = ''DELETE'' then delete_tunnel nm st ws
               else ((405, AErr NotAllowed), [], ws))"

section \<open>Users\<close>

text \<open>The JSON form of a user leaves out the password's digest and salt.\<close>

definition user_json :: "User \<Rightarrow> User" where
  "user_json u = u\<lparr>us_PasswordHash := '''', us_PasswordSalt := ''''\<rparr>"

definition v1HandleUsers :: "api_env \<Rightarrow> apiIdentity option \<Rightarrow> http_req \<Rightarrow> WebServer \<Rightarrow> api_result" where
  "v1HandleUsers e ctx r ws =
     (if \<not> id_Admin (currentIdentity ctx) then ((403, AErr AdminOnly), [], ws)
      else
        case ws_store ws of
          None \<Rightarrow> ((503, AErr NoDB), [], ws)
        | Some st \<Rightarrow>
            if hr_Method r = ''GET'' then
              (case ListUsers st of
                 Inl err \<Rightarrow> ((500, AErr (Database err)), [], ws)
               | Inr us \<Rightarrow> ((200, AUsers (map user_json us)), [], ws))
            else if hr_Method r = ''POST'' then
              (case ae_user e (hr_Body r) of
                 None \<Rightarrow> ((400, AErr NeedUserPassword), [], ws)
               | Some (username, password, role0) \<Rightarrow>
                   if username = '''' \<or> password = '''' then ((400, AErr NeedUserPassword), [], ws)
                   else
                     let role = (if role0 = '''' then ''user'' else role0) in
                     if role \<noteq> ''user'' \<and> role \<noteq> ''admin'' then ((400, AErr BadRole), [], ws)
                     else
                       (case CreateUser st (ae_now e) (ae_rnd1 e) (ae_rnd2 e) username password role of
                          (Inl err, st1) \<Rightarrow> ((409, AErr (Database err)), [], put_store st1 ws)
                        | (Inr u, st1) \<Rightarrow> ((200, AUser (user_json u)), [], put_store st1 ws)))
            else ((405, AErr NotAllowed), [], ws))"

definition user_action :: "api_env \<Rightarrow> apiIdentity option \<Rightarrow> http_req \<Rightarrow> string \<Rightarrow> string \<Rightarrow> Store \<Rightarrow> WebServer \<Rightarrow> api_result" where
  "user_action e ctx r username action st ws =
     (if action = ''reset-token'' then
        (case ResetUserToken st (ae_now e) (ae_rnd1 e) username of
           (Inr (token, True), st1) \<Rightarrow> ((200, AToken token), [], put_store st1 ws)
         | (_, st1) \<Rightarrow> ((404, AErr UnknownUser), [], put_store st1 ws))
      else if action = ''password'' then
        (case ae_text e (hr_Body r) of
           None \<Rightarrow> ((400, AErr NeedPassword), [], ws)
         | Some password \<Rightarrow>
             if password = '''' then ((400, AErr NeedPassword), [], ws)
             else
               (case UpdateUserPassword st (ae_now e) (ae_rnd1 e) username password of
                  (Inr True, st1) \<Rightarrow> ((200, ASuccess), [], put_store st1 ws)
                | (_, st1) \<Rightarrow> ((404, AErr UnknownUser), [], put_store st1 ws)))
      else if action = ''disable'' \<or> action = ''enable'' then
        (if \<not> id_Admin (currentIdentity ctx) then ((403, AErr AdminOnly), [], ws)
         else
           (case SetUserStatus st (ae_now e) username (if action = ''disable'' then ''disabled'' else ''active'') of
              (Inr True, st1) \<Rightarrow> ((200, ASuccess), [], put_store st1 ws)
            | (_, st1) \<Rightarrow> ((404, AErr UnknownUser), [], put_store st1 ws)))
      else ((400, AErr UnknownAction), [], ws))"

definition v1HandleUserPath :: "api_env \<Rightarrow> apiIdentity option \<Rightarrow> http_req \<Rightarrow> WebServer \<Rightarrow> api_result" where
  "v1HandleUserPath e ctx r ws =
     (let parts = path_parts ''/api/v1/users/'' (hr_Path r); ident = currentIdentity ctx in
      if parts = [] \<or> hd parts = '''' then ((400, AErr NoUserName), [], ws)
      else
        let username = hd parts in
        if \<not> id_Admin ident \<and> id_Username ident \<noteq> username then ((403, AErr ForbiddenUser), [], ws)
        else
          case ws_store ws of
            None \<Rightarrow> ((503, AErr NoDB), [], ws)
          | Some st \<Rightarrow>
              if length parts \<ge> 2 then
                (if hr_Method r \<noteq> ''POST'' then ((405, AErr NotAllowed), [], ws) else user_action e ctx r username (parts ! 1) st ws)
              else if hr_Method r = ''GET'' then
                (case found (GetUser st username) of
                   None \<Rightarrow> ((404, AErr UnknownUser), [], ws)
                 | Some u \<Rightarrow> ((200, AUser (user_json u)), [], ws))
              else if hr_Method r = ''DELETE'' then
                (if \<not> id_Admin ident then ((403, AErr AdminOnly), [], ws)
                 else
                   (case DeleteUser st username of
                      (Inr True, st1) \<Rightarrow> ((200, ASuccess), [], put_store st1 ws)
                    | (_, st1) \<Rightarrow> ((404, AErr UnknownUser), [], put_store st1 ws)))
              else ((405, AErr NotAllowed), [], ws))"

text \<open>\<^verbatim>\<open>VerifyUserPassword\<close> also returns the user when the password is wrong; the flag decides.\<close>

definition v1HandleLogin :: "api_env \<Rightarrow> http_req \<Rightarrow> WebServer \<Rightarrow> api_result" where
  "v1HandleLogin e r ws =
     (case ws_store ws of
        None \<Rightarrow> ((503, AErr NoDB), [], ws)
      | Some st \<Rightarrow>
          (case ae_pair e (hr_Body r) of
             None \<Rightarrow> ((400, AErr NeedUserPassword), [], ws)
           | Some (username, password) \<Rightarrow>
               if username = '''' \<or> password = '''' then ((400, AErr NeedUserPassword), [], ws)
               else
                 (case VerifyUserPassword st username password of
                    (Some u, True) \<Rightarrow> ((200, ALogin (us_Username u) (us_Role u) (us_APIToken u)), [], ws)
                  | _ \<Rightarrow> ((401, AErr BadLogin), [], ws))))"

section \<open>Routes\<close>

text \<open>The most specific pattern wins; a pattern that ends in a slash stands for the paths below it.\<close>

definition api_route :: "api_env \<Rightarrow> string \<Rightarrow> (apiIdentity option \<Rightarrow> http_req \<Rightarrow> WebServer \<Rightarrow> api_result) option" where
  "api_route e path =
     (if path = ''/api/v1/clients'' then Some (v1HandleClients e)
      else if has_prefix path ''/api/v1/clients/'' then Some v1HandleClientPath
      else if path = ''/api/v1/proxies/close'' then Some (v1HandleCloseProxy e)
      else if path = ''/api/v1/proxies'' then Some (v1HandleProxies e)
      else if has_prefix path ''/api/v1/proxies/'' then Some (v1HandleProxyPath e)
      else if path = ''/api/v1/api-keys'' then Some (v1HandleAPIKeys e)
      else if has_prefix path ''/api/v1/api-keys/'' then Some v1HandleAPIKeyPath
      else if path = ''/api/v1/users'' then Some (v1HandleUsers e)
      else if has_prefix path ''/api/v1/users/'' then Some (v1HandleUserPath e)
      else None)"

definition api_serve :: "api_env \<Rightarrow> http_req \<Rightarrow> WebServer \<Rightarrow> api_result option" where
  "api_serve e r ws =
     (if hr_Path r = ''/api/v1/login'' then Some (v1HandleLogin e r ws)
      else map_option (\<lambda>h. apiKeyMiddleware h r ws) (api_route e (hr_Path r)))"

text \<open>The state after one request; other paths do not concern the API.\<close>

definition api_request :: "WebServer \<Rightarrow> api_env \<times> http_req \<Rightarrow> WebServer" where
  "api_request ws q = (case api_serve (fst q) (snd q) ws of None \<Rightarrow> ws | Some (_, _, ws') \<Rightarrow> ws')"

section \<open>What a request may do to the database\<close>

text \<open>
  A predicate on stores that the statements issued by the API keep, where a tunnel row that is created or
  updated is one that passed the handler's checks, is kept by every request.
\<close>

definition valid_tunnel :: "StoreProxy \<Rightarrow> bool" where
  "valid_tunnel p \<longleftrightarrow> px_Type p \<in> {''tcp'', ''udp''} \<and> 1 \<le> px_RemotePort p \<and> px_RemotePort p \<le> 65535 \<and> px_LocalAddr p \<noteq> '''' \<and>
     px_Name p \<noteq> '''' \<and> px_ClientName p \<noteq> ''''"

lemma CloseProxy_store [simp]: "sv_store (snd (snd (CloseProxy s nm))) = sv_store s"
  by (simp add: CloseProxy_def cleanupProxy_def close_sock_def Let_def split: option.split)

locale api_store_property =
  fixes P :: "Store \<Rightarrow> bool"
  assumes add_client: "P st \<Longrightarrow> P (snd (AddClientWithOwner st now nm token mt mb owner))"
    and quota: "P st \<Longrightarrow> P (snd (UpdateClientQuota st now nm mt mb))"
    and delete_client: "P st \<Longrightarrow> P (snd (DeleteClient st nm))"
    and add_key: "P st \<Longrightarrow> P (snd (AddAPIKey st now key note))"
    and delete_key: "P st \<Longrightarrow> P (snd (DeleteAPIKey st key))"
    and create: "P st \<Longrightarrow> valid_tunnel p \<Longrightarrow> P (snd (CreateProxy st now p))"
    and update: "P st \<Longrightarrow> typ \<in> {''tcp'', ''udp''} \<Longrightarrow> 1 \<le> rp \<Longrightarrow> rp \<le> 65535 \<Longrightarrow> la \<noteq> '''' \<Longrightarrow> P (snd (UpdateProxy st nm typ rp lp la en))"
    and enable: "P st \<Longrightarrow> P (snd (SetProxyEnabled st nm en))"
    and delete_proxy: "P st \<Longrightarrow> P (snd (DeleteProxy st nm))"
    and create_user: "P st \<Longrightarrow> P (snd (CreateUser st now r1 r2 nm pw role))"
    and reset_token: "P st \<Longrightarrow> P (snd (ResetUserToken st now rd nm))"
    and set_password: "P st \<Longrightarrow> P (snd (UpdateUserPassword st now rd nm pw))"
    and delete_user: "P st \<Longrightarrow> P (snd (DeleteUser st nm))"
    and user_status: "P st \<Longrightarrow> P (snd (SetUserStatus st now nm s))"
begin

definition holds :: "Server \<Rightarrow> bool" where
  "holds pm \<longleftrightarrow> (case sv_store pm of None \<Rightarrow> False | Some st \<Rightarrow> P st)"

lemma holds_put [simp]: "holds (ws_pm (put_store st ws)) \<longleftrightarrow> P st"
  by (simp add: holds_def put_store_def)

lemma holds_close [simp]: "holds (snd (snd (CloseProxy pm nm))) \<longleftrightarrow> holds pm"
  by (simp add: holds_def)

lemma holds_close_and_notify [simp]: "holds (ws_pm (snd (close_and_notify b nm cn ws))) \<longleftrightarrow> holds (ws_pm ws)"
  using holds_close [of "ws_pm ws" nm] by (simp add: close_and_notify_def Let_def case_prod_unfold)

lemma holds_add: "holds pm \<Longrightarrow> holds (snd (AddManagedClient pm now nm token mt mb owner))"
  using add_client quota
  by (auto simp: holds_def AddManagedClient_def AddManagedClientWithOwner_def index_client_def Let_def case_prod_unfold split: option.split sum.split)

lemma holds_remove: "holds pm \<Longrightarrow> holds (snd (snd (RemoveManagedClient pm nm)))"
  using delete_client by (auto simp: holds_def RemoveManagedClient_def Let_def case_prod_unfold split: option.splits)

lemma holds_client_handlers:
  assumes "holds (ws_pm ws)"
  shows "holds (ws_pm (snd (snd (v1HandleClients e ctx r ws))))" and "holds (ws_pm (snd (snd (v1HandleClientPath ctx r ws))))"
  using assms holds_add [OF assms, of "ae_now e"] holds_remove [OF assms]
  by (auto simp: v1HandleClients_def v1HandleClientPath_def Let_def case_prod_unfold split: option.splits sum.splits)

lemma holds_key_handlers:
  assumes "holds (ws_pm ws)"
  shows "holds (ws_pm (snd (snd (v1HandleAPIKeys e ctx r ws))))" and "holds (ws_pm (snd (snd (v1HandleAPIKeyPath ctx r ws))))"
  using assms add_key delete_key
  by (auto simp: v1HandleAPIKeys_def v1HandleAPIKeyPath_def holds_def put_store_def Let_def case_prod_unfold split: option.splits sum.splits bool.splits)

lemma holds_create_tunnel:
  assumes "P st" "holds (ws_pm ws)" shows "holds (ws_pm (snd (snd (create_tunnel e ctx req st ws))))"
  using assms create [OF assms(1)]
  by (auto simp: create_tunnel_def valid_tunnel_def Let_def case_prod_unfold split: option.splits sum.splits)

lemma holds_tunnel_changes:
  assumes "P st" "holds (ws_pm ws)"
  shows "holds (ws_pm (snd (snd (switch_tunnel nm en st ws))))" and "holds (ws_pm (snd (snd (delete_tunnel nm st ws))))"
  using assms enable [OF assms(1)] delete_proxy [OF assms(1)]
  by (auto simp: switch_tunnel_def delete_tunnel_def Let_def case_prod_unfold split: option.splits sum.splits bool.splits)

lemma holds_patch_tunnel:
  assumes "P st" "holds (ws_pm ws)" shows "holds (ws_pm (snd (snd (patch_tunnel e nm r st ws))))"
proof (cases "found (GetProxy st nm)")
  case (Some p)
  show ?thesis
  proof (cases "ae_patch e (hr_Body r)")
    case (Some req)
    show ?thesis
      using assms update [OF assms(1)] \<open>found (GetProxy st nm) = Some p\<close> Some
      by (simp add: patch_tunnel_def Let_def case_prod_unfold split: sum.split bool.split)
  qed (use assms Some in \<open>simp add: patch_tunnel_def\<close>)
qed (use assms in \<open>simp add: patch_tunnel_def\<close>)

lemma holds_tunnel_handlers:
  assumes "holds (ws_pm ws)"
  shows "holds (ws_pm (snd (snd (v1HandleProxies e ctx r ws))))" and "holds (ws_pm (snd (snd (v1HandleProxyPath e ctx r ws))))"
    and "holds (ws_pm (snd (snd (v1HandleCloseProxy e ctx r ws))))"
proof -
  have P: "P st" if "sv_store (ws_pm ws) = Some st" for st using assms that by (simp add: holds_def)
  show "holds (ws_pm (snd (snd (v1HandleProxies e ctx r ws))))"
    using assms P by (auto simp: v1HandleProxies_def holds_create_tunnel split: option.splits)
  show "holds (ws_pm (snd (snd (v1HandleProxyPath e ctx r ws))))"
    using assms P by (auto simp: v1HandleProxyPath_def Let_def holds_tunnel_changes holds_patch_tunnel split: option.split)
  show "holds (ws_pm (snd (snd (v1HandleCloseProxy e ctx r ws))))"
    using assms holds_close [of "ws_pm ws"] by (auto simp: v1HandleCloseProxy_def case_prod_unfold split: option.split bool.split)
qed

lemma holds_user_handlers:
  assumes "holds (ws_pm ws)"
  shows "holds (ws_pm (snd (snd (v1HandleUsers e ctx r ws))))" and "holds (ws_pm (snd (snd (v1HandleUserPath e ctx r ws))))"
proof -
  have P: "P st" if "sv_store (ws_pm ws) = Some st" for st using assms that by (simp add: holds_def)
  show "holds (ws_pm (snd (snd (v1HandleUsers e ctx r ws))))"
    using assms P create_user by (auto simp: v1HandleUsers_def Let_def case_prod_unfold split: option.splits sum.splits)
  have "holds (ws_pm (snd (snd (user_action e ctx r username action st ws))))" if "P st" for username action st
    using assms reset_token [OF that, of "ae_now e"] set_password [OF that, of "ae_now e"] user_status [OF that, of "ae_now e"]
    by (auto simp: user_action_def case_prod_unfold split: option.splits sum.splits bool.splits)
  then show "holds (ws_pm (snd (snd (v1HandleUserPath e ctx r ws))))"
    using assms P delete_user by (auto simp: v1HandleUserPath_def Let_def case_prod_unfold split: option.splits sum.splits bool.splits)
qed

lemma holds_route: "api_route e path = Some h \<Longrightarrow> holds (ws_pm ws) \<Longrightarrow> holds (ws_pm (snd (snd (h ctx r ws))))"
  by (auto simp: api_route_def holds_client_handlers holds_key_handlers holds_tunnel_handlers holds_user_handlers split: if_splits)

lemma holds_serve:
  assumes "api_serve e r ws = Some (resp, effs, ws')" "holds (ws_pm ws)" shows "holds (ws_pm ws')"
proof (cases "hr_Path r = ''/api/v1/login''")
  case True
  then show ?thesis using assms by (auto simp: api_serve_def v1HandleLogin_def split: option.splits if_splits prod.splits bool.splits)
next
  case False
  then obtain h where "api_route e (hr_Path r) = Some h" "apiKeyMiddleware h r ws = (resp, effs, ws')"
    using assms(1) by (auto simp: api_serve_def)
  then show ?thesis
    using assms(2) holds_route [of e "hr_Path r" h ws]
    by (auto simp: apiKeyMiddleware_def Let_def split: if_splits option.splits) (metis snd_conv)+
qed

lemma holds_run: "holds (ws_pm ws) \<Longrightarrow> holds (ws_pm (foldl api_request ws rqs))"
proof (induction rqs arbitrary: ws)
  case (Cons q rqs)
  have "holds (ws_pm (api_request ws q))"
    using holds_serve [of "fst q" "snd q" ws] Cons.prems by (auto simp: api_request_def split: option.split prod.split)
  then show ?case using Cons.IH by simp
qed simp

end

interpretation wf_api: api_store_property store_wf
  by unfold_locales (simp_all add: store_wf_clients_ops store_wf_key_ops store_wf_proxy_ops store_wf_user_ops)

definition tunnels_valid :: "Store \<Rightarrow> bool" where
  "tunnels_valid st \<longleftrightarrow> (\<forall>p \<in> set (proxies_tbl st). valid_tunnel p)"

lemma tunnels_valid_cong: "proxies_tbl st' = proxies_tbl st \<Longrightarrow> tunnels_valid st' = tunnels_valid st"
  by (simp add: tunnels_valid_def)

lemma proxies_tbl_frame [simp]:
  "proxies_tbl (snd (AddClientWithOwner st now nm token mt mb owner)) = proxies_tbl st"
  "proxies_tbl (snd (UpdateClientQuota st now nm mt mb)) = proxies_tbl st" "proxies_tbl (snd (DeleteClient st nm)) = proxies_tbl st"
  "proxies_tbl (snd (AddAPIKey st now key note)) = proxies_tbl st" "proxies_tbl (snd (DeleteAPIKey st key)) = proxies_tbl st"
  "proxies_tbl (snd (CreateUser st now r1 r2 nm pw role)) = proxies_tbl st" "proxies_tbl (snd (ResetUserToken st now rd nm)) = proxies_tbl st"
  "proxies_tbl (snd (UpdateUserPassword st now rd nm pw)) = proxies_tbl st" "proxies_tbl (snd (DeleteUser st nm)) = proxies_tbl st"
  "proxies_tbl (snd (SetUserStatus st now nm s)) = proxies_tbl st"
  by (simp_all add: AddClientWithOwner_def UpdateClientQuota_def DeleteClient_def AddAPIKey_def DeleteAPIKey_def CreateUser_def ResetUserToken_def
      UpdateUserPassword_def DeleteUser_def SetUserStatus_def update_user_def Let_def db_exec_snd split: option.split)

interpretation rows_api: api_store_property tunnels_valid
proof
  fix st nm ty la now p and rp lp :: int and en
  assume st: "tunnels_valid st"
  show "tunnels_valid (snd (CreateProxy st now p))" if "valid_tunnel p"
    using st that by (auto simp: tunnels_valid_def CreateProxy_def db_exec_snd valid_tunnel_def sql_insert_def split: option.splits if_splits)
  show "tunnels_valid (snd (UpdateProxy st nm ty rp lp la en))" if "ty \<in> {''tcp'', ''udp''}" "1 \<le> rp" "rp \<le> 65535" "la \<noteq> ''''"
    using st that by (auto simp: tunnels_valid_def UpdateProxy_def db_exec_snd valid_tunnel_def sql_update_def)
  show "tunnels_valid (snd (SetProxyEnabled st nm en))" "tunnels_valid (snd (DeleteProxy st nm))"
    using st by (auto simp: tunnels_valid_def SetProxyEnabled_def DeleteProxy_def db_exec_snd valid_tunnel_def sql_update_def sql_delete_def)
qed (simp_all cong: tunnels_valid_cong add: tunnels_valid_def)

section \<open>Isolation of users\<close>

definition owns :: "WebServer \<Rightarrow> string \<Rightarrow> string \<Rightarrow> bool" where
  "owns ws u nm \<longleftrightarrow> (\<exists>st. ws_store ws = Some st \<and> (\<exists>c \<in> set (clients_tbl st). cl_Name c = nm \<and> cl_Owner c = u))"

definition shown :: "api_body \<Rightarrow> string set" where
  "shown b = (case b of AClient i \<Rightarrow> {ti_Name i} | AClients is \<Rightarrow> ti_Name ` set is | AClientRows rows \<Rightarrow> (\<lambda>row. ti_Name (fst row)) ` set rows | _ \<Rightarrow> {})"

text \<open>The rows of clients of other owners.\<close>

definition foreign :: "string \<Rightarrow> WebServer \<Rightarrow> StoreClient list" where
  "foreign u ws = (case ws_store ws of None \<Rightarrow> [] | Some st \<Rightarrow> filter (\<lambda>c. cl_Owner c \<noteq> u) (clients_tbl st))"

lemma synced_store:
  assumes "synced s" obtains st where "sv_store s = Some st" "db_ok st" "store_wf st" "db_table st = tenants_of s" "managed_wf (managed_list s)"
  using assms by (auto simp: synced_def tenants_of_def db_ok_def split: option.splits)

lemma added_rows:
  assumes "synced s" "nm \<noteq> ''''" "token \<noteq> ''''" "sv_store s = Some st"
  shows "\<exists>st'. sv_store (snd (AddManagedClient s now nm token mt mb u)) = Some st' \<and>
    filter (\<lambda>c. cl_Owner c \<noteq> u) (clients_tbl st') = filter (\<lambda>c. cl_Owner c \<noteq> u) (clients_tbl st)"
proof (cases "managed_conflict nm token (managed_list s)")
  case None
  then have "nm \<notin> ran (db_table st)"
    using assms managed_conflict_taken [of "managed_list s" nm token] by (simp add: synced_def)
  then have "GetClient st nm = Inr None" using assms(1,4) by (simp add: synced_def GetClient_absent)
  then have "sv_store (snd (AddManagedClient s now nm token mt mb u)) = Some (snd (AddClientWithOwner st now nm token mt mb u))"
    using None assms by (simp add: AddManagedClient_def AddManagedClientWithOwner_def Let_def split: prod.split sum.split)
  then show ?thesis by (auto simp: AddClientWithOwner_def db_exec_snd sql_insert_def split: option.split)
next
  case (Some e)
  then show ?thesis using assms by (simp add: AddManagedClient_def AddManagedClientWithOwner_def)
qed

lemma removed_rows:
  assumes "store_wf st" "c \<in> set (clients_tbl st)" "cl_Name c = nm" "cl_Owner c = u"
  shows "filter (\<lambda>d. cl_Owner d \<noteq> u) (clients_tbl (snd (DeleteClient st nm))) = filter (\<lambda>d. cl_Owner d \<noteq> u) (clients_tbl st)"
proof -
  have "d = c" if "d \<in> set (clients_tbl st)" "cl_Name d = nm" for d
    using assms that by (auto simp: store_wf_def clients_wf_def distinct_map inj_on_def)
  then have "filter (\<lambda>d. cl_Owner d \<noteq> u \<and> cl_Name d \<noteq> nm) (clients_tbl st) = filter (\<lambda>d. cl_Owner d \<noteq> u) (clients_tbl st)"
    using assms(4) by (intro filter_cong) auto
  then show ?thesis by (simp add: DeleteClient_def db_exec_snd sql_delete_def conj_commute)
qed

lemma AddManagedClient_srv: "snd (AddManagedClient s now nm token mt mb owner) = srv_add (now, mt, mb, owner) s nm token"
  by (simp add: srv_add_def AddManagedClient_def)

lemma found_GetClient: "found (GetClient st nm) = Some c \<Longrightarrow> c \<in> set (clients_tbl st) \<and> cl_Name c = nm"
  by (auto simp: found_def GetClient_def db_query_def dest!: find_SomeD split: option.splits if_splits sum.splits)

text \<open>What a user's request leaves to others.\<close>

definition confined :: "string \<Rightarrow> WebServer \<Rightarrow> effect list \<Rightarrow> WebServer \<Rightarrow> bool" where
  "confined u ws effs ws' \<longleftrightarrow> foreign u ws' = foreign u ws \<and> synced (ws_pm ws') \<and>
     (\<forall>tok nm. tenants_of (ws_pm ws) tok = Some nm \<longrightarrow> \<not> owns ws u nm \<longrightarrow> tenants_of (ws_pm ws') tok = Some nm) \<and>
     (\<forall>eff \<in> set effs. \<exists>nm c. eff = Hangup c \<and> owns ws u nm \<and> c \<in> set (conns_named (ws_pm ws) nm))"

lemma confined_add:
  assumes "synced (ws_pm ws)" "nm \<noteq> ''''" "token \<noteq> ''''"
  shows "confined u ws [] (ws\<lparr>ws_pm := snd (AddManagedClient (ws_pm ws) now nm token mt mb u)\<rparr>)"
proof -
  obtain st where st: "sv_store (ws_pm ws) = Some st" using synced_store [OF assms(1)] by blast
  have "tenants_of (snd (AddManagedClient (ws_pm ws) now nm token mt mb u)) = spec_add nm token (tenants_of (ws_pm ws))"
    and "synced (snd (AddManagedClient (ws_pm ws) now nm token mt mb u))"
    using srv.table_add [OF assms] srv.ok_add [OF assms] by (simp_all add: AddManagedClient_srv)
  then show ?thesis
    using added_rows [OF assms st, of now mt mb u] st by (auto simp: confined_def foreign_def spec_add_def)
qed

lemma confined_remove:
  assumes "synced (ws_pm ws)" "owns ws u nm"
  shows "confined u ws (fst (snd (RemoveManagedClient (ws_pm ws) nm))) (ws\<lparr>ws_pm := snd (snd (RemoveManagedClient (ws_pm ws) nm))\<rparr>)"
proof -
  obtain st where st: "sv_store (ws_pm ws) = Some st" "store_wf st" using synced_store [OF assms(1)] by blast
  obtain c where c: "c \<in> set (clients_tbl st)" "cl_Name c = nm" "cl_Owner c = u" using assms(2) st by (auto simp: owns_def)
  have "set (fst (snd (RemoveManagedClient (ws_pm ws) nm))) \<subseteq> Hangup ` set (conns_named (ws_pm ws) nm)"
    by (auto simp: RemoveManagedClient_def Let_def case_prod_unfold)
  then have e: "\<exists>n c. eff = Hangup c \<and> owns ws u n \<and> c \<in> set (conns_named (ws_pm ws) n)"
    if "eff \<in> set (fst (snd (RemoveManagedClient (ws_pm ws) nm)))" for eff
    using that assms(2) by blast
  have d: "snd (snd (RemoveManagedClient (ws_pm ws) nm)) = srv_del (ws_pm ws) nm" by (simp add: srv_del_def)
  have t: "tenants_of (srv_del (ws_pm ws) nm) tok = Some n" if "tenants_of (ws_pm ws) tok = Some n" "\<not> owns ws u n" for tok n
    using srv.removed_keeps_others [OF assms(1) that(1), of nm] that(2) assms(2) by auto
  show ?thesis
    using e t srv.ok_del [OF assms(1), of nm] removed_rows [OF st(2) c] st
    unfolding confined_def foreign_def d by (auto simp: srv_del_parts)
qed

lemma filter_sql_update_other:
  "(\<And>r. p (f r) = p r) \<Longrightarrow> filter (\<lambda>r. \<not> p r) (sql_update p f rows) = filter (\<lambda>r. \<not> p r) rows"
  by (induction rows) (simp_all add: sql_update_def)

text \<open>Creating a tunnel appends a row or leaves the store as it was.\<close>

definition new_row :: "api_env \<Rightarrow> proxy_req \<Rightarrow> Store \<Rightarrow> StoreProxy" where
  "new_row e req st = \<lparr>px_ID = Suc (proxies_seq st), px_Name = pq_Name req, px_Type = (if pq_Type req = '''' then ''tcp'' else pq_Type req),
      px_RemotePort = pq_RemotePort req, px_LocalAddr = (if pq_LocalAddr req = '''' then ''127.0.0.1'' else pq_LocalAddr req),
      px_LocalPort = pq_LocalPort req, px_ClientName = pq_ClientName req, px_Enabled = True, px_CreatedAt = ae_now e\<rparr>"

lemma create_tunnel_ok:
  assumes "db_ok st" "create_tunnel e ctx req st ws = ((200, b), effs, ws')"
  shows "canAccessClient ctx ws (pq_ClientName req)" and "limit_reached st (pq_ClientName req) = None"
    and "ws_store ws' = Some (st\<lparr>proxies_tbl := proxies_tbl st @ [new_row e req st], proxies_seq := Suc (proxies_seq st)\<rparr>)"
    and "effs = NotifyClientSync (ws_pm ws) (pq_ClientName req) @ [Webhook ''proxy_created'' (pq_Name req)]"
  using assms
  by (auto simp: create_tunnel_def CreateProxy_def db_exec_def db_ok_def sql_insert_def put_store_def new_row_def NotifyClientSync_def Let_def
      split: if_splits option.splits)

lemma create_tunnel_refused:
  assumes "db_ok st" "ws_store ws = Some st" "create_tunnel e ctx req st ws = ((code, b), effs, ws')" "code \<noteq> 200"
  shows "ws_store ws' = Some st"
  using assms
  by (auto simp: create_tunnel_def CreateProxy_def db_exec_def db_ok_def sql_insert_def put_store_def Let_def split: if_splits option.splits)

section \<open>Properties\<close>

text \<open>The key of a request is a known API key, the token of an active user, or a configured key.\<close>

definition has_credential :: "WebServer \<Rightarrow> http_req \<Rightarrow> bool" where
  "has_credential ws r \<longleftrightarrow> request_key r \<noteq> '''' \<and>
     ((\<exists>st. ws_store ws = Some st \<and>
         ((\<exists>k \<in> set (api_keys_tbl st). ak_Key k = request_key r) \<or>
          (\<exists>u \<in> set (users_tbl st). us_APIToken u = request_key r \<and> us_Status u = ''active''))) \<or>
      (\<exists>m. ws_apiKeys ws = Some m \<and> gat False m (request_key r)))"

text \<open>
  C18: Every request to the open API, except the login with name and password, that does not carry a known API
  key, the token of an active user or a configured key is answered with 401, and nothing changes.
\<close>
theorem api_needs_credential:
  assumes "api_serve e r ws = Some (resp, effs, ws')" and "hr_Path r \<noteq> ''/api/v1/login''" and "\<not> has_credential ws r"
  shows "fst resp = 401 \<and> effs = [] \<and> ws' = ws"
proof -
  obtain h where h: "apiKeyMiddleware h r ws = (resp, effs, ws')" using assms(1,2) by (auto simp: api_serve_def)
  have no: "HasAPIKey st (request_key r) \<noteq> Inr True" "found (GetUserByToken st (request_key r)) = None"
    if "ws_store ws = Some st" "request_key r \<noteq> ''''" for st
    using assms(3) that
    by (auto simp: has_credential_def HasAPIKey_def GetUserByToken_def db_query_def found_def list_ex_iff
        dest!: find_SomeD split: option.split)
  show ?thesis
    using h no assms(3)
    by (auto simp: apiKeyMiddleware_def has_credential_def Let_def split: if_splits option.splits)
qed

text \<open>
  C8: The client endpoints isolate users from each other. While memory and database agree, a request with the
  token of a user shows only clients of that user, closes only connections of clients of that user, changes no row
  of another owner, leaves the tokens of all other clients valid, and keeps memory and database in agreement.
\<close>
theorem api_clients_isolated:
  assumes "synced (ws_pm ws)" and "\<not> id_Admin ident" and "h \<in> {v1HandleClients e, v1HandleClientPath}"
    and "h (Some ident) r ws = (resp, effs, ws')"
  shows "(\<forall>nm \<in> shown (snd resp). owns ws (id_Username ident) nm) \<and> confined (id_Username ident) ws effs ws'"
proof -
  obtain st where st: "sv_store (ws_pm ws) = Some st" "db_ok st" using synced_store [OF assms(1)] by blast
  have same: "confined (id_Username ident) ws [] ws" using assms(1) by (simp add: confined_def)
  from assms(3) show ?thesis
  proof (elim insertE emptyE)
    assume h: "h = v1HandleClients e"
    have l: "ListClientsByOwner st (id_Username ident) = Inr (filter (\<lambda>c. cl_Owner c = id_Username ident) (clients_tbl st))"
      using st by (simp add: ListClientsByOwner_def db_query_def db_ok_def)
    have own: "owns ws (id_Username ident) (cl_Name c)" if "c \<in> set (clients_tbl st)" "cl_Owner c = id_Username ident" for c
      using that st by (auto simp: owns_def)
    show ?thesis
      using assms(2,4) st same own confined_add [OF assms(1)] unfolding h
      by (auto simp: v1HandleClients_def currentIdentity_def l Let_def shown_def case_prod_unfold split: if_splits option.splits sum.splits)
  next
    assume h: "h = v1HandleClientPath"
    have own: "owns ws (id_Username ident) nm" if "found (GetClient st nm) = Some c" "cl_Owner c = id_Username ident" for nm c
      using that st found_GetClient by (auto simp: owns_def)
    have det: "shown (snd (client_detail nm ws)) \<subseteq> {nm}" for nm
      by (auto simp: client_detail_def shown_def GetClientTraffic_def dest!: find_SomeD split: option.split)
    show ?thesis
      using assms(2,4) st same own det confined_remove [OF assms(1), of "id_Username ident"] unfolding h
      by (auto simp: v1HandleClientPath_def currentIdentity_def Let_def shown_def case_prod_unfold split: if_splits option.splits sum.splits)
  qed
qed

text \<open>
  C13: Whatever requests arrive at the API, from whomever and with whatever content, and whichever database
  statements fail, the tables keep their uniqueness constraints and every stored tunnel is one that a client can
  register: its type is tcp or udp, its public port is between 1 and 65535, and its name, client and local address are not empty.
\<close>
theorem api_keeps_tables_valid:
  assumes "ws_store ws = Some st" and "store_wf st" and "tunnels_valid st"
  shows "\<exists>st'. ws_store (foldl api_request ws rqs) = Some st' \<and> store_wf st' \<and> tunnels_valid st'"
  using wf_api.holds_run [of ws rqs] rows_api.holds_run [of ws rqs] assms
  by (simp add: wf_api.holds_def rows_api.holds_def split: option.splits)

text \<open>
  C37: The user endpoints isolate users and do not let a user change his own standing: with a user's token they
  show no other user, change no other user's row, and keep the names, roles and states of all users.
\<close>
theorem api_users_isolated:
  assumes "ws_store ws = Some st" and "\<not> id_Admin ident" and "h \<in> {v1HandleUsers e, v1HandleUserPath e}"
    and "h (Some ident) r ws = (resp, effs, ws')"
  shows "(\<forall>us. snd resp \<noteq> AUsers us) \<and> (\<forall>u. snd resp = AUser u \<longrightarrow> us_Username u = id_Username ident) \<and>
    (\<exists>st'. ws_store ws' = Some st' \<and>
       filter (\<lambda>u. us_Username u \<noteq> id_Username ident) (users_tbl st') = filter (\<lambda>u. us_Username u \<noteq> id_Username ident) (users_tbl st) \<and>
       map (\<lambda>u. (us_Username u, us_Role u, us_Status u)) (users_tbl st') = map (\<lambda>u. (us_Username u, us_Role u, us_Status u)) (users_tbl st))"
proof -
  let ?n = "id_Username ident"
  define kept where "kept st' \<longleftrightarrow> filter (\<lambda>u. us_Username u \<noteq> ?n) (users_tbl st') = filter (\<lambda>u. us_Username u \<noteq> ?n) (users_tbl st) \<and>
       map (\<lambda>u. (us_Username u, us_Role u, us_Status u)) (users_tbl st') = map (\<lambda>u. (us_Username u, us_Role u, us_Status u)) (users_tbl st)" for st' :: Store
  have refl: "kept st" by (simp add: kept_def)
  have upd: "kept (st\<lparr>users_tbl := sql_update (\<lambda>u. us_Username u = ?n) f (users_tbl st)\<rparr>)"
    if "\<And>u. us_Username (f u) = us_Username u \<and> us_Role (f u) = us_Role u \<and> us_Status (f u) = us_Status u" for f
    using that filter_sql_update_other [of "\<lambda>u. us_Username u = ?n" f "users_tbl st"]
    by (simp add: kept_def comp_def) (simp add: sql_update_def)
  have reset: "kept (snd (ResetUserToken st now rd ?n))" for now rd
    using upd refl by (simp add: ResetUserToken_def Let_def db_exec_snd update_user_def)
  have pw: "kept (snd (UpdateUserPassword st now rd ?n p))" for now rd p
    using upd refl by (simp add: UpdateUserPassword_def Let_def db_exec_snd update_user_def)
  have self: "us_Username u = ?n" if "found (GetUser st ?n) = Some u" for u
    using that by (auto simp: found_def GetUser_def db_query_def dest!: find_SomeD split: sum.splits option.splits if_splits)
  have act: "(\<exists>st'. ws_store (snd (snd (user_action e (Some ident) r ?n action st ws))) = Some st' \<and> kept st') \<and>
    (\<forall>us. snd (fst (user_action e (Some ident) r ?n action st ws)) \<noteq> AUsers us) \<and>
    (\<forall>u. snd (fst (user_action e (Some ident) r ?n action st ws)) \<noteq> AUser u)" for action
    using assms(1,2) refl reset [of "ae_now e"] pw [of "ae_now e"]
    by (auto simp: user_action_def put_store_def currentIdentity_def case_prod_unfold split: option.split sum.split bool.split)
  from assms(3) show ?thesis
  proof (elim insertE emptyE)
    assume "h = v1HandleUsers e"
    then show ?thesis using assms by (auto simp: v1HandleUsers_def currentIdentity_def)
  next
    assume h: "h = v1HandleUserPath e"
    let ?res = "v1HandleUserPath e (Some ident) r ws"
    have "(\<exists>st'. ws_store (snd (snd ?res)) = Some st' \<and> kept st') \<and> (\<forall>us. snd (fst ?res) \<noteq> AUsers us) \<and>
      (\<forall>u. snd (fst ?res) = AUser u \<longrightarrow> us_Username u = ?n)"
    proof (cases "hd (path_parts ''/api/v1/users/'' (hr_Path r)) = ?n")
      case True
      then show ?thesis
        using assms(1,2) act refl self by (simp add: v1HandleUserPath_def currentIdentity_def Let_def user_json_def split: option.split)
    next
      case False
      then show ?thesis using assms(1,2) refl by (simp add: v1HandleUserPath_def currentIdentity_def Let_def)
    qed
    then show ?thesis using assms(4) unfolding h kept_def [symmetric] by simp
  qed
qed

text \<open>
  The login of a user gives a working credential: a request with the token that a successful login returns is
  handled under the identity and role of that user, without administrator rights.
\<close>
theorem api_login_gives_credential:
  assumes "ws_store ws = Some st" and "db_ok st" and "v1HandleLogin e r ws = ((200, ALogin u role tok), effs, ws')"
    and "tok \<noteq> ''''" and "tok \<notin> ak_Key ` set (api_keys_tbl st)" and "request_key r2 = tok"
  shows "apiKeyMiddleware h r2 ws' = h (Some \<lparr>id_Admin = False, id_Username = u, id_Role = role\<rparr>) r2 ws'"
proof -
  obtain usr where v: "usr \<in> set (users_tbl st)" "us_Status usr = ''active''" "tok = us_APIToken usr" "role = us_Role usr" "u = us_Username usr" "ws' = ws"
    using assms(1,3) by (auto simp: v1HandleLogin_def VerifyUserPassword_def GetUser_def db_query_def dest!: find_SomeD
        split: option.splits if_splits prod.splits bool.splits sum.splits)
  have ok: "distinct (map us_APIToken (users_tbl st))" "\<not> fails st q" for q
    using assms(2) by (simp_all add: db_ok_def store_wf_def users_wf_def)
  have "row_at us_APIToken (users_tbl st) tok = Some usr" using user_token.lookup_row [OF ok(1)] v(1,3) by simp
  then have "GetUserByToken st tok = Inr (Some usr)"
    using ok v(2) by (simp add: GetUserByToken_def db_query_def user_token.lookup_and [OF ok(1)])
  moreover have "HasAPIKey st tok = Inr False" using assms(5) ok by (auto simp: HasAPIKey_def db_query_def list_ex_iff)
  ultimately show ?thesis using assms(1,4,6) v by (simp add: apiKeyMiddleware_def Let_def found_def)
qed

text \<open>
  C38: Creating a tunnel through the API works and respects the quota: after a success the caller had access to
  the client, the tunnel is the last one in the list that the client loads when it synchronises, the client's running
  connection is closed so that it does so, and the client has no more enabled tunnels than its limit allows.
\<close>
theorem api_tunnel_creation:
  assumes "ws_store ws = Some st" and "db_ok st" and "hr_Method r = ''POST''"
    and "v1HandleProxies e ctx r ws = ((200, b), effs, ws')"
  shows "\<exists>req st' p ps. ae_proxy e (hr_Body r) = Some req \<and> canAccessClient ctx ws (pq_ClientName req) \<and> ws_store ws' = Some st' \<and>
    ListProxiesByClient st' (pq_ClientName req) = Inr (ps @ [p]) \<and> ListProxiesByClient st (pq_ClientName req) = Inr ps \<and>
    px_Name p = pq_Name req \<and> px_RemotePort p = pq_RemotePort req \<and>
    set (NotifyClientSync (ws_pm ws) (pq_ClientName req)) \<subseteq> set effs \<and>
    (\<forall>c. found (GetClient st (pq_ClientName req)) = Some c \<longrightarrow> 0 < cl_MaxTunnels c \<longrightarrow> int (length (ps @ [p])) \<le> cl_MaxTunnels c)"
proof -
  obtain req where req: "ae_proxy e (hr_Body r) = Some req" "create_tunnel e ctx req st ws = ((200, b), effs, ws')"
    using assms by (auto simp: v1HandleProxies_def split: option.splits)
  note c = create_tunnel_ok [OF assms(2) req(2)]
  have ok: "\<not> fails st q" for q using assms(2) by (simp add: db_ok_def)
  show ?thesis
    using req(1) c
    by (auto simp: ListProxiesByClient_def db_query_def ok new_row_def limit_reached_def Let_def split: option.splits if_splits)
qed

text \<open>
  C39: Any user can become administrator: the key endpoints do not look at the caller's identity, so with an
  ordinary user's token one can create an API key, and every later request with this key is handled as
  administrator.
\<close>
theorem api_user_becomes_admin:
  assumes "ws_store ws = Some st" and "db_ok st" and "u \<in> set (users_tbl st)" and "us_Status u = ''active''" and "us_APIToken u \<noteq> ''''"
    and "request_key r = us_APIToken u" and "us_APIToken u \<notin> ak_Key ` set (api_keys_tbl st)"
    and "hr_Path r = ''/api/v1/api-keys''" and "hr_Method r = ''POST''"
    and "ae_pair e (hr_Body r) = Some (key, note)" and "key \<noteq> ''''" and "key \<notin> ak_Key ` set (api_keys_tbl st)"
  shows "\<exists>ws'. api_serve e r ws = Some ((200, ASuccess), [], ws') \<and>
    (\<forall>h r2. request_key r2 = key \<longrightarrow> apiKeyMiddleware h r2 ws' = h (Some \<lparr>id_Admin = True, id_Username = '''', id_Role = ''admin''\<rparr>) r2 ws')"
proof -
  have ok: "distinct (map us_APIToken (users_tbl st))" "\<not> fails st q" for q
    using assms(2) by (simp_all add: db_ok_def store_wf_def users_wf_def)
  have "GetUserByToken st (us_APIToken u) = Inr (Some u)"
    using ok assms(3,4) user_token.lookup_row [OF ok(1), of "us_APIToken u" u]
    by (simp add: GetUserByToken_def db_query_def user_token.lookup_and [OF ok(1)])
  moreover have "HasAPIKey st (us_APIToken u) = Inr False"
    using assms(7) ok by (auto simp: HasAPIKey_def db_query_def list_ex_iff rev_image_eqI)
  moreover have "\<not> list_ex (\<lambda>k. key = ak_Key k) (api_keys_tbl st)" using assms(12) by (auto simp: list_ex_iff)
  ultimately show ?thesis
    using assms
    by (auto simp: api_serve_def api_route_def apiKeyMiddleware_def found_def v1HandleAPIKeys_def AddAPIKey_def sql_insert_def db_exec_def ok
        put_store_def HasAPIKey_def db_query_def Let_def)
qed

text \<open>
  C40: Tunnels of other owners are not protected: the tunnel endpoints check only the oldest tunnel of the given
  name, so a user who has the oldest one deletes, with it, the tunnels of that name of all other clients.
\<close>
theorem api_tunnel_delete_crosses_owners:
  assumes "ws_store ws = Some st" and "db_ok st" and "\<not> id_Admin ident" and "path_parts ''/api/v1/proxies/'' (hr_Path r) = [nm]"
    and "nm \<noteq> ''''" and "nm \<noteq> ''close''" and "hr_Method r = ''DELETE''"
    and "find (\<lambda>p. px_Name p = nm) (proxies_tbl st) = Some p" and "canAccessClient (Some ident) ws (px_ClientName p)"
    and "q \<in> set (proxies_tbl st)" and "px_Name q = nm" and "\<not> canAccessClient (Some ident) ws (px_ClientName q)"
  shows "\<exists>effs ws' st'. v1HandleProxyPath e (Some ident) r ws = ((200, ASuccess), effs, ws') \<and> ws_store ws' = Some st' \<and>
    q \<notin> set (proxies_tbl st') \<and> nm \<notin> px_Name ` set (proxies_tbl st')"
proof -
  have ok: "\<not> fails st q" for q using assms(2) by (simp add: db_ok_def)
  have g: "found (GetProxy st nm) = Some p" using assms(8) by (simp add: found_def GetProxy_def db_query_def ok)
  have "affected (\<lambda>p. px_Name p = nm) (proxies_tbl st) > 0" using assms(10,11) by (auto simp: affected_def filter_empty_conv)
  then have d: "DeleteProxy st nm = (Inr True, st\<lparr>proxies_tbl := sql_delete (\<lambda>p. px_Name p = nm) (proxies_tbl st)\<rparr>)" (is "_ = (_, ?st)")
    by (simp add: DeleteProxy_def db_exec_def ok)
  obtain effs ws1 where c: "close_and_notify True nm (px_ClientName p) (put_store ?st ws) = (effs, ws1)" by fastforce
  have "ws_store ws1 = Some ?st" using c by (auto simp: close_and_notify_def put_store_def Let_def case_prod_unfold)
  moreover have "v1HandleProxyPath e (Some ident) r ws = ((200, ASuccess), effs @ [Webhook ''proxy_deleted'' nm], ws1)"
    using assms g d c by (simp add: v1HandleProxyPath_def delete_tunnel_def Let_def)
  ultimately show ?thesis using assms(11) by (auto simp: sql_delete_def)
qed

section \<open>Instances\<close>

text \<open>Two clients of different owners, each with a tunnel of the same name, and the user \<^verbatim>\<open>bob\<close>.\<close>

definition demo_row :: "nat \<Rightarrow> string \<Rightarrow> string \<Rightarrow> string \<Rightarrow> StoreClient" where
  "demo_row i nm token owner = \<lparr>cl_ID = i, cl_Name = nm, cl_Token = token, cl_MaxTunnels = 2, cl_MaxTrafficBytes = 0, cl_BytesIn = 0, cl_BytesOut = 0,
     cl_Status = ''active'', cl_Owner = owner, cl_CreatedAt = '''', cl_UpdatedAt = ''''\<rparr>"

definition demo_tunnel :: "nat \<Rightarrow> string \<Rightarrow> StoreProxy" where
  "demo_tunnel i client = \<lparr>px_ID = i, px_Name = ''web'', px_Type = ''tcp'', px_RemotePort = 8000, px_LocalAddr = ''127.0.0.1'', px_LocalPort = 80,
     px_ClientName = client, px_Enabled = True, px_CreatedAt = ''''\<rparr>"

definition demo_account :: User where
  "demo_account = \<lparr>us_ID = 1, us_Username = ''bob'', us_PasswordHash = hashPassword ''pw'' ''s'', us_PasswordSalt = ''s'', us_Role = ''user'',
     us_APIToken = ''bt'', us_Status = ''active'', us_CreatedAt = '''', us_UpdatedAt = ''''\<rparr>"

definition demo_db :: Store where
  "demo_db = \<lparr>clients_tbl = [demo_row 1 ''edge'' ''t1'' ''bob'', demo_row 2 ''other'' ''t2'' ''eve''], clients_seq = 2, users_tbl = [demo_account], users_seq = 1,
     api_keys_tbl = [], settings_tbl = [], proxies_tbl = [demo_tunnel 1 ''edge'', demo_tunnel 2 ''other''], proxies_seq = 2, fails = (\<lambda>_. False)\<rparr>"

definition demo_site :: WebServer where
  "demo_site = demo_panel\<lparr>ws_apiKeys := None,
     ws_pm := fresh_server DefaultServerConfig NewConnGuard (Some (index_of_rows (clients_tbl demo_db))) (Some demo_db)\<rparr>"

definition demo_bob :: apiIdentity where
  "demo_bob = \<lparr>id_Admin = False, id_Username = ''bob'', id_Role = ''user''\<rparr>"

definition demo_call :: "string \<Rightarrow> string \<Rightarrow> string \<Rightarrow> http_req" where
  "demo_call key meth path = (demo_http meth path)\<lparr>hr_Header := (\<lambda>h. if h = ''X-API-Key'' then key else '''')\<rparr>"

definition demo_api :: api_env where
  "demo_api = \<lparr>ae_now = '''', ae_rnd1 = None, ae_rnd2 = None, ae_client = (\<lambda>_. Some (''new'', ''t3'', 1, 0)), ae_text = (\<lambda>_. Some ''web''),
     ae_pair = (\<lambda>b. if b = [] then Some (''bob'', ''pw'') else Some (''mykey'', '''')),
     ae_proxy = (\<lambda>_. Some \<lparr>pq_Name = ''ssh'', pq_Type = '''', pq_RemotePort = 2222, pq_LocalAddr = '''', pq_LocalPort = 22, pq_ClientName = ''edge''\<rparr>),
     ae_patch = Map.empty, ae_user = Map.empty\<rparr>"

lemma demo_bob_plain: "\<not> id_Admin demo_bob"
  by (simp add: demo_bob_def)

lemma demo_site_store [simp]: "ws_store demo_site = Some demo_db" "ws_apiKeys demo_site = None"
  by (simp_all add: demo_site_def fresh_server_def)

lemma demo_call_simps [simp]:
  "hr_Method (demo_call k m p) = m" "hr_Path (demo_call k m p) = p" "k \<noteq> '''' \<Longrightarrow> request_key (demo_call k m p) = k" "hr_Body (demo_call k m p) = []"
  by (simp_all add: demo_call_def demo_http_def request_key_def)

lemma demo_db_ok [simp]: "db_ok demo_db"
  by (simp add: demo_db_def demo_row_def demo_tunnel_def demo_account_def db_ok_def store_wf_def clients_wf_def users_wf_def proxies_wf_def ids_wf_def)

lemma demo_db_wf [simp]: "store_wf demo_db"
  using demo_db_ok by (simp add: db_ok_def)

lemma demo_site_synced: "synced (ws_pm demo_site)"
proof -
  have "clients_wf (clients_tbl demo_db) (clients_seq demo_db)" using demo_db_wf by (simp add: store_wf_def)
  then show ?thesis
    using managed_wf_rows [of "clients_tbl demo_db"]
    by (auto simp: synced_def demo_site_def fresh_server_def managed_list_def index_of_rows_map clients_wf_def mem_table_rows db_table_def)
qed

theorem api_needs_credential_witness:
  "\<exists>resp effs ws'. api_serve demo_api (demo_call ''guess'' ''DELETE'' ''/api/v1/clients/edge'') demo_site = Some (resp, effs, ws') \<and>
     fst resp = 401 \<and> ws' = demo_site"
proof -
  let ?r = "demo_call ''guess'' ''DELETE'' ''/api/v1/clients/edge''"
  obtain resp effs ws' where s: "api_serve demo_api ?r demo_site = Some (resp, effs, ws')"
    by (cases "apiKeyMiddleware v1HandleClientPath ?r demo_site") (simp add: api_serve_def api_route_def)
  have "fst resp = 401 \<and> effs = [] \<and> ws' = demo_site"
    by (rule api_needs_credential [OF s]) (simp_all add: has_credential_def demo_db_def demo_account_def)
  with s show ?thesis by blast
qed

theorem api_clients_isolated_witness:
  "\<exists>resp effs ws'. v1HandleClientPath (Some demo_bob) (demo_call ''bt'' ''DELETE'' ''/api/v1/clients/edge'') demo_site = (resp, effs, ws') \<and>
     foreign ''bob'' ws' = [demo_row 2 ''other'' ''t2'' ''eve''] \<and> tenants_of (ws_pm ws') ''t2'' = Some ''other''"
proof -
  let ?r = "demo_call ''bt'' ''DELETE'' ''/api/v1/clients/edge''"
  obtain resp effs ws' where h: "v1HandleClientPath (Some demo_bob) ?r demo_site = (resp, effs, ws')" by (metis prod_cases3)
  have c: "confined ''bob'' demo_site effs ws'"
    using api_clients_isolated [where h = v1HandleClientPath and ident = demo_bob, OF demo_site_synced _ _ h] by (simp add: demo_bob_def)
  have "\<not> owns demo_site ''bob'' ''other''" "foreign ''bob'' demo_site = [demo_row 2 ''other'' ''t2'' ''eve'']"
    by (simp_all add: owns_def foreign_def) (simp_all add: demo_db_def demo_row_def)
  moreover have "tenants_of (ws_pm demo_site) ''t2'' = Some ''other''"
    by (simp add: tenants_of_def demo_site_def fresh_server_def managed_list_def demo_db_def demo_row_def index_of_rows_def managed_of_row_def mem_table_def)
  ultimately show ?thesis using h c by (auto simp: confined_def)
qed

theorem api_keeps_tables_valid_witness:
  "\<exists>st'. ws_store (foldl api_request demo_site [(demo_api, demo_call ''bt'' ''POST'' ''/api/v1/proxies'')]) = Some st' \<and> store_wf st' \<and> tunnels_valid st'"
  by (rule api_keeps_tables_valid [OF demo_site_store(1) demo_db_wf]) (simp add: tunnels_valid_def valid_tunnel_def demo_db_def demo_tunnel_def)

theorem api_users_isolated_witness:
  "\<exists>resp effs ws' (st' :: Store). v1HandleUserPath demo_api (Some demo_bob) (demo_call ''bt'' ''POST'' ''/api/v1/users/bob/reset-token'') demo_site = (resp, effs, ws') \<and>
     ws_store ws' = Some st' \<and> map us_Role (users_tbl st') = [''user'']"
proof -
  let ?r = "demo_call ''bt'' ''POST'' ''/api/v1/users/bob/reset-token''"
  obtain resp effs ws' where h: "v1HandleUserPath demo_api (Some demo_bob) ?r demo_site = (resp, effs, ws')" by (metis prod_cases3)
  have "\<exists>st'. ws_store ws' = Some st' \<and> map (\<lambda>u. (us_Username u, us_Role u, us_Status u)) (users_tbl st') =
      map (\<lambda>u. (us_Username u, us_Role u, us_Status u)) (users_tbl demo_db)"
    using api_users_isolated [where h = "v1HandleUserPath demo_api" and ident = demo_bob and e = demo_api, OF demo_site_store(1) demo_bob_plain insertI2 h] by blast
  then obtain st' where st': "ws_store ws' = Some st'" "map (\<lambda>u. (us_Username u, us_Role u, us_Status u)) (users_tbl st') =
      map (\<lambda>u. (us_Username u, us_Role u, us_Status u)) (users_tbl demo_db)" by blast
  have "map us_Role (users_tbl st') = map (fst \<circ> snd) (map (\<lambda>u. (us_Username u, us_Role u, us_Status u)) (users_tbl st'))" by simp
  also have "\<dots> = [''user'']" unfolding st' by (simp add: demo_db_def demo_account_def)
  finally show ?thesis using h st'(1) by (intro exI conjI)
qed

theorem api_login_gives_credential_witness:
  "\<exists>effs ws'. v1HandleLogin demo_api (demo_call '''' ''POST'' ''/api/v1/login'') demo_site = ((200, ALogin ''bob'' ''user'' ''bt''), effs, ws') \<and>
     apiKeyMiddleware v1HandleClientPath (demo_call ''bt'' ''GET'' ''/api/v1/clients/edge'') ws' =
       v1HandleClientPath (Some demo_bob) (demo_call ''bt'' ''GET'' ''/api/v1/clients/edge'') ws'"
proof -
  let ?r = "demo_call '''' ''POST'' ''/api/v1/login''"
  have l: "v1HandleLogin demo_api ?r demo_site = ((200, ALogin ''bob'' ''user'' ''bt''), [], demo_site)"
    by (simp add: v1HandleLogin_def demo_api_def VerifyUserPassword_def GetUser_def db_query_def) (simp add: demo_db_def demo_account_def)
  show ?thesis
    using l api_login_gives_credential [OF demo_site_store(1) demo_db_ok l, of "demo_call ''bt'' ''GET'' ''/api/v1/clients/edge''" v1HandleClientPath]
    by (simp add: demo_bob_def) (simp add: demo_db_def)
qed

lemma demo_access: "canAccessClient (Some demo_bob) demo_site ''edge''" "\<not> canAccessClient (Some demo_bob) demo_site ''other''"
  by (simp_all add: canAccessClient_def currentIdentity_def demo_bob_def found_def GetClient_def db_query_def)
    (simp_all add: demo_db_def demo_row_def)

theorem api_tunnel_creation_witness:
  "\<exists>effs ws' st'. v1HandleProxies demo_api (Some demo_bob) (demo_call ''bt'' ''POST'' ''/api/v1/proxies'') demo_site = ((200, ASuccess), effs, ws') \<and>
     ws_store ws' = Some st' \<and> map_sum id (map px_Name) (ListProxiesByClient st' ''edge'') = Inr [''web'', ''ssh'']"
proof -
  let ?r = "demo_call ''bt'' ''POST'' ''/api/v1/proxies''"
  have lim: "limit_reached demo_db ''edge'' = None"
    by (simp add: limit_reached_def found_def GetClient_def ListProxiesByClient_def db_query_def demo_db_def demo_row_def demo_tunnel_def)
  let ?p = "\<lparr>px_ID = 0, px_Name = ''ssh'', px_Type = ''tcp'', px_RemotePort = 2222, px_LocalAddr = ''127.0.0.1'', px_LocalPort = 22,
     px_ClientName = ''edge'', px_Enabled = True, px_CreatedAt = ''''\<rparr>"
  obtain st1 where "CreateProxy demo_db '''' ?p = (Inr 3, st1)"
    by (simp add: CreateProxy_def db_exec_def sql_insert_def proxy_clash_def demo_db_def demo_tunnel_def)
  then obtain effs ws' where h: "v1HandleProxies demo_api (Some demo_bob) ?r demo_site = ((200, ASuccess), effs, ws')"
    using demo_access(1) lim by (simp add: v1HandleProxies_def create_tunnel_def demo_api_def Let_def)
  obtain req st' p ps where c: "ae_proxy demo_api (hr_Body ?r) = Some req" "ws_store ws' = Some st'"
      "ListProxiesByClient st' (pq_ClientName req) = Inr (ps @ [p])" "ListProxiesByClient demo_db (pq_ClientName req) = Inr ps" "px_Name p = pq_Name req"
    using api_tunnel_creation [OF demo_site_store(1) demo_db_ok _ h] by auto
  have "pq_ClientName req = ''edge''" "pq_Name req = ''ssh''" using c(1) by (auto simp: demo_api_def)
  then have "map_sum id (map px_Name) (ListProxiesByClient st' ''edge'') = Inr [''web'', ''ssh'']"
    using c(3-5) by (auto simp: ListProxiesByClient_def db_query_def demo_db_def demo_tunnel_def)
  then show ?thesis using h c(2) by blast
qed

theorem api_user_becomes_admin_witness:
  "\<exists>ws'. api_serve demo_api ((demo_call ''bt'' ''POST'' ''/api/v1/api-keys'')\<lparr>hr_Body := [1]\<rparr>) demo_site = Some ((200, ASuccess), [], ws') \<and>
     apiKeyMiddleware (v1HandleUsers demo_api) (demo_call ''mykey'' ''GET'' ''/api/v1/users'') ws' =
       v1HandleUsers demo_api (Some \<lparr>id_Admin = True, id_Username = '''', id_Role = ''admin''\<rparr>) (demo_call ''mykey'' ''GET'' ''/api/v1/users'') ws'"
proof -
  let ?r = "(demo_call ''bt'' ''POST'' ''/api/v1/api-keys'')\<lparr>hr_Body := [1]\<rparr>"
  have "\<exists>ws'. api_serve demo_api ?r demo_site = Some ((200, ASuccess), [], ws') \<and>
    (\<forall>h r2. request_key r2 = ''mykey'' \<longrightarrow> apiKeyMiddleware h r2 ws' = h (Some \<lparr>id_Admin = True, id_Username = '''', id_Role = ''admin''\<rparr>) r2 ws')"
  proof (rule api_user_becomes_admin [OF demo_site_store(1) demo_db_ok])
    show "demo_account \<in> set (users_tbl demo_db)" "us_APIToken demo_account \<notin> ak_Key ` set (api_keys_tbl demo_db)" "''mykey'' \<notin> ak_Key ` set (api_keys_tbl demo_db)"
      by (simp_all add: demo_db_def)
    show "us_Status demo_account = ''active''" "us_APIToken demo_account \<noteq> ''''" by (simp_all add: demo_account_def)
    show "request_key ?r = us_APIToken demo_account" by (simp add: demo_account_def request_key_def demo_call_def)
    show "ae_pair demo_api (hr_Body ?r) = Some (''mykey'', '''')" by (simp add: demo_api_def)
  qed simp_all
  then obtain ws' where w: "api_serve demo_api ?r demo_site = Some ((200, ASuccess), [], ws')"
    "\<forall>h r2. request_key r2 = ''mykey'' \<longrightarrow> apiKeyMiddleware h r2 ws' = h (Some \<lparr>id_Admin = True, id_Username = '''', id_Role = ''admin''\<rparr>) r2 ws'"
    by blast
  have "request_key (demo_call ''mykey'' ''GET'' ''/api/v1/users'') = ''mykey''" by simp
  with w show ?thesis by blast
qed

theorem api_tunnel_delete_crosses_owners_witness:
  "\<exists>effs ws' st'. v1HandleProxyPath demo_api (Some demo_bob) (demo_call ''bt'' ''DELETE'' ''/api/v1/proxies/web'') demo_site = ((200, ASuccess), effs, ws') \<and>
     ws_store ws' = Some st' \<and> demo_tunnel 2 ''other'' \<notin> set (proxies_tbl st')"
proof -
  let ?r = "demo_call ''bt'' ''DELETE'' ''/api/v1/proxies/web''"
  have "\<exists>effs ws' st'. v1HandleProxyPath demo_api (Some demo_bob) ?r demo_site = ((200, ASuccess), effs, ws') \<and> ws_store ws' = Some st' \<and>
    demo_tunnel 2 ''other'' \<notin> set (proxies_tbl st') \<and> ''web'' \<notin> px_Name ` set (proxies_tbl st')"
  proof (rule api_tunnel_delete_crosses_owners [OF demo_site_store(1) demo_db_ok])
    show "path_parts ''/api/v1/proxies/'' (hr_Path ?r) = [''web'']" by (simp add: path_parts_def trim_prefix_def trim_slashes_def)
    show "find (\<lambda>p. px_Name p = ''web'') (proxies_tbl demo_db) = Some (demo_tunnel 1 ''edge'')" "px_Name (demo_tunnel 2 ''other'') = ''web''"
      by (simp_all add: demo_db_def demo_tunnel_def)
    show "canAccessClient (Some demo_bob) demo_site (px_ClientName (demo_tunnel 1 ''edge''))"
      "\<not> canAccessClient (Some demo_bob) demo_site (px_ClientName (demo_tunnel 2 ''other''))"
      using demo_access by (simp_all add: demo_tunnel_def)
    show "demo_tunnel 2 ''other'' \<in> set (proxies_tbl demo_db)" by (simp add: demo_db_def)
  qed (simp_all add: demo_bob_def)
  then show ?thesis by blast
qed

end
