(* ===== verification/Startup.thy ===== *)
theory Startup
  imports WebApi Client
begin

text \<open>
  Model of \<^verbatim>\<open>main\<close> in \<^verbatim>\<open>cmd/server/main.go\<close>: how the server is put together from its configuration, its database
  and the panel's settings file. Everything the process reads from outside is a field of \<open>start_env\<close>: the
  configuration file and its YAML decoder, environment variables, the database and settings files by path, the
  clock, random bytes, and whether listening and loading the certificate succeed. A \<^verbatim>\<open>log.Fatalf\<close> is \<open>Fatal\<close>.
  The accept loop that follows is the step relation of \<open>Server\<close>.
\<close>

section \<open>File names\<close>

text \<open>\<^verbatim>\<open>filepath.Clean\<close>, \<^verbatim>\<open>Dir\<close> and \<^verbatim>\<open>Join\<close> for slash-separated paths.\<close>

fun clean_parts :: "bool \<Rightarrow> string list \<Rightarrow> string list \<Rightarrow> string list" where
  "clean_parts rooted acc [] = rev acc"
| "clean_parts rooted acc (c # cs) =
     clean_parts rooted
       (if c = '''' \<or> c = ''.'' then acc
        else if c = ''..'' then
          (case acc of
             [] \<Rightarrow> if rooted then [] else [''..'']
           | a # as \<Rightarrow> if a = ''..'' then ''..'' # acc else as)
        else c # acc) cs"

fun join_slash :: "string list \<Rightarrow> string" where
  "join_slash [] = ''''"
| "join_slash [s] = s"
| "join_slash (s # t # ts) = s @ ''/'' @ join_slash (t # ts)"

definition filepath_Clean :: "string \<Rightarrow> string" where
  "filepath_Clean p =
     (let rooted = has_prefix p ''/''; s = join_slash (clean_parts rooted [] (split_slash p))
      in if rooted then ''/'' @ s else if s = '''' then ''.'' else s)"

definition filepath_Dir :: "string \<Rightarrow> string" where
  "filepath_Dir p = filepath_Clean (rev (dropWhile (\<lambda>c. c \<noteq> CHR ''/'') (rev p)))"

definition filepath_Join :: "string \<Rightarrow> string \<Rightarrow> string" where
  "filepath_Join d f =
     (case filter (\<lambda>s. s \<noteq> '''') [d, f] of [] \<Rightarrow> '''' | parts \<Rightarrow> filepath_Clean (join_slash parts))"

text \<open>A file beside the configuration file.\<close>

definition beside :: "string \<Rightarrow> string \<Rightarrow> string" where
  "beside configFile nm =
     (if configFile \<noteq> '''' \<and> filepath_Dir configFile \<noteq> ''.'' \<and> filepath_Dir configFile \<noteq> ''''
      then filepath_Join (filepath_Dir configFile) nm else nm)"

section \<open>Start-up\<close>

record start_env =
  st_configFile :: string
  st_genToken :: bool
  st_nano :: "nat \<Rightarrow> int"
  st_config :: "bytes option"
  st_yaml :: "bytes \<Rightarrow> ServerConfig option"
  st_getenv :: "string \<Rightarrow> string"
  st_db :: "string \<Rightarrow> disk"
  st_fails :: "db_op \<Rightarrow> bool"
  st_now :: string
  st_time :: int
  st_settings :: "string \<Rightarrow> bytes option"
  st_json :: "bytes \<Rightarrow> WebSettings \<Rightarrow> WebSettings"
  st_rnd :: bytes
  st_static_ok :: bool                           \<comment> \<open>\<^verbatim>\<open>fs.Sub\<close> on the embedded files\<close>
  st_listen_ok :: bool
  st_cert_ok :: bool

datatype fatal = BadConfig cfg_err | BadWhitelist string | NoStore string db_err | NoListener | BadCert

record running =
  rn_cfg :: ServerConfig
  rn_server :: Server
  rn_panel :: "WebServer option"                 \<comment> \<open>its \<open>ws_pm\<close> is the server\<close>
  rn_panel_addr :: "(string \<times> bool) option"      \<comment> \<open>where the panel listens, and whether with TLS\<close>
  rn_addr :: string
  rn_tls :: bool

datatype main_result = PrintedToken string | Fatal fatal | Running running

definition mustConnGuard :: "string list \<Rightarrow> fatal + ConnGuard" where
  "mustConnGuard wl = (case NewConnGuardWithWhitelist wl of Inl e \<Rightarrow> Inl (BadWhitelist e) | Inr g \<Rightarrow> Inr g)"

definition db_path :: "string \<Rightarrow> ServerConfig \<Rightarrow> string" where
  "db_path configFile cfg = (if sc_DBPath cfg = '''' then beside configFile ''nexuslink.db'' else sc_DBPath cfg)"

text \<open>\<^verbatim>\<open>TrustProxy\<close> is not set, so it is false.\<close>

definition web_config :: "string \<Rightarrow> ServerConfig \<Rightarrow> WebConfig" where
  "web_config configFile cfg =
     \<lparr>wc_Addr = sc_WebAddr cfg, wc_Port = sc_WebPort cfg, wc_AdminPassword = sc_WebPassword cfg, wc_TrustProxy = False,
      wc_SettingsFile = beside configFile ''web_settings.json'', wc_CertFile = sc_WebTLSCert cfg, wc_KeyFile = sc_WebTLSKey cfg,
      wc_APIKeys = sc_APIKeys cfg, wc_WebhookURL = sc_WebhookURL cfg\<rparr>"

definition addLog :: "int \<Rightarrow> string \<Rightarrow> WebServer option \<Rightarrow> WebServer option" where
  "addLog now msg panel = map_option (AddLog now ''info'' msg) panel"

definition addLogWarn :: "int \<Rightarrow> string \<Rightarrow> WebServer option \<Rightarrow> WebServer option" where
  "addLogWarn now msg panel = map_option (AddLog now ''warn'' msg) panel"

definition addLogError :: "int \<Rightarrow> string \<Rightarrow> WebServer option \<Rightarrow> WebServer option" where
  "addLogError now msg panel = map_option (AddLog now ''error'' msg) panel"

text \<open>When \<^verbatim>\<open>Start\<close> fails the panel object stays, but it does not listen.\<close>

definition start_panel :: "start_env \<Rightarrow> ServerConfig \<Rightarrow> Server \<Rightarrow> WebServer option \<times> (string \<times> bool) option" where
  "start_panel e cfg s =
     (if sc_WebEnable cfg \<or> sc_WebPassword cfg \<noteq> '''' then
        let wcfg = web_config (st_configFile e) cfg;
            ws = NewWebServer (st_json e) (st_settings e (wc_SettingsFile wcfg)) (st_rnd e) wcfg s
        in if \<not> st_static_ok e then (Some ws, None)
           else (case Start (st_time e) ws of (addr, tls, ws1) \<Rightarrow> (Some ws1, Some (addr, tls)))
      else (None, None))"

definition server_main :: "start_env \<Rightarrow> main_result" where
  "server_main e =
     (if st_genToken e then PrintedToken (GenerateToken (st_nano e))
      else
        case LoadServerConfig (st_yaml e) (st_getenv e) (st_config e) of
          Inl err \<Rightarrow> Fatal (BadConfig err)
        | Inr cfg \<Rightarrow>
            (case mustConnGuard (sc_Whitelist cfg) of
               Inl err \<Rightarrow> Fatal err
             | Inr g \<Rightarrow>
                 (case Open (st_fails e) (st_db e (db_path (st_configFile e) cfg)) of
                    Inl err \<Rightarrow> Fatal (NoStore (db_path (st_configFile e) cfg) err)
                  | Inr st \<Rightarrow>
                      let s = start_server (st_now e) cfg g st;
                          (panel, paddr) = start_panel e cfg s;
                          panel1 = addLog (st_time e) (''NexusLink Server '' @ Version @ '' '' @ uni [0x542f, 0x52a8]) panel;
                          panel2 = addLog (st_time e) (uni [0x76d1, 0x542c, 0x5730, 0x5740] @ '': '' @ sc_BindAddr cfg @ '':'' @ fmt_d (sc_BindPort cfg)) panel1;
                          tls = (sc_BindTLSCert cfg \<noteq> '''' \<and> sc_BindTLSKey cfg \<noteq> '''')
                      in if \<not> st_listen_ok e then Fatal NoListener
                         else if tls \<and> \<not> st_cert_ok e then Fatal BadCert
                         else Running \<lparr>rn_cfg = cfg, rn_server = s, rn_panel = panel2, rn_panel_addr = paddr,
                                       rn_addr = sc_BindAddr cfg @ '':'' @ fmt_d (sc_BindPort cfg), rn_tls = tls\<rparr>)))"

section \<open>What start-up establishes\<close>

text \<open>Panels that differ only in their log.\<close>

definition panel_alike :: "WebServer \<Rightarrow> WebServer \<Rightarrow> bool" where
  "panel_alike ws ws' \<longleftrightarrow> ws_pm ws' = ws_pm ws \<and> ws_failedLogins ws' = ws_failedLogins ws \<and> ws_config ws' = ws_config ws \<and>
     ws_passwordHash ws' = ws_passwordHash ws \<and> ws_passwordSalt ws' = ws_passwordSalt ws \<and> ws_security ws' = ws_security ws"


text \<open>Seeding: every configured key is in the table, and no configured client is lost unless its token is taken.\<close>

lemma AddAPIKey_rows:
  "ak_Key ` set (api_keys_tbl st) \<subseteq> ak_Key ` set (api_keys_tbl (snd (AddAPIKey st now k note)))"
  by (auto simp: AddAPIKey_def db_exec_snd sql_insert_def)

lemma seed_keys_mono: "ak_Key ` set (api_keys_tbl st) \<subseteq> ak_Key ` set (api_keys_tbl (seed_keys now ks st))"
proof (induction ks arbitrary: st)
  case (Cons k ks)
  show ?case using Cons.IH AddAPIKey_rows by (fastforce split: sum.split bool.split)
qed simp

lemma seed_keys_all:
  assumes "db_ok st" "k \<in> set ks" "k \<noteq> ''''" shows "k \<in> ak_Key ` set (api_keys_tbl (seed_keys now ks st))"
  using assms
proof (induction ks arbitrary: st)
  case (Cons x ks)
  define st1 where "st1 = (if x = '''' then st else case HasAPIKey st x of Inr True \<Rightarrow> st | _ \<Rightarrow> snd (AddAPIKey st now x ''config seed''))"
  have s: "seed_keys now (x # ks) st = seed_keys now ks st1" by (simp add: st1_def)
  have ok: "db_ok st1" using seed_keys_ok [OF Cons.prems(1), of now "[x]"] by (simp add: st1_def)
  show ?case
  proof (cases "k = x")
    case True
    then have "k \<in> ak_Key ` set (api_keys_tbl st1)"
      using Cons.prems(1,3) by (auto simp: st1_def HasAPIKey_def AddAPIKey_def db_query_def db_exec_snd db_ok_def sql_insert_def list_ex_iff image_iff split: bool.split)
    then show ?thesis unfolding s using seed_keys_mono by blast
  qed (use Cons ok s in auto)
qed simp

text \<open>The clients that a database file holds, and those that it holds after the entries of a configuration have been offered to it.\<close>

definition disk_clients :: "disk \<Rightarrow> tenants" where
  "disk_clients d token =
     (case dk_clients d of None \<Rightarrow> None | Some (hasOwner, rows, sq) \<Rightarrow> map_option cl_Name (row_at cl_Token rows token))"

definition seeded :: "ManagedClient list \<Rightarrow> tenants \<Rightarrow> tenants" where
  "seeded cs T = foldl (\<lambda>T c. spec_add (mc_Name c) (mc_Token c) T) T cs"

lemma seed_clients_table: "db_ok st \<Longrightarrow> db_table (seed_clients now cs st) = seeded cs (db_table st)"
proof (induction cs arbitrary: st)
  case (Cons c cs)
  define st1 where "st1 = seed_clients now [c] st"
  have ok: "db_ok st1" using seed_clients_ok(1) [OF Cons.prems] by (simp add: st1_def del: seed_clients.simps)
  have "db_table st1 = spec_add (mc_Name c) (mc_Token c) (db_table st)"
  proof (cases "mc_Name c = '''' \<or> mc_Token c = ''''")
    case True
    then show ?thesis by (auto simp: st1_def spec_add_def)
  next
    case False
    note added = db.table_add [OF Cons.prems, of "mc_Name c" "mc_Token c" "(now, mc_MaxTunnels c, mc_MaxTrafficBytes c, '''')"]
    show ?thesis
    proof (cases "find (\<lambda>r. cl_Name r = mc_Name c) (clients_tbl st)")
      case None
      then show ?thesis using False added Cons.prems
        by (simp add: st1_def GetClient_def db_query_def db_ok_def AddClient_def db_add_def)
    next
      case (Some row)
      have w: "store_wf st" using Cons.prems by (simp add: db_ok_def)
      have "mc_Name c \<in> ran (db_table st)"
        using find_SomeD [OF Some] db_table_Some [OF w, of "cl_Token row" "mc_Name c"] by (auto simp: ran_def)
      then show ?thesis using Some Cons.prems
        by (simp add: st1_def GetClient_def db_query_def db_ok_def spec_add_def)
    qed
  qed
  moreover have "seed_clients now (c # cs) st = seed_clients now cs st1" by (simp add: st1_def)
  ultimately show ?case using Cons.IH [OF ok] by (simp add: seeded_def del: seed_clients.simps)
qed (simp add: seeded_def)

lemma seeded_keeps: "T token = Some nm \<Longrightarrow> seeded cs T token = Some nm"
proof (induction cs arbitrary: T)
  case (Cons c cs)
  then have "spec_add (mc_Name c) (mc_Token c) T token = Some nm" by (auto simp: spec_add_def)
  with Cons.IH show ?case by (simp add: seeded_def)
qed (simp add: seeded_def)

definition same_or_apart :: "string \<Rightarrow> string \<Rightarrow> string \<Rightarrow> string \<Rightarrow> bool" where
  "same_or_apart nm token nm' token' \<longleftrightarrow> (nm = nm' \<longleftrightarrow> token = token')"

lemma seeded_admits:
  assumes "c \<in> set cs" "mc_Name c \<noteq> ''''" "mc_Token c \<noteq> ''''"
    and "\<forall>d \<in> set cs. same_or_apart (mc_Name c) (mc_Token c) (mc_Name d) (mc_Token d)"
    and "\<forall>token nm. T token = Some nm \<longrightarrow> same_or_apart (mc_Name c) (mc_Token c) nm token"
  shows "seeded cs T (mc_Token c) = Some (mc_Name c)"
  using assms
proof (induction cs arbitrary: T)
  case (Cons d cs)
  define T1 where "T1 = spec_add (mc_Name d) (mc_Token d) T"
  have apart: "\<forall>token nm. T1 token = Some nm \<longrightarrow> same_or_apart (mc_Name c) (mc_Token c) nm token"
    using Cons.prems(4,5) by (auto simp: T1_def spec_add_def)
  show ?case
  proof (cases "c = d")
    case True
    have "T1 (mc_Token c) = Some (mc_Name c)"
      using Cons.prems(2,3,5) True by (auto simp: T1_def spec_add_def same_or_apart_def ran_def dom_def)
    then show ?thesis using seeded_keeps by (simp add: seeded_def T1_def [symmetric])
  next
    case False
    then have "seeded cs T1 (mc_Token c) = Some (mc_Name c)" using Cons.IH [OF _ Cons.prems(2,3) _ apart] Cons.prems(1,4) by simp
    then show ?thesis by (simp add: seeded_def T1_def)
  qed
qed simp

lemma server_main_Running:
  assumes "server_main e = Running r"
  obtains g st where "LoadServerConfig (st_yaml e) (st_getenv e) (st_config e) = Inr (rn_cfg r)"
    "Open (st_fails e) (st_db e (db_path (st_configFile e) (rn_cfg r))) = Inr st" "rn_server r = start_server (st_now e) (rn_cfg r) g st"
    "rn_panel r = addLog (st_time e) (uni [0x76d1, 0x542c, 0x5730, 0x5740] @ '': '' @ sc_BindAddr (rn_cfg r) @ '':'' @ fmt_d (sc_BindPort (rn_cfg r)))
       (addLog (st_time e) (''NexusLink Server '' @ Version @ '' '' @ uni [0x542f, 0x52a8]) (fst (start_panel e (rn_cfg r) (rn_server r))))"
  using assms that by (auto simp: server_main_def Let_def case_prod_unfold split: if_splits sum.splits)

lemma LoadServerConfig_password: "LoadServerConfig yaml env file = Inr cfg \<Longrightarrow> sc_WebPassword cfg \<noteq> ''''"
  by (auto simp: LoadServerConfig_def Let_def split: option.splits if_splits)

lemma Open_ok:
  assumes "disk_wf d" "\<forall>q. \<not> flt q" "Open flt d = Inr st" shows "db_ok st"
proof -
  have "fails st = flt" using assms(3) by (auto simp: Open_def initSchema_def Let_def split: if_splits prod.splits)
  then show ?thesis using store_wf_Open [OF assms(1,3)] assms(2) by (simp add: db_ok_def)
qed

lemma Open_clients:
  assumes "Open flt d = Inr st" shows "db_table st = disk_clients d"
proof
  fix token
  have m: "map_option cl_Name (row_at cl_Token (map (\<lambda>r. r\<lparr>cl_Owner := ''''\<rparr>) rows) token) = map_option cl_Name (row_at cl_Token rows token)" for rows
    by (induction rows) auto
  have "clients_tbl st = (case dk_clients d of None \<Rightarrow> [] | Some t \<Rightarrow> fst (migrate t))"
    using assms by (auto simp: Open_def initSchema_def if_not_exists_def migrate_def Let_def split: option.splits if_splits prod.splits)
  then show "db_table st token = disk_clients d token"
    by (simp add: db_table_def disk_clients_def migrate_def m split: option.split prod.split)
qed

section \<open>Properties\<close>

text \<open>
  C32: A server that has started on a working database, at the first start or a later one, knows its clients: memory
  index and database agree. They hold the clients of the database file, each under its old token, and the entries of the
  configuration offered in order: an entry is taken unless its name or token is empty or taken already. So every
  configured client with a name and a token is admitted that shares neither name nor token alone with another entry
  or row, and whoever the tables hold logs in with its token under its name.
\<close>
theorem started_server_admits_configured_clients:
  assumes "server_main e = Running r" and "\<forall>q. \<not> st_fails e q"
    and "d = st_db e (db_path (st_configFile e) (rn_cfg r))" and "disk_wf d"
  shows "synced (rn_server r) \<and> tenants_of (rn_server r) = seeded (sc_Clients (rn_cfg r)) (disk_clients d) \<and>
    (\<forall>token nm. disk_clients d token = Some nm \<longrightarrow> tenants_of (rn_server r) token = Some nm) \<and>
    (\<forall>c \<in> set (sc_Clients (rn_cfg r)). mc_Name c \<noteq> '''' \<longrightarrow> mc_Token c \<noteq> '''' \<longrightarrow>
       (\<forall>c' \<in> set (sc_Clients (rn_cfg r)). same_or_apart (mc_Name c) (mc_Token c) (mc_Name c') (mc_Token c')) \<longrightarrow>
       (\<forall>token nm. disk_clients d token = Some nm \<longrightarrow> same_or_apart (mc_Name c) (mc_Token c) nm token) \<longrightarrow>
       tenants_of (rn_server r) (mc_Token c) = Some (mc_Name c)) \<and>
    (\<forall>token nm. tenants_of (rn_server r) token = Some nm \<longrightarrow> nm \<noteq> '''' \<longrightarrow> fst (check_token (rn_server r) token) = Some nm)"
proof -
  obtain g st where o: "Open (st_fails e) d = Inr st" and s: "rn_server r = start_server (st_now e) (rn_cfg r) g st"
    using server_main_Running [OF assms(1)] assms(3) by metis
  have ok: "db_ok st" using Open_ok [OF assms(4,2) o] .
  define st2 where "st2 = seed_keys (st_now e) (sc_APIKeys (rn_cfg r)) (seed_clients (st_now e) (sc_Clients (rn_cfg r)) st)"
  have sy: "synced (rn_server r)" using start_server_synced [OF ok] s by simp
  have "sv_store (rn_server r) = Some st2" by (simp add: s start_server_def fresh_server_def Let_def st2_def)
  then have "tenants_of (rn_server r) = db_table st2" using sy by (auto simp: synced_def tenants_of_def)
  also have "\<dots> = seeded (sc_Clients (rn_cfg r)) (db_table st)"
    using seed_clients_table [OF ok] by (simp add: st2_def db_table_def fun_eq_iff seed_keys_clients)
  finally have t: "tenants_of (rn_server r) = seeded (sc_Clients (rn_cfg r)) (disk_clients d)"
    using Open_clients [OF o] by simp
  have login: "\<forall>token nm. tenants_of (rn_server r) token = Some nm \<longrightarrow> nm \<noteq> '''' \<longrightarrow> fst (check_token (rn_server r) token) = Some nm"
    by (auto simp: check_token_identity identity_of_def tenants_of_def mem_table_def)
  show ?thesis
    by (intro conjI sy t login) (auto simp: t seeded_keeps seeded_admits)
qed

text \<open>
  C33: A server that has started has a panel, whatever \<^verbatim>\<open>web_enable\<close> says, and the panel honours the configuration:
  each configured API key acts as administrator, without a settings file the configured password logs in, and the
  address of a request is always the peer address, whatever \<^verbatim>\<open>web_trust_proxy\<close> says.
\<close>
theorem started_panel_honours_configuration:
  assumes "server_main e = Running r" and "\<forall>q. \<not> st_fails e q" and "disk_wf (st_db e (db_path (st_configFile e) (rn_cfg r)))"
  shows "\<exists>ws. rn_panel r = Some ws \<and> ws_pm ws = rn_server r \<and>
    (\<forall>k \<in> set (sc_APIKeys (rn_cfg r)). k \<noteq> '''' \<longrightarrow> (\<forall>h q. request_key q = k \<longrightarrow>
       apiKeyMiddleware h q ws = h (Some \<lparr>id_Admin = True, id_Username = '''', id_Role = ''admin''\<rparr>) q ws)) \<and>
    (st_settings e (beside (st_configFile e) ''web_settings.json'') = None \<longrightarrow> (\<forall>unm rs rc t q. hr_Method q = ''POST'' \<longrightarrow>
       decode_limited unm q = Some (sc_WebPassword (rn_cfg r)) \<longrightarrow> fst (fst (handleLogin unm rs rc t q ws)) = 200)) \<and>
    (\<forall>q. getClientIP ws q = (case split_host (hr_RemoteAddr q) of Some h \<Rightarrow> h | None \<Rightarrow> hr_RemoteAddr q))"
proof -
  obtain g st where l: "LoadServerConfig (st_yaml e) (st_getenv e) (st_config e) = Inr (rn_cfg r)"
    and o: "Open (st_fails e) (st_db e (db_path (st_configFile e) (rn_cfg r))) = Inr st" and s: "rn_server r = start_server (st_now e) (rn_cfg r) g st"
    and p: "rn_panel r = addLog (st_time e) (uni [0x76d1, 0x542c, 0x5730, 0x5740] @ '': '' @ sc_BindAddr (rn_cfg r) @ '':'' @ fmt_d (sc_BindPort (rn_cfg r)))
       (addLog (st_time e) (''NexusLink Server '' @ Version @ '' '' @ uni [0x542f, 0x52a8]) (fst (start_panel e (rn_cfg r) (rn_server r))))"
    using server_main_Running [OF assms(1)] by metis
  define ws0 where "ws0 = NewWebServer (st_json e) (st_settings e (beside (st_configFile e) ''web_settings.json'')) (st_rnd e)
    (web_config (st_configFile e) (rn_cfg r)) (rn_server r)"
  have "sc_WebPassword (rn_cfg r) \<noteq> ''''" using LoadServerConfig_password [OF l] .
  then have "\<exists>ws. rn_panel r = Some ws \<and> panel_alike ws0 ws"
    unfolding p start_panel_def addLog_def
    by (auto simp: Let_def web_config_def ws0_def Start_def panel_alike_def split: prod.split)
  then obtain ws where ws: "rn_panel r = Some ws" "panel_alike ws0 ws" by blast
  have ok: "db_ok (seed_clients (st_now e) (sc_Clients (rn_cfg r)) st)" using seed_clients_ok(1) [OF Open_ok [OF assms(3,2) o]] .
  define st2 where "st2 = seed_keys (st_now e) (sc_APIKeys (rn_cfg r)) (seed_clients (st_now e) (sc_Clients (rn_cfg r)) st)"
  have store: "sv_store (rn_server r) = Some st2" by (simp add: s start_server_def fresh_server_def Let_def st2_def)
  have pm: "ws_pm ws0 = rn_server r" by (simp add: ws0_def NewWebServer_def Let_def)
  have "HasAPIKey st2 k = Inr True" if "k \<in> set (sc_APIKeys (rn_cfg r))" "k \<noteq> ''''" for k
    using seed_keys_all [OF ok that, of "st_now e"] seed_keys_ok [OF ok]
    by (auto simp: st2_def HasAPIKey_def db_query_def db_ok_def list_ex_iff)
  moreover have "ws_failedLogins ws0 = []" "wc_TrustProxy (ws_config ws0) = False"
    by (simp_all add: ws0_def NewWebServer_def web_config_def Let_def)
  moreover have "ws_passwordHash ws0 = hashPasswordWithSalt (sc_WebPassword (rn_cfg r)) (ws_passwordSalt ws0)"
    if "st_settings e (beside (st_configFile e) ''web_settings.json'') = None"
    using that by (simp add: ws0_def NewWebServer_def loadWebSettings_def web_config_def Let_def)
  ultimately show ?thesis
    using ws store pm
    by (auto simp: panel_alike_def apiKeyMiddleware_def handleLogin_def isIPLocked_def getClientIP_def Let_def split: option.split)
qed

section \<open>Instances\<close>

definition demo_start :: start_env where
  "demo_start = \<lparr>st_configFile = ''/etc/nexus/server.yaml'', st_genToken = False, st_nano = (\<lambda>_. 0), st_config = Some [],
     st_yaml = (\<lambda>_. Some (DefaultServerConfig\<lparr>sc_WebEnable := False, sc_APIKeys := [''k1''], sc_Clients :=
       [\<lparr>mc_Name = ''edge'', mc_Token = ''t1'', mc_MaxTunnels = 0, mc_MaxTrafficBytes = 0\<rparr>]\<rparr>)),
     st_getenv = (\<lambda>_. ''''), st_db = (\<lambda>_. new_disk), st_fails = (\<lambda>_. False), st_now = '''', st_time = 0, st_settings = Map.empty, st_json = (\<lambda>_ s. s),
     st_rnd = [1], st_static_ok = True, st_listen_ok = True, st_cert_ok = True\<rparr>"

lemma demo_paths: "db_path ''/etc/nexus/server.yaml'' (DefaultServerConfig\<lparr>sc_DBPath := ''''\<rparr>) = ''/etc/nexus/nexuslink.db''"
  by (simp add: db_path_def beside_def filepath_Dir_def filepath_Join_def filepath_Clean_def)

lemma demo_running: "\<exists>r. server_main demo_start = Running r \<and> sc_Clients (rn_cfg r) = [\<lparr>mc_Name = ''edge'', mc_Token = ''t1'', mc_MaxTunnels = 0, mc_MaxTrafficBytes = 0\<rparr>] \<and>
    sc_APIKeys (rn_cfg r) = [''k1''] \<and> \<not> sc_WebEnable (rn_cfg r)"
  by (simp add: server_main_def demo_start_def LoadServerConfig_def DefaultServerConfig_def mustConnGuard_def NewConnGuardWithWhitelist_def
      Open_def initSchema_def new_disk_def if_not_exists_def migrate_def Let_def case_prod_unfold)

text \<open>A later start: the database already knows \<^verbatim>\<open>edge\<close> under another token, and the configuration also names \<^verbatim>\<open>lab\<close>.\<close>

definition demo_restart :: start_env where
  "demo_restart = demo_start\<lparr>
     st_yaml := (\<lambda>_. Some (DefaultServerConfig\<lparr>sc_Clients :=
       [\<lparr>mc_Name = ''edge'', mc_Token = ''t1'', mc_MaxTunnels = 0, mc_MaxTrafficBytes = 0\<rparr>,
        \<lparr>mc_Name = ''lab'', mc_Token = ''t2'', mc_MaxTunnels = 0, mc_MaxTrafficBytes = 0\<rparr>]\<rparr>)),
     st_db := (\<lambda>_. new_disk\<lparr>dk_clients := Some (True,
       [\<lparr>cl_ID = 1, cl_Name = ''edge'', cl_Token = ''old'', cl_MaxTunnels = 0, cl_MaxTrafficBytes = 0, cl_BytesIn = 0, cl_BytesOut = 0,
         cl_Status = ''active'', cl_Owner = '''', cl_CreatedAt = '''', cl_UpdatedAt = ''''\<rparr>], 1)\<rparr>)\<rparr>"

lemma demo_restarted: "\<exists>r. server_main demo_restart = Running r \<and>
    sc_Clients (rn_cfg r) = [\<lparr>mc_Name = ''edge'', mc_Token = ''t1'', mc_MaxTunnels = 0, mc_MaxTrafficBytes = 0\<rparr>,
        \<lparr>mc_Name = ''lab'', mc_Token = ''t2'', mc_MaxTunnels = 0, mc_MaxTrafficBytes = 0\<rparr>]"
  by (simp add: demo_restart_def server_main_def demo_start_def LoadServerConfig_def DefaultServerConfig_def mustConnGuard_def
      NewConnGuardWithWhitelist_def Open_def initSchema_def new_disk_def if_not_exists_def migrate_def Let_def case_prod_unfold)

theorem started_server_admits_configured_clients_witness:
  "\<exists>r. server_main demo_restart = Running r \<and> fst (check_token (rn_server r) ''old'') = Some ''edge'' \<and>
     fst (check_token (rn_server r) ''t2'') = Some ''lab'' \<and> tenants_of (rn_server r) ''t1'' = None"
proof -
  obtain r where r: "server_main demo_restart = Running r"
      "sc_Clients (rn_cfg r) = [\<lparr>mc_Name = ''edge'', mc_Token = ''t1'', mc_MaxTunnels = 0, mc_MaxTrafficBytes = 0\<rparr>,
        \<lparr>mc_Name = ''lab'', mc_Token = ''t2'', mc_MaxTunnels = 0, mc_MaxTrafficBytes = 0\<rparr>]"
    using demo_restarted by blast
  let ?d = "st_db demo_restart (db_path (st_configFile demo_restart) (rn_cfg r))"
  have f: "\<forall>q. \<not> st_fails demo_restart q" and w: "disk_wf ?d"
    by (simp_all add: demo_restart_def demo_start_def disk_wf_def new_disk_def clients_wf_def ids_wf_def)
  have d: "disk_clients ?d = [''old'' \<mapsto> ''edge'']"
    by (simp add: demo_restart_def new_disk_def disk_clients_def fun_eq_iff)
  note main = started_server_admits_configured_clients [OF r(1) f refl w]
  have t: "tenants_of (rn_server r) = [''old'' \<mapsto> ''edge'', ''t2'' \<mapsto> ''lab'']"
    using main by (simp add: d r(2) seeded_def spec_add_def fun_eq_iff)
  have "fst (check_token (rn_server r) token) = Some nm" if "tenants_of (rn_server r) token = Some nm" "nm \<noteq> ''''" for token nm
    using main that by blast
  then show ?thesis using r(1) by (intro exI [of _ r]) (simp add: t)
qed

theorem started_panel_honours_configuration_witness:
  "\<exists>r ws. server_main demo_start = Running r \<and> \<not> sc_WebEnable (rn_cfg r) \<and> rn_panel r = Some ws \<and>
     apiKeyMiddleware (v1HandleUsers demo_api) (demo_call ''k1'' ''GET'' ''/api/v1/users'') ws =
       v1HandleUsers demo_api (Some \<lparr>id_Admin = True, id_Username = '''', id_Role = ''admin''\<rparr>) (demo_call ''k1'' ''GET'' ''/api/v1/users'') ws"
proof -
  obtain r where r: "server_main demo_start = Running r" "sc_APIKeys (rn_cfg r) = [''k1'']" "\<not> sc_WebEnable (rn_cfg r)"
    using demo_running by blast
  have d: "\<forall>q. \<not> st_fails demo_start q" "disk_wf (st_db demo_start (db_path (st_configFile demo_start) (rn_cfg r)))"
    using new_disk_wf by (simp_all add: demo_start_def)
  have k: "request_key (demo_call ''k1'' ''GET'' ''/api/v1/users'') = ''k1''" by simp
  obtain ws where "rn_panel r = Some ws" "\<forall>k \<in> set (sc_APIKeys (rn_cfg r)). k \<noteq> '''' \<longrightarrow> (\<forall>h q. request_key q = k \<longrightarrow>
       apiKeyMiddleware h q ws = h (Some \<lparr>id_Admin = True, id_Username = '''', id_Role = ''admin''\<rparr>) q ws)"
    using started_panel_honours_configuration [OF r(1) d] by blast
  then show ?thesis using r k by (intro exI [of _ r] exI [of _ ws]) simp
qed

end
