(* ===== verification/Sdk.thy ===== *)
theory Sdk
  imports WebApi
begin

text \<open>
  Model of the Go client of the open API, \<^verbatim>\<open>sdk/go/nexuslink/nexuslink.go\<close>, and its composition with the server.
  A call builds one HTTP request and reads one response; the JSON encoder, the check of \<^verbatim>\<open>http.NewRequest\<close>
  and the exchange itself are fields of \<open>transport\<close>, the exchange as a function on the state \<open>'s\<close> of the other
  side. \<open>api_transport\<close> is the transport whose other side is the server model, behind the URL parser of
  \<^verbatim>\<open>net/url\<close> and a network that may lose the request or the answer.
\<close>

section \<open>Requests\<close>

record SdkClient =
  sdk_baseURL :: string
  sdk_apiKey :: string

record sdk_ClientInfo =
  sci_Name :: string
  sci_BytesIn :: int
  sci_BytesOut :: int
  sci_Connected :: bool
  sci_ProxyCount :: int
  sci_MaxTunnels :: int
  sci_MaxTrafficBytes :: int

record sdk_ProxyInfo =
  spi_ID :: int
  spi_Name :: string
  spi_Type :: string
  spi_RemotePort :: int
  spi_LocalAddr :: string
  spi_LocalPort :: int
  spi_ClientName :: string
  spi_Enabled :: bool
  spi_Active :: bool

record sdk_APIKey =
  sak_Key :: string
  sak_Note :: string
  sak_CreatedAt :: string

record ProxyPatch =
  pp_Type :: "string option"
  pp_RemotePort :: "int option"
  pp_LocalAddr :: "string option"
  pp_LocalPort :: "int option"
  pp_Enabled :: "bool option"

record ProxyFilter =
  pf_ClientName :: string
  pf_Type :: string
  pf_Enabled :: "bool option"
  pf_Active :: "bool option"
  pf_Search :: string

datatype sdk_body =
    NoBody | ClientBody string string int int | TunnelBody proxy_req | PatchBody ProxyPatch | NameBody string | KeyBody string string

record sdk_http =
  sq_Method :: string
  sq_URL :: string
  sq_Key :: string
  sq_Body :: "bytes option"

datatype sdk_err = MarshalErr | RequestErr | TransportErr | ApiErr nat string | DecodeErr

record 's transport =
  tr_marshal :: "sdk_body \<Rightarrow> bytes option"
  tr_new :: "string \<Rightarrow> string \<Rightarrow> bool"
  tr_do :: "sdk_http \<Rightarrow> 's \<Rightarrow> (nat \<times> bytes) option \<times> 's"
  tr_error :: "bytes \<Rightarrow> string"                   \<comment> \<open>the \<^verbatim>\<open>error\<close> field, empty if there is none\<close>

definition New_sdk :: "string \<Rightarrow> string \<Rightarrow> SdkClient" where
  "New_sdk baseURL apiKey = \<lparr>sdk_baseURL = baseURL, sdk_apiKey = apiKey\<rparr>"

definition sdk_request ::
    "'s transport \<Rightarrow> SdkClient \<Rightarrow> string \<Rightarrow> string \<Rightarrow> sdk_body \<Rightarrow> (bytes \<Rightarrow> 'a option) option \<Rightarrow> 's \<Rightarrow> (sdk_err + 'a option) \<times> 's" where
  "sdk_request tr c meth path body out s =
     (case (if body = NoBody then Some None else map_option Some (tr_marshal tr body)) of
        None \<Rightarrow> (Inl MarshalErr, s)
      | Some reader \<Rightarrow>
          if \<not> tr_new tr meth (sdk_baseURL c @ path) then (Inl RequestErr, s)
          else
            (case tr_do tr \<lparr>sq_Method = meth, sq_URL = sdk_baseURL c @ path, sq_Key = sdk_apiKey c, sq_Body = reader\<rparr> s of
               (None, s1) \<Rightarrow> (Inl TransportErr, s1)
             | (Some (code, raw), s1) \<Rightarrow>
                 if code < 200 \<or> code \<ge> 300 then (Inl (ApiErr code (tr_error tr raw)), s1)
                 else
                   (case out of
                      None \<Rightarrow> (Inr None, s1)
                    | Some dec \<Rightarrow> (case dec raw of None \<Rightarrow> (Inl DecodeErr, s1) | Some v \<Rightarrow> (Inr (Some v), s1)))))"

text \<open>A call without a result, and one whose result is decoded by \<open>dec\<close>.\<close>

definition sdk_call :: "'s transport \<Rightarrow> SdkClient \<Rightarrow> string \<Rightarrow> string \<Rightarrow> sdk_body \<Rightarrow> 's \<Rightarrow> (sdk_err + unit option) \<times> 's" where
  "sdk_call tr c meth path body s = sdk_request tr c meth path body None s"

definition sdk_get :: "'s transport \<Rightarrow> SdkClient \<Rightarrow> string \<Rightarrow> string \<Rightarrow> sdk_body \<Rightarrow> (bytes \<Rightarrow> 'a option) \<Rightarrow> 's \<Rightarrow> (sdk_err + 'a option) \<times> 's" where
  "sdk_get tr c meth path body dec s = sdk_request tr c meth path body (Some dec) s"

section \<open>Calls\<close>

definition sdk_CreateClient ::
    "'s transport \<Rightarrow> SdkClient \<Rightarrow> string \<Rightarrow> string \<Rightarrow> int \<Rightarrow> int \<Rightarrow> 's \<Rightarrow> (sdk_err + unit option) \<times> 's" where
  "sdk_CreateClient tr c nm token mt mb = sdk_call tr c ''POST'' ''/api/v1/clients'' (ClientBody nm token mt mb)"

definition sdk_ListClients ::
    "'s transport \<Rightarrow> SdkClient \<Rightarrow> (bytes \<Rightarrow> sdk_ClientInfo list option) \<Rightarrow> 's \<Rightarrow> (sdk_err + sdk_ClientInfo list option) \<times> 's" where
  "sdk_ListClients tr c dec = sdk_get tr c ''GET'' ''/api/v1/clients'' NoBody dec"

definition sdk_GetTraffic ::
    "'s transport \<Rightarrow> SdkClient \<Rightarrow> string \<Rightarrow> (bytes \<Rightarrow> sdk_ClientInfo option) \<Rightarrow> 's \<Rightarrow> (sdk_err + sdk_ClientInfo option) \<times> 's" where
  "sdk_GetTraffic tr c nm dec = sdk_get tr c ''GET'' (''/api/v1/clients/'' @ nm @ ''/traffic'') NoBody dec"

definition sdk_DeleteClient ::
    "'s transport \<Rightarrow> SdkClient \<Rightarrow> string \<Rightarrow> 's \<Rightarrow> (sdk_err + unit option) \<times> 's" where
  "sdk_DeleteClient tr c nm = sdk_call tr c ''DELETE'' (''/api/v1/clients/'' @ nm) NoBody"

definition sdk_CreateProxy ::
    "'s transport \<Rightarrow> SdkClient \<Rightarrow> string \<Rightarrow> string \<Rightarrow> int \<Rightarrow> int \<Rightarrow> string \<Rightarrow> string \<Rightarrow> 's \<Rightarrow> (sdk_err + unit option) \<times> 's" where
  "sdk_CreateProxy tr c nm ty remotePort localPort localAddr clientName =
     sdk_call tr c ''POST'' ''/api/v1/proxies''
       (TunnelBody \<lparr>pq_Name = nm, pq_Type = ty, pq_RemotePort = remotePort, pq_LocalAddr = localAddr, pq_LocalPort = localPort, pq_ClientName = clientName\<rparr>)"

fun join_amp :: "string list \<Rightarrow> string" where
  "join_amp [] = ''''"
| "join_amp [s] = s"
| "join_amp (s # t # ts) = s @ ''&'' @ join_amp (t # ts)"

definition sprint_bool :: "bool \<Rightarrow> string" where
  "sprint_bool b = (if b then ''true'' else ''false'')"

definition filter_path :: "ProxyFilter \<Rightarrow> string" where
  "filter_path f =
     (let q = (if pf_ClientName f \<noteq> '''' then [''client_name='' @ pf_ClientName f] else []) @
              (if pf_Type f \<noteq> '''' then [''type='' @ pf_Type f] else []) @
              (case pf_Enabled f of Some b \<Rightarrow> [''enabled='' @ sprint_bool b] | None \<Rightarrow> []) @
              (case pf_Active f of Some b \<Rightarrow> [''active='' @ sprint_bool b] | None \<Rightarrow> []) @
              (if pf_Search f \<noteq> '''' then [''q='' @ pf_Search f] else [])
      in ''/api/v1/proxies'' @ (if q \<noteq> [] then ''?'' @ join_amp q else ''''))"

definition sdk_ListProxiesFilter ::
    "'s transport \<Rightarrow> SdkClient \<Rightarrow> ProxyFilter \<Rightarrow> (bytes \<Rightarrow> sdk_ProxyInfo list option) \<Rightarrow> 's \<Rightarrow> (sdk_err + sdk_ProxyInfo list option) \<times> 's" where
  "sdk_ListProxiesFilter tr c f dec = sdk_get tr c ''GET'' (filter_path f) NoBody dec"

definition sdk_ListProxies ::
    "'s transport \<Rightarrow> SdkClient \<Rightarrow> (bytes \<Rightarrow> sdk_ProxyInfo list option) \<Rightarrow> 's \<Rightarrow> (sdk_err + sdk_ProxyInfo list option) \<times> 's" where
  "sdk_ListProxies tr c dec =
     sdk_ListProxiesFilter tr c \<lparr>pf_ClientName = '''', pf_Type = '''', pf_Enabled = None, pf_Active = None, pf_Search = ''''\<rparr> dec"

definition sdk_GetProxy ::
    "'s transport \<Rightarrow> SdkClient \<Rightarrow> string \<Rightarrow> (bytes \<Rightarrow> sdk_ProxyInfo option) \<Rightarrow> 's \<Rightarrow> (sdk_err + sdk_ProxyInfo option) \<times> 's" where
  "sdk_GetProxy tr c nm dec = sdk_get tr c ''GET'' (''/api/v1/proxies/'' @ nm) NoBody dec"

definition sdk_UpdateProxy ::
    "'s transport \<Rightarrow> SdkClient \<Rightarrow> string \<Rightarrow> ProxyPatch \<Rightarrow> (bytes \<Rightarrow> sdk_ProxyInfo option) \<Rightarrow> 's \<Rightarrow> (sdk_err + sdk_ProxyInfo option) \<times> 's" where
  "sdk_UpdateProxy tr c nm patch dec = sdk_get tr c ''PATCH'' (''/api/v1/proxies/'' @ nm) (PatchBody patch) dec"

definition sdk_DeleteProxy ::
    "'s transport \<Rightarrow> SdkClient \<Rightarrow> string \<Rightarrow> 's \<Rightarrow> (sdk_err + unit option) \<times> 's" where
  "sdk_DeleteProxy tr c nm = sdk_call tr c ''DELETE'' (''/api/v1/proxies/'' @ nm) NoBody"

definition sdk_EnableProxy ::
    "'s transport \<Rightarrow> SdkClient \<Rightarrow> string \<Rightarrow> 's \<Rightarrow> (sdk_err + unit option) \<times> 's" where
  "sdk_EnableProxy tr c nm = sdk_call tr c ''POST'' (''/api/v1/proxies/'' @ nm @ ''/enable'') NoBody"

definition sdk_DisableProxy ::
    "'s transport \<Rightarrow> SdkClient \<Rightarrow> string \<Rightarrow> 's \<Rightarrow> (sdk_err + unit option) \<times> 's" where
  "sdk_DisableProxy tr c nm = sdk_call tr c ''POST'' (''/api/v1/proxies/'' @ nm @ ''/disable'') NoBody"

definition sdk_CloseProxy ::
    "'s transport \<Rightarrow> SdkClient \<Rightarrow> string \<Rightarrow> 's \<Rightarrow> (sdk_err + unit option) \<times> 's" where
  "sdk_CloseProxy tr c nm = sdk_call tr c ''POST'' ''/api/v1/proxies/close'' (NameBody nm)"

definition sdk_ListAPIKeys ::
    "'s transport \<Rightarrow> SdkClient \<Rightarrow> (bytes \<Rightarrow> sdk_APIKey list option) \<Rightarrow> 's \<Rightarrow> (sdk_err + sdk_APIKey list option) \<times> 's" where
  "sdk_ListAPIKeys tr c dec = sdk_get tr c ''GET'' ''/api/v1/api-keys'' NoBody dec"

definition sdk_CreateAPIKey ::
    "'s transport \<Rightarrow> SdkClient \<Rightarrow> string \<Rightarrow> string \<Rightarrow> 's \<Rightarrow> (sdk_err + unit option) \<times> 's" where
  "sdk_CreateAPIKey tr c key note = sdk_call tr c ''POST'' ''/api/v1/api-keys'' (KeyBody key note)"

definition sdk_DeleteAPIKey ::
    "'s transport \<Rightarrow> SdkClient \<Rightarrow> string \<Rightarrow> 's \<Rightarrow> (sdk_err + unit option) \<times> 's" where
  "sdk_DeleteAPIKey tr c key = sdk_call tr c ''DELETE'' (''/api/v1/api-keys/'' @ key) NoBody"

lemmas sdk_defs = sdk_call_def sdk_get_def sdk_CreateClient_def sdk_DeleteClient_def sdk_CreateProxy_def sdk_DeleteProxy_def

section \<open>The server as the other side\<close>

text \<open>
  What \<^verbatim>\<open>net/http\<close> and \<^verbatim>\<open>net/url\<close> make of the request. \<open>http.NewRequest\<close> parses the URL: a fragment is cut off at
  the first \<^verbatim>\<open>#\<close>, the query at the first \<^verbatim>\<open>?\<close>, percent escapes of the path are decoded, and a control byte or a
  malformed escape is an error. Strings are byte strings.
\<close>

fun url_unescape :: "string \<Rightarrow> string option" where
  "url_unescape [] = Some []"
| "url_unescape (c # cs) =
     (if c = CHR ''%'' then
        (case cs of
           a # b # ds \<Rightarrow>
             (case (hex_val a, hex_val b) of
                (Some x, Some y) \<Rightarrow> map_option (\<lambda>r. char_of (16 * x + y) # r) (url_unescape ds)
              | _ \<Rightarrow> None)
         | _ \<Rightarrow> None)
      else map_option (\<lambda>r. c # r) (url_unescape cs))"

definition ctl_byte :: "char \<Rightarrow> bool" where
  "ctl_byte c \<longleftrightarrow> of_char c < (32 :: nat) \<or> of_char c = (127 :: nat)"

definition url_cut :: "char \<Rightarrow> string \<Rightarrow> string \<times> string" where
  "url_cut ch t = (let u = takeWhile (\<lambda>c. c \<noteq> ch) t in (u, drop (length u + 1) t))"

text \<open>The path as written, the decoded path and the query, or \<open>None\<close> for an error.\<close>

definition url_parse :: "string \<Rightarrow> (string \<times> string \<times> string) option" where
  "url_parse target =
     (let (u, frag) = url_cut (CHR ''#'') target; (p, query) = url_cut (CHR ''?'') u in
      if list_ex ctl_byte u \<or> url_unescape frag = None then None
      else map_option (\<lambda>d. (p, d, query)) (url_unescape p))"

text \<open>
  \<^verbatim>\<open>EscapedPath\<close>, which goes over the wire: the path as written if it has no byte that must be escaped, and the decoded
  path escaped anew otherwise.
\<close>

definition path_byte :: "char \<Rightarrow> bool" where
  "path_byte c \<longleftrightarrow> is_hex c \<or> c \<in> set ''ghijklmnopqrstuvwxyzGHIJKLMNOPQRSTUVWXYZ-_.~$&+,/:;=@''"

definition url_escape :: "string \<Rightarrow> string" where
  "url_escape s =
     concat (map (\<lambda>c. if path_byte c then [c]
       else [CHR ''%'', ''0123456789ABCDEF'' ! (of_char c div 16), ''0123456789ABCDEF'' ! (of_char c mod 16)]) s)"

definition escaped_path :: "string \<Rightarrow> string \<Rightarrow> string" where
  "escaped_path raw decoded =
     (if list_all (\<lambda>c. path_byte c \<or> c \<in> set ''!'' \<union> set ''()*%[]'' \<or> c = CHR 0x27) raw then raw else url_escape decoded)"

text \<open>
  \<^verbatim>\<open>http.ServeMux\<close> answers with a redirect when cleaning would change the path: an empty segment before the last
  one, or a segment that is one dot or two.
\<close>

definition mux_clean :: "string \<Rightarrow> bool" where
  "mux_clean p \<longleftrightarrow> (let segs = tl (split_slash p) in '''' \<notin> set (butlast segs) \<and> ''.'' \<notin> set segs \<and> ''..'' \<notin> set segs)"

text \<open>The value of a header: spaces around it are dropped, and a control byte in it is an error.\<close>

definition trim_value :: "string \<Rightarrow> string" where
  "trim_value s = (let sp = (\<lambda>c. c = CHR '' '' \<or> c = CHR 0x09) in rev (dropWhile sp (rev (dropWhile sp s))))"

definition valid_value :: "string \<Rightarrow> bool" where
  "valid_value s \<longleftrightarrow> list_all (\<lambda>c. \<not> ctl_byte c \<or> c = CHR 0x09) s"

text \<open>
  The network decides what becomes of an exchange: the request may never reach the server, the answer may be lost (also by the
  client's timeout of 15 seconds) after the server has handled the request, or the answer arrives, perhaps with its body
  cut short. Parameters are whether the scheme and the host of the base address parse, the
  parsed query, and what a redirect leads to.
\<close>

datatype delivery = NotSent | AnswerLost | Answered

record network =
  nt_base_ok :: bool
  nt_delivery :: delivery
  nt_received :: "bytes \<Rightarrow> bytes"
  nt_query :: "string \<Rightarrow> string \<Rightarrow> string"
  nt_redirect :: "sdk_http \<Rightarrow> WebServer \<times> effect list \<Rightarrow> (nat \<times> bytes) option \<times> WebServer \<times> effect list"

definition sdk_target :: "string \<Rightarrow> string \<Rightarrow> string" where
  "sdk_target base url = drop (length base) url"

text \<open>The request as the server sees it.\<close>

definition http_of :: "network \<Rightarrow> sdk_http \<Rightarrow> string \<Rightarrow> string \<Rightarrow> http_req" where
  "http_of n q path query =
     \<lparr>hr_Method = sq_Method q, hr_Path = path,
      hr_Header = (\<lambda>h. if h = ''X-API-Key'' then trim_value (sq_Key q) else if h = ''Content-Type'' then ''application/json'' else ''''),
      hr_Query = nt_query n query, hr_Form = (\<lambda>_. ''''), hr_Cookie = None, hr_RemoteAddr = '''', hr_TLS = False,
      hr_Body = (case sq_Body q of None \<Rightarrow> [] | Some b \<Rightarrow> b)\<rparr>"

text \<open>
  The server's side: the state is the server with the effects it has had. A space in the query, which the client
  does not escape, breaks the request line and gives 400; a path without a handler gives 404.
\<close>

definition api_do ::
    "network \<Rightarrow> api_env \<Rightarrow> (api_body \<Rightarrow> bytes) \<Rightarrow> sdk_http \<Rightarrow> string \<Rightarrow> string \<Rightarrow> WebServer \<times> effect list \<Rightarrow>
     (nat \<times> bytes) \<times> WebServer \<times> effect list" where
  "api_do n e enc q path query s =
     (if CHR '' '' \<in> set query then ((400, []), s)
      else case api_serve e (http_of n q path query) (fst s) of
        None \<Rightarrow> ((404, []), s)
      | Some ((code, b), effs, ws') \<Rightarrow> ((code, enc b), ws', snd s @ effs))"

definition api_exchange ::
    "network \<Rightarrow> api_env \<Rightarrow> (api_body \<Rightarrow> bytes) \<Rightarrow> string \<Rightarrow> sdk_http \<Rightarrow> WebServer \<times> effect list \<Rightarrow>
     (nat \<times> bytes) option \<times> WebServer \<times> effect list" where
  "api_exchange n e enc base q s =
     (case url_parse (sdk_target base (sq_URL q)) of
        None \<Rightarrow> (None, s)
      | Some (raw, path, query) \<Rightarrow>
          if \<not> valid_value (sq_Key q) \<or> nt_delivery n = NotSent then (None, s)
          else if \<not> mux_clean (escaped_path raw path) then nt_redirect n q s
          else (case api_do n e enc q path query s of
                  ((code, b), s') \<Rightarrow> (if nt_delivery n = AnswerLost then None else Some (code, nt_received n b), s')))"

definition api_transport ::
    "network \<Rightarrow> api_env \<Rightarrow> (sdk_body \<Rightarrow> bytes option) \<Rightarrow> (api_body \<Rightarrow> bytes) \<Rightarrow> (bytes \<Rightarrow> string) \<Rightarrow> string \<Rightarrow>
     (WebServer \<times> effect list) transport" where
  "api_transport n e mar enc err base =
     \<lparr>tr_marshal = mar, tr_new = (\<lambda>_ url. nt_base_ok n \<and> url_parse (sdk_target base url) \<noteq> None),
      tr_do = api_exchange n e enc base, tr_error = err\<rparr>"

section \<open>Paths with names in them\<close>

lemma has_prefix_append [simp]: "has_prefix (p @ s) p"
  by (induction p) simp_all

lemma trim_prefix_append [simp]: "trim_prefix (p @ s) p = s"
  by (simp add: trim_prefix_def)

lemma split_slash_not_Nil [simp]: "split_slash s \<noteq> []"
  by (induction s) (auto split: list.split)

lemma split_slash_segment:
  "CHR ''/'' \<notin> set a \<Longrightarrow> rest = '''' \<or> (\<exists>b. rest = CHR ''/'' # b) \<Longrightarrow> hd (split_slash (a @ rest)) = a"
  by (induction a) (auto split: list.split)

lemma split_slash_plain: "CHR ''/'' \<notin> set a \<Longrightarrow> split_slash a = [a]"
  by (induction a) auto

lemma trim_slashes_segment:
  assumes "a \<noteq> ''''" "CHR ''/'' \<notin> set a" "rest = '''' \<or> (\<exists>b. rest = CHR ''/'' # b)"
  shows "\<exists>rest'. trim_slashes (a @ rest) = a @ rest' \<and> (rest' = '''' \<or> (\<exists>b. rest' = CHR ''/'' # b)) \<and> (rest = '''' \<longrightarrow> rest' = '''')"
proof -
  let ?P = "\<lambda>c. c = CHR ''/''"
  have nP: "\<not> ?P (hd a)" "\<not> ?P (last a)" using assms(1,2) by (metis hd_in_set, metis last_in_set)
  then have front: "dropWhile ?P (a @ rest) = a @ rest" using assms(1) by (cases a) auto
  show ?thesis
  proof (cases "\<forall>c \<in> set rest. ?P c")
    case True
    then have "dropWhile ?P (rev rest @ rev a) = dropWhile ?P (rev a)" by (subst dropWhile_append2) auto
    also have "\<dots> = rev a" using nP assms(1) by (cases a rule: rev_cases) auto
    finally show ?thesis unfolding trim_slashes_def front by (intro exI [of _ "''''"]) simp
  next
    case False
    then obtain c where c: "c \<in> set (rev rest)" "\<not> ?P c" by auto
    then obtain b where b: "rest = CHR ''/'' # b" using assms(3) by auto
    then have cb: "c \<in> set (rev b)" using c by auto
    have "dropWhile ?P (rev rest @ rev a) = dropWhile ?P (rev rest) @ rev a" using c by (rule dropWhile_append1)
    moreover have "dropWhile ?P (rev rest) = dropWhile ?P (rev b) @ [CHR ''/'']"
      using dropWhile_append1 [OF cb, of ?P "[CHR ''/'']"] c(2) b by simp
    ultimately show ?thesis unfolding trim_slashes_def front using b by simp
  qed
qed

lemma path_parts_segment:
  assumes "a \<noteq> ''''" "CHR ''/'' \<notin> set a" "rest = '''' \<or> (\<exists>b. rest = CHR ''/'' # b)"
  shows "hd (path_parts pre (pre @ a @ rest)) = a" and "path_parts pre (pre @ a @ rest) \<noteq> []" and "rest = '''' \<Longrightarrow> path_parts pre (pre @ a) = [a]"
proof -
  obtain rest' where t: "trim_slashes (a @ rest) = a @ rest'" "rest' = '''' \<or> (\<exists>b. rest' = CHR ''/'' # b)" "rest = '''' \<longrightarrow> rest' = ''''"
    using trim_slashes_segment [OF assms] by blast
  show "hd (path_parts pre (pre @ a @ rest)) = a" using split_slash_segment [OF assms(2) t(2)] t(1) by (simp add: path_parts_def)
  show "path_parts pre (pre @ a @ rest) \<noteq> []" by (simp add: path_parts_def)
  show "path_parts pre (pre @ a) = [a]" if "rest = ''''"
    using that t(1,3) split_slash_plain [OF assms(2)] by (simp add: path_parts_def)
qed

section \<open>Properties\<close>

lemma http_of_simps [simp]:
  "hr_Method (http_of n q p qu) = sq_Method q" "hr_Body (http_of n q p qu) = (case sq_Body q of None \<Rightarrow> [] | Some b \<Rightarrow> b)"
  "hr_Path (http_of n q p qu) = p" "trim_value (sq_Key q) \<noteq> '''' \<Longrightarrow> request_key (http_of n q p qu) = trim_value (sq_Key q)"
  by (auto simp: http_of_def request_key_def)

lemma sdk_target_append [simp]: "sdk_target base (base @ t) = t"
  by (simp add: sdk_target_def)

text \<open>A prefix without special bytes is kept by the parser.\<close>

definition plain_byte :: "char \<Rightarrow> bool" where
  "plain_byte c \<longleftrightarrow> \<not> ctl_byte c \<and> c \<notin> set ''%#?''"

lemma map_option_append_Nil [simp]: "map_option ((@) []) x = x"
  by (cases x) simp_all

lemma url_unescape_plain: "list_all plain_byte p \<Longrightarrow> url_unescape (p @ s) = map_option (\<lambda>r. p @ r) (url_unescape s)"
  by (induction p) (auto simp: plain_byte_def option.map_comp comp_def option.map_ident fun_eq_iff intro!: option.map_cong0)

lemma url_cut_plain: "list_all (\<lambda>c. c \<noteq> ch) p \<Longrightarrow> url_cut ch (p @ s) = (p @ fst (url_cut ch s), snd (url_cut ch s))"
  by (induction p) (simp_all add: url_cut_def Let_def)

lemma url_parse_plain:
  assumes "list_all plain_byte p"
  shows "url_parse (p @ s) = map_option (\<lambda>(raw, path, query). (p @ raw, p @ path, query)) (url_parse s)"
proof -
  have h: "list_all (\<lambda>c. c \<noteq> CHR ''#'') p" "list_all (\<lambda>c. c \<noteq> CHR ''?'') p" "\<not> list_ex ctl_byte p"
    using assms by (auto simp: list_all_iff list_ex_iff plain_byte_def)
  show ?thesis
    by (simp add: url_parse_def url_cut_plain [OF h(1)] url_cut_plain [OF h(2)] url_unescape_plain [OF assms] h(3) case_prod_unfold Let_def
        option.map_comp comp_def)
qed

text \<open>
  The Go client reports a server's answer faithfully: a call without a result succeeds exactly when the
  exchange happened and the status was 2xx, every other status becomes an error with that status, and the call
  makes exactly one exchange.
\<close>
theorem sdk_reports_status:
  assumes "tr_marshal tr body \<noteq> None" and "tr_new tr meth (sdk_baseURL c @ path)"
  shows "\<exists>q ans. sq_Method q = meth \<and> sq_URL q = sdk_baseURL c @ path \<and> sq_Key q = sdk_apiKey c \<and>
    sq_Body q = (if body = NoBody then None else tr_marshal tr body) \<and> tr_do tr q s = (ans, snd (sdk_call tr c meth path body s)) \<and>
    fst (sdk_call tr c meth path body s) =
      (case ans of None \<Rightarrow> Inl TransportErr | Some (code, raw) \<Rightarrow> if 200 \<le> code \<and> code < 300 then Inr None else Inl (ApiErr code (tr_error tr raw)))"
proof -
  let ?q = "\<lparr>sq_Method = meth, sq_URL = sdk_baseURL c @ path, sq_Key = sdk_apiKey c, sq_Body = (if body = NoBody then None else tr_marshal tr body)\<rparr>"
  obtain ans s1 where "tr_do tr ?q s = (ans, s1)" by fastforce
  then show ?thesis
    using assms by (intro exI [of _ ?q] exI [of _ ans]) (auto simp: sdk_call_def sdk_request_def split: option.split)
qed

text \<open>A call without a result to the server, in closed form.\<close>

lemma api_call_refused:
  assumes "body = NoBody \<or> mar body \<noteq> None" "\<not> nt_base_ok n \<or> url_parse path = None"
  shows "sdk_call (api_transport n e mar enc err (sdk_baseURL c)) c meth path body s = (Inl RequestErr, s)"
  using assms by (auto simp: sdk_call_def sdk_request_def api_transport_def split: option.split)

lemma api_call_served:
  assumes "if body = NoBody then rd = None else \<exists>b. mar body = Some b \<and> rd = Some b" "nt_base_ok n"
    and "url_parse path = Some (raw, p, qu)" "mux_clean (escaped_path raw p)"
    and "api_do n e enc \<lparr>sq_Method = meth, sq_URL = sdk_baseURL c @ path, sq_Key = sdk_apiKey c, sq_Body = rd\<rparr> p qu s = ((code, b), s1)"
  shows "sdk_call (api_transport n e mar enc err (sdk_baseURL c)) c meth path body s =
    (if \<not> valid_value (sdk_apiKey c) \<or> nt_delivery n = NotSent then (Inl TransportErr, s)
     else if nt_delivery n = AnswerLost then (Inl TransportErr, s1)
     else (if code < 200 \<or> code \<ge> 300 then Inl (ApiErr code (err (nt_received n b))) else Inr None, s1))"
proof -
  have "sdk_call (api_transport n e mar enc err (sdk_baseURL c)) c meth path body s =
    (case api_exchange n e enc (sdk_baseURL c) \<lparr>sq_Method = meth, sq_URL = sdk_baseURL c @ path, sq_Key = sdk_apiKey c, sq_Body = rd\<rparr> s of
       (None, s2) \<Rightarrow> (Inl TransportErr, s2)
     | (Some (k, r), s2) \<Rightarrow> (if k < 200 \<or> k \<ge> 300 then Inl (ApiErr k (err r)) else Inr None, s2))"
    using assms(1-3) by (auto simp: sdk_call_def sdk_request_def api_transport_def split: if_splits prod.split option.split)
  then show ?thesis using assms(3-5) by (simp add: api_exchange_def)
qed

text \<open>The tunnel of a request is new in the database, last in the list of its client, and nothing else has changed.\<close>

definition tunnel_added :: "proxy_req \<Rightarrow> Store \<Rightarrow> Store \<Rightarrow> bool" where
  "tunnel_added req st st' \<longleftrightarrow>
     (\<exists>ps p. ListProxiesByClient st (pq_ClientName req) = Inr ps \<and> ListProxiesByClient st' (pq_ClientName req) = Inr (ps @ [p]) \<and>
        px_Name p = pq_Name req \<and> px_RemotePort p = pq_RemotePort req \<and> px_LocalPort p = pq_LocalPort req \<and>
        px_LocalAddr p = (if pq_LocalAddr req = '''' then ''127.0.0.1'' else pq_LocalAddr req) \<and>
        st' = st\<lparr>proxies_tbl := proxies_tbl st @ [p], proxies_seq := Suc (proxies_seq st)\<rparr>)"

text \<open>What the server makes of the request, whether or not its answer arrives.\<close>

lemma create_request_adds:
  assumes "ws_store ws = Some st" and "db_ok st" and "ae_proxy e (hr_Body r) = Some req" and "hr_Path r = ''/api/v1/proxies''"
    and "hr_Method r = ''POST''" and "apiKeyMiddleware (v1HandleProxies e) r ws = ((code, b), effs, ws')"
  shows "(code = 200 \<and> (\<exists>st'. ws_store ws' = Some st' \<and> tunnel_added req st st')) \<or> (code \<ge> 400 \<and> ws_store ws' = Some st)"
proof (cases "\<exists>ctx. create_tunnel e ctx req st ws = ((code, b), effs, ws')")
  case True
  then obtain ctx where c: "create_tunnel e ctx req st ws = ((code, b), effs, ws')" by blast
  have code: "code = 200 \<or> code \<ge> 400" using c by (auto simp: create_tunnel_def Let_def case_prod_unfold split: if_splits option.splits sum.splits)
  have ok: "\<not> fails st x" for x using assms(2) by (simp add: db_ok_def)
  show ?thesis
  proof (cases "code = 200")
    case True
    show ?thesis
      using create_tunnel_ok(3) [OF assms(2) c [unfolded True]] True ok
      by (simp add: tunnel_added_def ListProxiesByClient_def db_query_def new_row_def)
  next
    case False
    then show ?thesis using create_tunnel_refused [OF assms(2,1) c False] code by blast
  qed
next
  case False
  then have "code = 401 \<and> ws' = ws"
    using assms by (auto simp: apiKeyMiddleware_def v1HandleProxies_def Let_def split: if_splits option.splits)
  then show ?thesis using assms(1) by simp
qed

lemma proxies_target: "url_parse ''/api/v1/proxies'' = Some (''/api/v1/proxies'', ''/api/v1/proxies'', '''')"
    "mux_clean (escaped_path ''/api/v1/proxies'' ''/api/v1/proxies'')"
  by (simp_all add: url_parse_def url_cut_def ctl_byte_def mux_clean_def escaped_path_def path_byte_def is_hex_def hex_val_def)

text \<open>
  C34: Creating a tunnel with the Go client works end to end, over a network that may lose the request or the answer. When
  the call returns without error, the client program's next synchronisation gets the new tunnel, last in its
  list, with the given name, ports and address. When the server refused the call, the stored tunnels are unchanged.
  When the exchange failed, either nothing has changed or the server has created exactly this tunnel.
\<close>
theorem sdk_create_tunnel_end_to_end:
  assumes "ws_store ws = Some st" and "db_ok st"
    and "req = \<lparr>pq_Name = nm, pq_Type = ty, pq_RemotePort = rp, pq_LocalAddr = la, pq_LocalPort = lp, pq_ClientName = cn\<rparr>"
    and "mar (TunnelBody req) = Some body" and "ae_proxy e body = Some req"
    and "sdk_CreateProxy (api_transport n e mar enc err (sdk_baseURL c)) c nm ty rp lp la cn (ws, es) = (res, ws', es')"
  shows "\<exists>st'. ws_store ws' = Some st' \<and>
    (case res of
       Inr _ \<Rightarrow> tunnel_added req st st'
     | Inl TransportErr \<Rightarrow> st' = st \<or> tunnel_added req st st'
     | Inl _ \<Rightarrow> st' = st)"
proof -
  define q where "q = \<lparr>sq_Method = ''POST'', sq_URL = sdk_baseURL c @ ''/api/v1/proxies'', sq_Key = sdk_apiKey c, sq_Body = Some body\<rparr>"
  let ?r = "http_of n q ''/api/v1/proxies'' ''''"
  obtain code b effs ws1 where a: "apiKeyMiddleware (v1HandleProxies e) ?r ws = ((code, b), effs, ws1)" by (metis prod.exhaust)
  have do: "api_do n e enc q ''/api/v1/proxies'' '''' (ws, es) = ((code, enc b), ws1, es @ effs)"
    using a by (simp add: api_do_def api_serve_def api_route_def)
  have call: "sdk_call (api_transport n e mar enc err (sdk_baseURL c)) c ''POST'' ''/api/v1/proxies'' (TunnelBody req) (ws, es) = (res, ws', es')"
    using assms(3,6) by (simp add: sdk_CreateProxy_def)
  have made: "(code = 200 \<and> (\<exists>st'. ws_store ws1 = Some st' \<and> tunnel_added req st st')) \<or> (code \<ge> 400 \<and> ws_store ws1 = Some st)"
    by (rule create_request_adds [OF assms(1,2) _ _ _ a]) (simp_all add: q_def assms(5))
  show ?thesis
  proof (cases "nt_base_ok n")
    case True
    have "(res, ws', es') =
      (if \<not> valid_value (sdk_apiKey c) \<or> nt_delivery n = NotSent then (Inl TransportErr, ws, es)
       else if nt_delivery n = AnswerLost then (Inl TransportErr, ws1, es @ effs)
       else (if code < 200 \<or> code \<ge> 300 then Inl (ApiErr code (err (nt_received n (enc b)))) else Inr None, ws1, es @ effs))"
      unfolding call [symmetric]
      by (rule api_call_served [OF _ True proxies_target do [unfolded q_def]]) (simp add: assms(4))
    then show ?thesis using made assms(1) by (auto split: if_splits)
  next
    case False
    then have "res = Inl RequestErr \<and> ws' = ws" using call api_call_refused [of "TunnelBody req" mar n] assms(4) by simp
    then show ?thesis using assms(1) by simp
  qed
qed

text \<open>
  The client that a call names: the first segment of what the URL parser makes of the name (\<open>None\<close> if it refuses it).
\<close>

definition addressed_name :: "string \<Rightarrow> string option" where
  "addressed_name nm = map_option (\<lambda>(raw, path, query). hd (split_slash (trim_slashes path))) (url_parse nm)"

lemma addressed_name_plain:
  assumes "list_all plain_byte nm" "CHR ''/'' \<notin> set nm" shows "addressed_name nm = Some nm"
proof -
  have "trim_slashes nm = nm"
  proof (cases nm)
    case (Cons c cs)
    then show ?thesis using trim_slashes_segment [of nm "''''"] assms(2) by auto
  qed (simp add: trim_slashes_def)
  moreover have "url_parse '''' = Some ('''', '''', '''')" by (simp add: url_parse_def url_cut_def)
  ultimately show ?thesis
    using url_parse_plain [OF assms(1), of "''''"] split_slash_plain [OF assms(2)] by (simp add: addressed_name_def)
qed

text \<open>What the server does with the request: the handler of the path takes the first segment.\<close>

lemma delete_request_removes:
  assumes "ws_store ws = Some st" and "HasAPIKey st (request_key r) = Inr True" and "request_key r \<noteq> ''''"
    and "hr_Method r = ''DELETE''" and "hr_Path r = ''/api/v1/clients/'' @ d" and "hd (split_slash (trim_slashes d)) = a"
    and "RemoveManagedClient (ws_pm ws) a = (x, effs, pm1)"
  shows "api_serve e r ws = Some (if a = '''' then ((400, AErr NoClientName), [], ws)
    else ((case x of Inl er \<Rightarrow> (404, AErr (Tenant er)) | Inr _ \<Rightarrow> (200, ASuccess)), effs, ws\<lparr>ws_pm := pm1\<rparr>))"
proof -
  let ?admin = "\<lparr>id_Admin = True, id_Username = '''', id_Role = ''admin''\<rparr>"
  have serve: "api_serve e r ws = Some (v1HandleClientPath (Some ?admin) r ws)"
    using assms(1-5) has_prefix_append [of "''/api/v1/clients/''" d]
    by (simp add: api_serve_def api_route_def apiKeyMiddleware_def Let_def)
  have parts: "hd (path_parts ''/api/v1/clients/'' (hr_Path r)) = a" "path_parts ''/api/v1/clients/'' (hr_Path r) \<noteq> []"
    using assms(5,6) trim_prefix_append [of "''/api/v1/clients/''" d] by (simp_all add: path_parts_def)
  show ?thesis
    unfolding serve using parts assms(4,7) by (simp add: v1HandleClientPath_def currentIdentity_def Let_def split: sum.split)
qed

text \<open>
  C35: What deleting a client with the Go client and an administrator's key removes. The name is put into the URL as it
  is: the client removed is the first path segment of what the URL parser makes of the name, after a fragment and a
  query are cut off and escapes decoded. A name that the parser refuses, or an empty segment, removes nothing and is
  an error. An answered call reports success exactly if the server removed the client; when the answer is lost the client
  is removed and the call fails. For a name without slash, percent sign, \<^verbatim>\<open>#\<close>, \<^verbatim>\<open>?\<close> and control bytes this is the
  named client; for other names it is another one. (Paths that the multiplexer would clean are not concerned.)
\<close>
theorem sdk_delete_client_first_segment:
  assumes "ws_store ws = Some st" and "HasAPIKey st (trim_value (sdk_apiKey c)) = Inr True" and "trim_value (sdk_apiKey c) \<noteq> ''''"
    and "valid_value (sdk_apiKey c)" and "nt_base_ok n"
    and "\<forall>raw path query. url_parse nm = Some (raw, path, query) \<longrightarrow>
           mux_clean (escaped_path (''/api/v1/clients/'' @ raw) (''/api/v1/clients/'' @ path)) \<and> CHR '' '' \<notin> set query"
    and "sdk_DeleteClient (api_transport n e mar enc err (sdk_baseURL c)) c nm (ws, es) = (res, ws', es')"
  shows "(case addressed_name nm of
      None \<Rightarrow> res = Inl RequestErr \<and> ws' = ws
    | Some a \<Rightarrow>
        if nt_delivery n = NotSent then res = Inl TransportErr \<and> ws' = ws
        else if a = '''' then (\<exists>er. res = Inl er) \<and> ws' = ws
        else ws_pm ws' = snd (snd (RemoveManagedClient (ws_pm ws) a)) \<and>
          (if nt_delivery n = AnswerLost then res = Inl TransportErr
           else (res = Inr None \<longleftrightarrow> fst (RemoveManagedClient (ws_pm ws) a) = Inr ()))) \<and>
    (list_all plain_byte nm \<and> CHR ''/'' \<notin> set nm \<longrightarrow> addressed_name nm = Some nm)"
proof -
  have plain: "list_all plain_byte ''/api/v1/clients/''" by (simp add: plain_byte_def ctl_byte_def)
  note parse = url_parse_plain [OF plain, of nm]
  show ?thesis
  proof (cases "url_parse nm")
    case None
    then have "url_parse (''/api/v1/clients/'' @ nm) = None" using parse by simp
    then have "res = Inl RequestErr \<and> ws' = ws"
      using assms(7) api_call_refused [of NoBody mar n] by (simp add: sdk_DeleteClient_def)
    then show ?thesis using None addressed_name_plain [of nm] by (auto simp: addressed_name_def)
  next
    case (Some t)
    then obtain raw d query where u: "url_parse nm = Some (raw, d, query)" by (cases t) auto
    define a where "a = hd (split_slash (trim_slashes d))"
    have an: "addressed_name nm = Some a" by (simp add: addressed_name_def u a_def)
    define q where "q = \<lparr>sq_Method = ''DELETE'', sq_URL = sdk_baseURL c @ ''/api/v1/clients/'' @ nm, sq_Key = sdk_apiKey c, sq_Body = None\<rparr>"
    let ?r = "http_of n q (''/api/v1/clients/'' @ d) query"
    obtain x effs pm1 where rm: "RemoveManagedClient (ws_pm ws) a = (x, effs, pm1)" by (metis prod_cases3)
    have serve: "api_serve e ?r ws = Some (if a = '''' then ((400, AErr NoClientName), [], ws)
        else ((case x of Inl er \<Rightarrow> (404, AErr (Tenant er)) | Inr _ \<Rightarrow> (200, ASuccess)), effs, ws\<lparr>ws_pm := pm1\<rparr>))"
      by (rule delete_request_removes [OF assms(1) _ _ _ _ a_def [symmetric] rm]) (use assms(2,3) in \<open>simp_all add: q_def\<close>)
    have clean: "mux_clean (escaped_path (''/api/v1/clients/'' @ raw) (''/api/v1/clients/'' @ d))" "CHR '' '' \<notin> set query"
      using assms(6) u by blast+
    have up: "url_parse (''/api/v1/clients/'' @ nm) = Some (''/api/v1/clients/'' @ raw, ''/api/v1/clients/'' @ d, query)"
      using parse u by simp
    obtain code b ws1 es1 where do: "api_do n e enc q (''/api/v1/clients/'' @ d) query (ws, es) = ((code, b), ws1, es1)"
      by (metis prod.exhaust)
    have made: "ws1 = (if a = '''' then ws else ws\<lparr>ws_pm := pm1\<rparr>)" "code = (if a = '''' then 400 else case x of Inl er \<Rightarrow> 404 | Inr _ \<Rightarrow> 200)"
      using do serve clean(2) by (auto simp: api_do_def split: if_splits sum.splits)
    have "(res, ws', es') =
      (if \<not> valid_value (sdk_apiKey c) \<or> nt_delivery n = NotSent then (Inl TransportErr, ws, es)
       else if nt_delivery n = AnswerLost then (Inl TransportErr, ws1, es1)
       else (if code < 200 \<or> code \<ge> 300 then Inl (ApiErr code (err (nt_received n b))) else Inr None, ws1, es1))"
      unfolding assms(7) [unfolded sdk_DeleteClient_def, symmetric]
      by (rule api_call_served [OF _ assms(5) up clean(1) do [unfolded q_def]]) simp
    moreover have "ws_pm ws1 = pm1" if "a \<noteq> ''''" using that made by simp
    ultimately show ?thesis
      using an rm assms(4) made addressed_name_plain [of nm] by (cases x; cases "a = ''''"; cases "nt_delivery n") simp_all
  qed
qed

section \<open>Instances\<close>

definition demo_sdk :: SdkClient where
  "demo_sdk = New_sdk ''http://s:7001'' ''bt''"

definition demo_net :: "delivery \<Rightarrow> network" where
  "demo_net dl = \<lparr>nt_base_ok = True, nt_delivery = dl, nt_received = (\<lambda>b. b), nt_query = (\<lambda>_ _. ''''), nt_redirect = (\<lambda>_ s. (None, s))\<rparr>"

theorem sdk_reports_status_witness:
  "fst (sdk_call \<lparr>tr_marshal = (\<lambda>_. Some []), tr_new = (\<lambda>_ _. True), tr_do = (\<lambda>q s. (Some (409, []), Suc s)), tr_error = (\<lambda>_. ''taken'')\<rparr>
     demo_sdk ''POST'' ''/api/v1/clients'' (NameBody ''x'') (0 :: nat)) = Inl (ApiErr 409 ''taken'')"
proof -
  let ?tr = "\<lparr>tr_marshal = (\<lambda>_. Some []), tr_new = (\<lambda>_ _. True), tr_do = (\<lambda>q s. (Some (409, []), Suc s)), tr_error = (\<lambda>_. ''taken'')\<rparr>"
  show ?thesis
    using sdk_reports_status [of ?tr "NameBody ''x''" "''POST''" demo_sdk "''/api/v1/clients''" "0 :: nat"] by auto
qed

definition demo_tr :: "delivery \<Rightarrow> (WebServer \<times> effect list) transport" where
  "demo_tr dl = api_transport (demo_net dl) demo_api (\<lambda>_. Some []) (\<lambda>_. []) (\<lambda>_. '''') (sdk_baseURL demo_sdk)"

definition demo_tunnel_req :: proxy_req where
  "demo_tunnel_req = \<lparr>pq_Name = ''ssh'', pq_Type = '''', pq_RemotePort = 2222, pq_LocalAddr = '''', pq_LocalPort = 22, pq_ClientName = ''edge''\<rparr>"

lemma demo_create:
  assumes "request_key r = ''bt''" "hr_Method r = ''POST''"
  shows "\<exists>effs ws'. apiKeyMiddleware (v1HandleProxies demo_api) r demo_site = ((200, ASuccess), effs, ws')"
proof -
  let ?p = "\<lparr>px_ID = 0, px_Name = ''ssh'', px_Type = ''tcp'', px_RemotePort = 2222, px_LocalAddr = ''127.0.0.1'', px_LocalPort = 22,
     px_ClientName = ''edge'', px_Enabled = True, px_CreatedAt = ''''\<rparr>"
  obtain st1 where "CreateProxy demo_db '''' ?p = (Inr 3, st1)"
    by (simp add: CreateProxy_def db_exec_def sql_insert_def proxy_clash_def demo_db_def demo_tunnel_def)
  moreover have "limit_reached demo_db ''edge'' = None"
    by (simp add: limit_reached_def found_def GetClient_def ListProxiesByClient_def db_query_def demo_db_def demo_row_def demo_tunnel_def)
  moreover have "apiKeyMiddleware (v1HandleProxies demo_api) r demo_site = v1HandleProxies demo_api (Some demo_bob) r demo_site"
    using assms(1)
    by (simp add: apiKeyMiddleware_def HasAPIKey_def GetUserByToken_def db_query_def demo_db_def demo_account_def demo_bob_def found_def Let_def)
  ultimately show ?thesis
    using assms(2) demo_access(1) by (simp add: v1HandleProxies_def create_tunnel_def demo_api_def Let_def)
qed

lemma demo_call_create:
  "\<exists>ws' es'. sdk_CreateProxy (demo_tr dl) demo_sdk ''ssh'' '''' 2222 22 '''' ''edge'' (demo_site, []) =
     (case dl of NotSent \<Rightarrow> (Inl TransportErr, demo_site, []) | AnswerLost \<Rightarrow> (Inl TransportErr, ws', es') | Answered \<Rightarrow> (Inr None, ws', es'))"
proof -
  let ?q = "\<lparr>sq_Method = ''POST'', sq_URL = sdk_baseURL demo_sdk @ ''/api/v1/proxies'', sq_Key = sdk_apiKey demo_sdk, sq_Body = Some []\<rparr>"
  let ?r = "http_of (demo_net dl) ?q ''/api/v1/proxies'' ''''"
  have key: "trim_value (sdk_apiKey demo_sdk) = ''bt''" "valid_value (sdk_apiKey demo_sdk)"
    by (simp_all add: demo_sdk_def New_sdk_def trim_value_def valid_value_def ctl_byte_def)
  then obtain effs ws' where a: "apiKeyMiddleware (v1HandleProxies demo_api) ?r demo_site = ((200, ASuccess), effs, ws')"
    using demo_create [of ?r] by auto
  have do: "api_do (demo_net dl) demo_api (\<lambda>_. []) ?q ''/api/v1/proxies'' '''' (demo_site, []) = ((200, []), ws', effs)"
    using a by (simp add: api_do_def api_serve_def api_route_def)
  have "sdk_call (demo_tr dl) demo_sdk ''POST'' ''/api/v1/proxies'' (TunnelBody demo_tunnel_req) (demo_site, []) =
    (if \<not> valid_value (sdk_apiKey demo_sdk) \<or> nt_delivery (demo_net dl) = NotSent then (Inl TransportErr, demo_site, [])
     else if nt_delivery (demo_net dl) = AnswerLost then (Inl TransportErr, ws', effs)
     else (if (200 :: nat) < 200 \<or> (200 :: nat) \<ge> 300 then Inl (ApiErr 200 '''') else Inr None, ws', effs))"
    unfolding demo_tr_def by (rule api_call_served [OF _ _ proxies_target do]) (simp_all add: demo_net_def)
  then show ?thesis
    using key(2) by (intro exI [of _ ws'] exI [of _ effs]) (simp add: sdk_CreateProxy_def demo_tunnel_req_def demo_net_def split: delivery.split)
qed

lemma demo_marshals: "ae_proxy demo_api [] = Some demo_tunnel_req"
  by (simp add: demo_api_def demo_tunnel_req_def)

theorem sdk_create_tunnel_end_to_end_witness:
  "(\<exists>ws' es' st'. sdk_CreateProxy (demo_tr Answered) demo_sdk ''ssh'' '''' 2222 22 '''' ''edge'' (demo_site, []) = (Inr None, ws', es') \<and>
      ws_store ws' = Some st' \<and> tunnel_added demo_tunnel_req demo_db st') \<and>
   (\<exists>ws' es' st'. sdk_CreateProxy (demo_tr AnswerLost) demo_sdk ''ssh'' '''' 2222 22 '''' ''edge'' (demo_site, []) = (Inl TransportErr, ws', es') \<and>
      ws_store ws' = Some st' \<and> (st' = demo_db \<or> tunnel_added demo_tunnel_req demo_db st'))"
proof -
  obtain wa ea where a: "sdk_CreateProxy (demo_tr Answered) demo_sdk ''ssh'' '''' 2222 22 '''' ''edge'' (demo_site, []) = (Inr None, wa, ea)"
    using demo_call_create [of Answered] by auto
  obtain wl el where l: "sdk_CreateProxy (demo_tr AnswerLost) demo_sdk ''ssh'' '''' 2222 22 '''' ''edge'' (demo_site, []) = (Inl TransportErr, wl, el)"
    using demo_call_create [of AnswerLost] by auto
  note main = sdk_create_tunnel_end_to_end [OF demo_site_store(1) demo_db_ok demo_tunnel_req_def _ demo_marshals, folded demo_tr_def]
  obtain sa where "ws_store wa = Some sa" "tunnel_added demo_tunnel_req demo_db sa"
    using main [OF refl a [unfolded demo_tr_def]] by auto
  moreover obtain sl where "ws_store wl = Some sl" "sl = demo_db \<or> tunnel_added demo_tunnel_req demo_db sl"
    using main [OF refl l [unfolded demo_tr_def]] by auto
  ultimately show ?thesis using a l by blast
qed

lemma demo_bytes: "char_of (47 :: nat) = CHR ''/''" "char_of (101 :: nat) = CHR ''e''"
  by code_simp+

lemma demo_names:
  "addressed_name ''edge/2'' = Some ''edge''" "addressed_name ''edge%2Fx'' = Some ''edge''" "addressed_name ''edge#1'' = Some ''edge''"
  "addressed_name ''%65dge'' = Some ''edge''" "addressed_name ''100%'' = None"
  by (simp_all add: addressed_name_def url_parse_def url_cut_def ctl_byte_def hex_val_def trim_slashes_def demo_bytes)

theorem sdk_delete_client_first_segment_witness:
  "\<exists>res ws' es'. sdk_DeleteClient (api_transport (demo_net Answered) demo_api (\<lambda>_. None) (\<lambda>_. []) (\<lambda>_. '''') ''u'') (New_sdk ''u'' ''k0'') ''edge%2Fx''
     (put_store (demo_db\<lparr>api_keys_tbl := [\<lparr>ak_Key = ''k0'', ak_Note = '''', ak_CreatedAt = ''''\<rparr>]\<rparr>) demo_site, []) = (res, ws', es') \<and> res = Inr None"
proof -
  let ?st = "demo_db\<lparr>api_keys_tbl := [\<lparr>ak_Key = ''k0'', ak_Note = '''', ak_CreatedAt = ''''\<rparr>]\<rparr>" and ?c = "New_sdk ''u'' ''k0''"
  let ?ws = "put_store ?st demo_site"
  let ?tr = "api_transport (demo_net Answered) demo_api (\<lambda>_. None) (\<lambda>_. []) (\<lambda>_. '''') (sdk_baseURL ?c)"
  obtain res ws' es' where h: "sdk_DeleteClient ?tr ?c ''edge%2Fx'' (?ws, []) = (res, ws', es')" by (metis prod_cases3)
  have st: "ws_store ?ws = Some ?st" by (simp add: put_store_def)
  have key: "trim_value (sdk_apiKey ?c) = ''k0''" "valid_value (sdk_apiKey ?c)"
    by (simp_all add: New_sdk_def trim_value_def valid_value_def ctl_byte_def)
  have k: "HasAPIKey ?st (trim_value (sdk_apiKey ?c)) = Inr True" by (simp add: key HasAPIKey_def db_query_def demo_db_def)
  have u: "url_parse ''edge%2Fx'' = Some (''edge%2Fx'', ''edge/x'', '''')"
    by (simp add: url_parse_def url_cut_def ctl_byte_def hex_val_def demo_bytes)
  have clean: "mux_clean (escaped_path (''/api/v1/clients/'' @ ''edge%2Fx'') (''/api/v1/clients/'' @ ''edge/x''))"
    by (simp add: mux_clean_def escaped_path_def path_byte_def is_hex_def hex_val_def)
  have del: "\<exists>st2. DeleteClient ?st ''edge'' = (Inr True, st2)"
    by (simp add: DeleteClient_def db_exec_def demo_db_def demo_row_def affected_def)
  have rm: "fst (RemoveManagedClient (ws_pm ?ws) ''edge'') = Inr ()"
    using del by (auto simp: RemoveManagedClient_def drop_from_index_def delete_row_def put_store_def Let_def)
  have "\<forall>raw path query. url_parse ''edge%2Fx'' = Some (raw, path, query) \<longrightarrow>
      mux_clean (escaped_path (''/api/v1/clients/'' @ raw) (''/api/v1/clients/'' @ path)) \<and> CHR '' '' \<notin> set query"
    using clean by (simp add: u)
  note main = sdk_delete_client_first_segment [OF st k _ key(2) _ this h]
  have "res = Inr None \<longleftrightarrow> fst (RemoveManagedClient (ws_pm ?ws) ''edge'') = Inr ()"
    using main by (simp add: demo_names(2) key demo_net_def)
  with rm h show ?thesis by (simp add: New_sdk_def)
qed

end
