(* ===== verification/Support.thy ===== *)
theory Support
  imports NL_Prelude
begin

text \<open>
  Model of two small packages: the compressor of \<^verbatim>\<open>pkg/compress/compressor.go\<close>, with the gzip writer and reader of
  the standard library as arguments, and \<^verbatim>\<open>Send\<close> of \<^verbatim>\<open>pkg/webhook/webhook.go\<close>, as the HTTP posts that one call makes.
  The server's effect \<open>Webhook\<close> stands for one such call.
\<close>

section \<open>Compression\<close>

record Compressor =
  cp_enabled :: bool

definition NewCompressor :: "bool \<Rightarrow> Compressor" where
  "NewCompressor b = \<lparr>cp_enabled = b\<rparr>"

text \<open>\<open>wr\<close> and \<open>cl\<close> are the buffer of a gzip writer after \<^verbatim>\<open>Write\<close> and after \<^verbatim>\<open>Close\<close>; either may fail.\<close>

definition Compress :: "(bytes \<Rightarrow> io_err + bytes) \<Rightarrow> (bytes \<Rightarrow> io_err + bytes) \<Rightarrow> Compressor \<Rightarrow> bytes \<Rightarrow> io_err + bytes" where
  "Compress wr cl c data =
     (if \<not> cp_enabled c then Inr data
      else case wr data of
        Inl err \<Rightarrow> Inl err
      | Inr buf \<Rightarrow> (case cl buf of Inl err \<Rightarrow> Inl err | Inr out \<Rightarrow> Inr out))"

definition Decompress :: "(bytes \<Rightarrow> io_err + 'z) \<Rightarrow> ('z \<Rightarrow> io_err + bytes) \<Rightarrow> Compressor \<Rightarrow> bytes \<Rightarrow> io_err + bytes" where
  "Decompress reader readAll c data =
     (if \<not> cp_enabled c then Inr data
      else case reader data of Inl err \<Rightarrow> Inl err | Inr gz \<Rightarrow> readAll gz)"

text \<open>
  The round trip, from what the standard library says of gzip: a reader of a finished stream gives back what was
  written. With compression switched off nothing is changed, whatever gzip does.
\<close>

lemma Decompress_Compress:
  assumes "\<And>buf out. wr data = Inr buf \<Longrightarrow> cl buf = Inr out \<Longrightarrow> \<exists>gz. reader out = Inr gz \<and> readAll gz = Inr data"
    and "Compress wr cl c data = Inr out"
  shows "Decompress reader readAll c out = Inr data"
  using assms by (fastforce simp: Compress_def Decompress_def split: if_splits sum.splits)

lemma disabled_is_identity:
  "Compress w cl (NewCompressor False) data = Inr data" "Decompress rd ra (NewCompressor False) data = Inr data"
  by (simp_all add: Compress_def Decompress_def NewCompressor_def)

section \<open>Webhooks\<close>

record Event =
  ev_Event :: string
  ev_Time :: string
  ev_Payload :: "(string \<times> string) list"

text \<open>The posts of one call: none without a URL or when the event cannot be encoded. A failed post is only logged.\<close>

definition Send_webhook :: "(Event \<Rightarrow> bytes option) \<Rightarrow> string \<Rightarrow> string \<Rightarrow> string \<Rightarrow> (string \<times> string) list \<Rightarrow> (string \<times> bytes) list" where
  "Send_webhook marshal now url event payload =
     (if url = '''' then []
      else case marshal \<lparr>ev_Event = event, ev_Time = now, ev_Payload = payload\<rparr> of None \<Rightarrow> [] | Some body \<Rightarrow> [(url, body)])"

lemma Send_webhook_at_most_one: "length (Send_webhook marshal now url event payload) \<le> 1"
  by (simp add: Send_webhook_def split: option.split)

end
