(* ===== verification/Spec2Isabelle.thy ===== *)
theory Spec2Isabelle
  imports NL_Prelude Sha256 Auth Protocol Net_Addr ConnGuard Config Store Forward UdpRelay Server Tenants Rendezvous Client WebSession WebApi Startup Sdk Support
begin

text \<open>
  Verification of NexusLink, a reverse tunnel. A server with a public address accepts a control connection from
  each client; a client asks for tunnels, and the server listens on a public port for each of them and carries TCP
  connections or UDP datagrams of outside users to a local service beside the client. Packets of the data channels
  carry an HMAC and a time stamp. The server has a connection guard, an SQLite store of tenants, tunnels, users and
  API keys, a web panel, and an open HTTP API with a Go client library.

  \<^bold>\<open>How the parts interact.\<close> The accept loop asks the guard, then \<^verbatim>\<open>handleClient\<close> reads framed messages,
  checks the token against the memory index, the store and the main password, and serves tunnel requests until the
  connection ends. A TCP user connection is announced to the client, which dials back; the two are matched by a
  connection id and copied by \<^verbatim>\<open>forwardWithAuth\<close> on both sides. UDP datagrams travel in envelopes over one
  signed data channel per tunnel. The panel and the API change the same server state and the same store.

  \<^bold>\<open>Theories and sources\<close> (paths under \<^verbatim>\<open>src/\<close>; each theory keeps the order and the names of the code):
  \<^item> \<open>NL_Prelude\<close>: bytes, big-endian integers, Go maps as association lists, byte streams; the interface
    \<open>frame_codec\<close> of a self-delimiting framing. \<open>Net_Addr\<close> and \<open>Sha256\<close> define what the sources use of
    Go's \<^verbatim>\<open>net\<close>, \<^verbatim>\<open>crypto/sha256\<close>, \<^verbatim>\<open>crypto/hmac\<close>, \<^verbatim>\<open>encoding/hex\<close>.
  \<^item> \<open>Auth\<close>: \<^verbatim>\<open>pkg/auth/auth.go\<close>. The time stamps are 64-bit words and wrap as in the code.
  \<^item> \<open>Protocol\<close>: \<^verbatim>\<open>pkg/protocol/message.go\<close>, messages, framing, UDP envelopes.
  \<^item> \<open>ConnGuard\<close>: \<^verbatim>\<open>pkg/security/connguard.go\<close>, operations and their interleavings (\<open>guard_step\<close>).
  \<^item> \<open>Config\<close>: \<^verbatim>\<open>pkg/config/config.go\<close> and the configuration part of \<^verbatim>\<open>cmd/client/main.go\<close>.
  \<^item> \<open>Store\<close>: \<^verbatim>\<open>pkg/store/store.go\<close>; every SQL statement as an operation on a list of rows.
  \<^item> \<open>Server\<close>, \<open>Tenants\<close>, \<open>Rendezvous\<close>, \<open>UdpRelay\<close>, \<open>Startup\<close>: \<^verbatim>\<open>cmd/server/main.go\<close>;
    logins, tunnels and sockets; managed clients, traffic and listings; TCP user and data connections; UDP sessions;
    \<^verbatim>\<open>main\<close> up to the accept loop.
  \<^item> \<open>Client\<close>: \<^verbatim>\<open>cmd/client/main.go\<close> after its configuration. \<open>Forward\<close>: \<^verbatim>\<open>forwardWithAuth\<close> of both mains.
  \<^item> \<open>WebSession\<close>: the panel in \<^verbatim>\<open>pkg/web/server.go\<close> and \<^verbatim>\<open>pkg/web/security.go\<close>. \<open>WebApi\<close>: the
    handlers under \<^verbatim>\<open>/api/v1\<close> in \<^verbatim>\<open>pkg/web/server.go\<close>.
  \<^item> \<open>Sdk\<close>: \<^verbatim>\<open>sdk/go/nexuslink/nexuslink.go\<close>. \<open>Support\<close>: \<^verbatim>\<open>pkg/compress\<close> and \<^verbatim>\<open>pkg/webhook\<close>.
  \<^item> This theory: properties that span the UDP relay and the client, and the server and the client at registration.

  \<^bold>\<open>Modelling.\<close> Structs are records, operations are functions from the old state to results, effects and the new
  state. Clocks, random bytes, results of system calls, JSON and YAML decoders, regular expressions and gzip are
  arguments. Errors are values; a \<^verbatim>\<open>panic\<close> and a \<^verbatim>\<open>log.Fatal\<close> are results of their own. The \<^verbatim>\<open>int64\<close> byte
  counters are \<open>int\<close> with the wrap-around written out (\<open>i64\<close>); ports are \<open>int\<close>.

  \<^bold>\<open>Concurrency.\<close> Theorems about runs hold for every sequence of steps. The grain of the steps:
  \<^item> the guard: one operation, which is one region under its mutex (\<open>guard_step\<close>);
  \<^item> \<^verbatim>\<open>forwardWithAuth\<close>: one read, one write, one end of a loop or one close of a connection; the two copying
    loops and the waiting function are interleaved freely, and the first end of a loop makes the function close both
    connections (\<open>fwd_run\<close>);
  \<^item> the UDP relay: one region under \<^verbatim>\<open>sessionMu\<close> or one write of a datagram (\<open>udp_step\<close>);
  \<^item> the rendezvous of user and data connections: one region under the lock of \<^verbatim>\<open>pending\<close> or one hand-over;
  \<^item> the control plane: one message of a client, one login, one disconnection, one addition to the traffic counters (with
    the check of the limit) or one request of panel or API. Most of
    these are one region under \<^verbatim>\<open>s.mu\<close>. A login and the removal of a client are not: their regions are the
    definitions \<open>token_row\<close>, \<open>cache_client\<close>, \<open>drop_from_index\<close> and \<open>delete_row\<close>, and \<open>removal_overlapping_login\<close> says for
    every interleaving of the two what comes of it.

  \<^bold>\<open>Interfaces.\<close>
  \<^item> \<open>frame_codec\<close> (\<open>NL_Prelude\<close>) and its extension \<open>frame_codec_cut\<close> (\<open>Forward\<close>): a reader returns what
    the writer wrote and reports a frame that was cut. Interpreted for the control channel (\<open>control\<close>) and the signed
    frames (\<open>framed\<close>, \<open>framed_cut\<close>); round trips and the end of the read loops are proved once.
  \<^item> \<open>unique_key\<close> (\<open>Store\<close>): a table whose statements keep a key unique; interpreted for six columns.
  \<^item> \<open>tenant_table\<close>, \<open>guarded_tenant_table\<close> (\<open>Tenants\<close>): the contract of a map from names to tokens; interpreted
    for the memory index (\<open>mem\<close>), the database (\<open>db\<close>) and the server that keeps both in step (\<open>srv\<close>).
  \<^item> \<open>api_store_property\<close> (\<open>WebApi\<close>): a property of the store that the store operations keep is kept by every API
    request; interpreted for the constraints of the schema and for the validity of tunnel rows.

  \<^bold>\<open>What is shown.\<close>
  \<^item> Data path: a datagram or frame is accepted exactly if it was signed with the key inside the time window; user
    bytes arrive unchanged and in order through both copying loops, completely if the user's side ends the
    connection first, and a prefix of them whatever goes wrong; a UDP user's datagram reaches the local service and the
    answer reaches that user; user and data connections are paired by id.
  \<^item> Control plane: open sockets are exactly those of registered tunnels; a tunnel request is done completely or
    changes nothing; a disconnection removes the client's own tunnels; client and server agree on a registration;
    a control connection always ends in its clean-up.
  \<^item> Guard: its counters equal the live connections; bans, spacing and limits are enforced.
  \<^item> Tenants and store: memory and database refine one map; removing a client revokes its token, unless a login overlaps
    the removal in one particular order; the traffic limit is reported once. That names, tokens and ids are unique is
    SQLite's guarantee; the store lemmas carry it to the states that the operations reach.
  \<^item> Panel and API: every effect needs a valid session or credential; guessing locks; users see and change their own
    clients, with the exceptions that the last two API theorems state.
  \<^item> Start-up and library: a started server admits the clients of its database and of its configuration, and its panel has
    the configured password and settings; a tunnel created through the Go library is in the server's table with the
    values given, also when the network loses the request or the answer and the call fails.

  \<^bold>\<open>Fuel.\<close> Loops that read a stream until an error (\<open>drain\<close>, the message loops of server and
  client) take a bound on the number of reads and give \<open>None\<close> when it is used up. Every successful read consumes at
  least one byte, so a bound above the length of the stream is never used up: \<open>drain_ends\<close> of the framing interface and
  \<open>message_loop_ends\<close> prove it, and the properties are stated with such a bound or prove that the loop ends. The copying
  loops need no fuel: they take one step for each action of the schedule.

  \<^bold>\<open>Not modelled.\<close>
  \<^item> Log lines, the TLS handshake, keep-alive and socket options, and wall-clock formatting of dates.
  \<^item> What the HTTP multiplexer's redirect for an unclean path leads to (in \<open>Sdk\<close> an argument, \<open>nt_redirect\<close>), static
    files, and the encoding of JSON texts. The panel and API theorems take the path as the multiplexer matched it.
  \<^item> Traffic sums in the database beyond the range of 64 bits.
  \<^item> The tickers: when the idle sweep, the traffic report or the clean-up of the guard runs is arbitrary.
  \<^item> The Go scheduler below the grain given above; in particular a traffic report of the client is one step, although
    its sums and its subtractions are separate atomic operations, and the token check reads the index without its lock.
  \<^item> SQLite itself: the statements have their documented meaning, and any of them may fail.
  \<^item> The client libraries in other languages, the earlier C implementation, the browser code and helper server under
    \<^verbatim>\<open>web/\<close>, installation scripts and tests: they are not part of the Go program.
\<close>

section \<open>UDP tunnels end to end\<close>

text \<open>The client's loop over the datagrams that arrive on its UDP data channel, and the datagrams for one address.\<close>

fun client_receive ::
    "dial_env \<Rightarrow> int \<Rightarrow> 64 word \<Rightarrow> bytes list \<Rightarrow> LProxy \<Rightarrow> Client \<Rightarrow> (nat \<times> bytes) list \<times> LProxy \<times> Client" where
  "client_receive os now unix [] p c = ([], p, c)"
| "client_receive os now unix (pkt # pkts) p c =
     (case client_handleUDPDataChannel os now unix p c pkt of (w1, p1, c1) \<Rightarrow>
      case client_receive os now unix pkts p1 c1 of (w2, r) \<Rightarrow> (w1 @ w2, r))"

definition sent_to_client :: "string \<Rightarrow> datagram list \<Rightarrow> bytes list" where
  "sent_to_client ca out = concat (map (\<lambda>d. case d of ToClient a b \<Rightarrow> if a = ca then [b] else [] | ToUser _ _ \<Rightarrow> []) out)"

lemma Unmarshal_Marshal: "length (env_SessionID e) < 2 ^ 16 \<Longrightarrow> UnmarshalEnvelope (MarshalEnvelope e) = Some e"
  by (simp add: UnmarshalEnvelope_iff)


lemma client_on_envelope:
  assumes "inWindow unix' unix" "length (env_SessionID env) < 2 ^ 16" "k_auth c = a"
  shows "env_Kind env = 1 \<Longrightarrow> client_handleUDPDataChannel os now unix' p c (Sign a unix (MarshalEnvelope env)) =
      ([], snd (getOrCreateBackend os now (env_SessionID env) p c))"
    and "env_Kind env = 2 \<Longrightarrow> env_Data env \<noteq> [] \<Longrightarrow> client_handleUDPDataChannel os now unix' p c (Sign a unix (MarshalEnvelope env)) =
      ((case fst (getOrCreateBackend os now (env_SessionID env) p c) of None \<Rightarrow> [] | Some conn \<Rightarrow> [(conn, env_Data env)]),
       snd (getOrCreateBackend os now (env_SessionID env) p c))"
  using assms by (simp_all add: client_handleUDPDataChannel_def Verify_Sign Unmarshal_Marshal case_prod_unfold)

lemma getOrCreateBackend_ok:
  assumes "de_resolve os" "de_dial os" "getOrCreateBackend os now sid p c = (b, p1, c1)"
  shows "\<exists>s. map_of (lp_udpSessions p1) sid = Some s \<and> b = Some (bs_conn s)" and "k_auth c1 = k_auth c"
  using assms by (auto simp: getOrCreateBackend_def dial_udp_def split: option.splits)

lemma handleUDPConnections_sent:
  assumes "index_inv sp" "sessionSeq sp \<noteq> - 1" "clientDataAddr sp = Some ca" "payload \<noteq> []" "length payload \<le> UDPMaxPayload"
    and "handleUDPConnections sp now unix ua payload = (out, sp1)"
  obtains sid isNew s where "map_of (sessions sp1) sid = Some s" "ses_userAddr s = ua" "length sid < 20"
    "sent_to_client ca out =
       (if isNew then [Sign (up_Auth sp) unix (MarshalEnvelope \<lparr>env_Kind = 1, env_SessionID = sid, env_Data = []\<rparr>)] else []) @
       [Sign (up_Auth sp) unix (MarshalEnvelope \<lparr>env_Kind = 2, env_SessionID = sid, env_Data = payload\<rparr>)]"
proof -
  obtain sid isNew sp' where g: "getOrCreateSession sp now ua = ((sid, isNew), sp')" by (metis prod.exhaust)
  note gi = index_inv_getOrCreate [OF assms(1,2) g]
  obtain s where s: "map_of (sessions sp') sid = Some s" "ses_userAddr s = ua" using gi(3) by blast
  have sid: "length sid = 16" using gi(1) s(1) unfolding index_inv_def by (metis length_sid_of option.distinct(1))
  have k: "clientDataAddr sp' = Some ca" "up_Auth sp' = up_Auth sp"
    using getOrCreate_simps(2,3) [of sp now ua] assms(3) by (simp_all add: g)
  have "sessions sp1 = sessions sp'" "sent_to_client ca out =
       (if isNew then [Sign (up_Auth sp) unix (MarshalEnvelope \<lparr>env_Kind = 1, env_SessionID = sid, env_Data = []\<rparr>)] else []) @
       [Sign (up_Auth sp) unix (MarshalEnvelope \<lparr>env_Kind = 2, env_SessionID = sid, env_Data = payload\<rparr>)]"
    using assms(4-6) k sid
    by (auto simp: handleUDPConnections_def g sendUDPToClient_def send_lookup_def hello_env_def data_env_def Let_def UDPMaxPayload_def sent_to_client_def split: if_splits)
  with s sid that show thesis by auto
qed

text \<open>
  C3: A UDP tunnel works end to end. When the client is registered on the data channel and clocks agree
  up to the window, then in every reachable state of the relay a user's datagram that the server relays is written, once
  and unchanged, to the
  local backend socket of one session of the client, and whatever that backend answers is delivered by the server
  to that same user, unchanged.
\<close>
theorem udp_tunnel_end_to_end:
  assumes "udp_run (new_relay (k_auth c)) out0 r" and "sessionSeq sp \<noteq> - 1" and "clientDataAddr sp = Some ca"
    and "payload \<noteq> []" and "length payload \<le> UDPMaxPayload" and "handleUDPConnections sp now unix ua payload = (out, sp1)"
    and "inWindow unix1 unix" and "de_resolve os" and "de_dial os"
    and "client_receive os now1 unix1 (sent_to_client ca out) p c = (ws, p1, c1)"
    and "answer \<noteq> []" and "length answer \<le> UDPMaxPayload" and "inWindow unix3 unix2" and "sp = rl_p r"
  shows "\<exists>sid s pkt. map_of (lp_udpSessions p1) sid = Some s \<and> ws = [(bs_conn s, payload)] \<and>
    readBackend unix2 c1 sid answer = [pkt] \<and> fst (handleUDPDataChannel sp1 now3 unix3 ca pkt) = [ToUser ua answer]"
proof -
  have inv: "index_inv sp" and au: "up_Auth sp = k_auth c"
    using relay_inv_run [OF assms(1) relay_inv_new] run_keeps(1) [OF assms(1)] assms(14)
    by (simp add: relay_inv_def, simp add: new_relay_def new_udp_proxy_def)
  obtain sid isNew s where s: "map_of (sessions sp1) sid = Some s" "ses_userAddr s = ua" "length sid < 20"
    and out: "sent_to_client ca out =
       (if isNew then [Sign (k_auth c) unix (MarshalEnvelope \<lparr>env_Kind = 1, env_SessionID = sid, env_Data = []\<rparr>)] else []) @
       [Sign (k_auth c) unix (MarshalEnvelope \<lparr>env_Kind = 2, env_SessionID = sid, env_Data = payload\<rparr>)]"
    using handleUDPConnections_sent [OF inv assms(2-6)] au by metis
  obtain p0 c0 where pc0: "k_auth c0 = k_auth c"
    and rx: "client_receive os now1 unix1 [Sign (k_auth c) unix (MarshalEnvelope \<lparr>env_Kind = 2, env_SessionID = sid, env_Data = payload\<rparr>)] p0 c0 = (ws, p1, c1)"
  proof (cases isNew)
    case True
    obtain b p2 c2 where g: "getOrCreateBackend os now1 sid p c = (b, p2, c2)" by (metis prod_cases3)
    show thesis
      using that [of c2 p2] True assms(10) out g getOrCreateBackend_ok(2) [OF assms(8,9) g] s(3)
        client_on_envelope(1) [OF assms(7), of "\<lparr>env_Kind = 1, env_SessionID = sid, env_Data = []\<rparr>" c "k_auth c" os now1 p]
      by (simp split: prod.splits)
  qed (use that [of c p] assms(10) out in simp)
  obtain b where g: "getOrCreateBackend os now1 sid p0 c0 = (b, p1, c1)" and ws: "ws = (case b of None \<Rightarrow> [] | Some conn \<Rightarrow> [(conn, payload)])"
    using rx s(3) assms(4) client_on_envelope(2) [OF assms(7), of "\<lparr>env_Kind = 2, env_SessionID = sid, env_Data = payload\<rparr>" c0 "k_auth c" os now1 p0] pc0
    by (cases "getOrCreateBackend os now1 sid p0 c0") (auto split: option.splits)
  obtain bs where bs: "map_of (lp_udpSessions p1) sid = Some bs" "b = Some (bs_conn bs)" and c1: "k_auth c1 = k_auth c"
    using getOrCreateBackend_ok [OF assms(8,9) g] pc0 by auto
  let ?env = "\<lparr>env_Kind = 2, env_SessionID = sid, env_Data = answer\<rparr>"
  have rb: "readBackend unix2 c1 sid answer = [Sign (k_auth c) unix2 (MarshalEnvelope ?env)]"
    using assms(11,12) s(3) c1 by (simp add: readBackend_def Let_def UDPMaxPayload_def)
  have "clientDataAddr sp1 = Some ca" "up_Auth sp1 = k_auth c"
    using assms(3,6) au
    by (auto simp: handleUDPConnections_def sendUDPToClient_def case_prod_unfold split: if_splits)
  then have "fst (handleUDPDataChannel sp1 now3 unix3 ca (Sign (k_auth c) unix2 (MarshalEnvelope ?env))) = [ToUser ua answer]"
    using assms(11,13) s
    by (simp add: handleUDPDataChannel_def register_client_def Verify_Sign Unmarshal_Marshal deliver_envelope_def deliver_lookup_def)
  with rb bs ws show ?thesis by auto
qed

lemma inWindow_1000: "inWindow 1000 1000"
  by (simp add: inWindow_def MaxTimeOffset_def)

theorem udp_tunnel_end_to_end_witness:
  "\<exists>(sp1 :: UdpProxy) ws (p1 :: LProxy) (c1 :: Client) sid s pkt. map_of (lp_udpSessions p1) sid = Some s \<and> ws = [(bs_conn s, [1 :: byte])] \<and>
     readBackend 1000 c1 sid [2] = [pkt] \<and> fst (handleUDPDataChannel sp1 0 1000 ''c'' pkt) = [ToUser ''u'' [2]]"
proof -
  let ?idle = "new_relay (k_auth demo_client)"
  let ?r = "?idle\<lparr>rl_p := (rl_p ?idle)\<lparr>clientDataAddr := Some ''c''\<rparr>\<rparr>" and ?sp = "(new_udp_proxy (k_auth demo_client))\<lparr>clientDataAddr := Some ''c''\<rparr>"
  let ?os = "\<lparr>de_resolve = True, de_dial = True, de_write = True\<rparr>"
  have first: "handleUDPDataChannel (rl_p ?idle) 0 1000 ''c'' [] = ([], (rl_p ?idle)\<lparr>clientDataAddr := Some ''c''\<rparr>)"
    by (simp add: handleUDPDataChannel_def register_client_def Verify_def new_relay_def new_udp_proxy_def)
  have run: "udp_run ?idle [] ?r" by (rule handleUDPDataChannel_run [OF _ _ first]) (simp_all add: new_relay_def)
  have rp: "?sp = rl_p ?r" by (simp add: new_relay_def)
  have sp: "sessionSeq ?sp \<noteq> - 1" "clientDataAddr ?sp = Some ''c''" by (simp_all add: new_udp_proxy_def)
  obtain out sp1 where h: "handleUDPConnections ?sp 0 1000 ''u'' [1] = (out, sp1)" by fastforce
  obtain ws p1 c1 where r: "client_receive ?os 0 1000 (sent_to_client ''c'' out) demo_udp_proxy demo_client = (ws, p1, c1)"
    by (metis prod_cases3)
  have "\<exists>sid s pkt. map_of (lp_udpSessions p1) sid = Some s \<and> ws = [(bs_conn s, [1])] \<and>
    readBackend 1000 c1 sid [2] = [pkt] \<and> fst (handleUDPDataChannel sp1 0 1000 ''c'' pkt) = [ToUser ''u'' [2]]"
  proof (rule udp_tunnel_end_to_end [OF run sp _ _ h inWindow_1000 _ _ r _ _ inWindow_1000 rp])
    show "length [1 :: byte] \<le> UDPMaxPayload" "length [2 :: byte] \<le> UDPMaxPayload" by (simp_all add: UDPMaxPayload_def)
  qed simp_all
  then show ?thesis
    by blast
qed

section \<open>Tunnel registration\<close>

text \<open>
  C15: Client and server agree on a requested tunnel. When the server's answer to a tunnel request reaches the
  client as the next message and is decoded as it was encoded, the client enters the tunnel in its table
  exactly if the server registered it, and the server then has a listener for it.
\<close>
theorem registration_agrees:
  assumes "\<forall>h \<in> set (sv_socks s). h < sv_next s" and "map_of (sv_proxies s) nm = None" and "map_of (k_proxies c) nm = None"
    and "se_wrote en (RqNewProxy (newproxy_of nm pc))" and "unm (msg_Data msg) = Some (newproxy_of nm pc)"
    and "handleNewProxy rx unm s os conn msg clientID = ([Send conn (PNewProxyResp resp)], t)"
    and "se_unmResp en payload = Some resp" and "length payload \<le> MaxMessageSize"
    and "registerProxy en nm pc c \<lparr>inb = frameMessage TypeNewProxyResp payload @ rest, tail_err = err\<rparr> = (rqs, c1, i1)"
  shows "(map_of (k_proxies c1) nm \<noteq> None) = (map_of (sv_proxies t) nm \<noteq> None) \<and>
    (map_of (k_proxies c1) nm \<noteq> None \<longrightarrow> handles (the (map_of (sv_proxies t) nm)) \<noteq> []) \<and>
    inb i1 = rest"
proof -
  let ?m = "\<lparr>msg_Type = TypeNewProxyResp, msg_Data = payload\<rparr>"
  have np: "np_Name (newproxy_of nm pc) = nm" by (simp add: newproxy_of_def)
  have rd: "ReadMessage \<lparr>inb = frameMessage TypeNewProxyResp payload @ rest, tail_err = err\<rparr> = Inr (?m, \<lparr>inb = rest, tail_err = err\<rparr>)"
    using ReadMessage_frame [of ?m rest err] assms(8) by (simp add: valid_message_def TypeNewProxyResp_def maxValidType_def)
  have client: "map_of (k_proxies c1) nm \<noteq> None \<longleftrightarrow> nr_Success resp" "inb i1 = rest"
    using assms(3,4,7,9) by (auto simp: registerProxy_def rd ParseMessage_def Let_def split: if_splits prod.splits)
  from handleNewProxy_outcome [OF assms(1) _ assms(6), of "newproxy_of nm pc"] assms(5)
  have "(nr_Success resp = False \<and> sv_proxies t = sv_proxies s) \<or>
    (\<exists>p1 u. nr_Success resp = True \<and> set_up s (new_server_proxy s (newproxy_of nm pc) conn clientID) p1 u \<and> t = u\<lparr>sv_proxies := sv_proxies u @ [(nm, p1)]\<rparr>)"
    by (auto simp: ParseMessage_def reply_def resp_of_def np)
  then show ?thesis
  proof
    assume "\<exists>p1 u. nr_Success resp = True \<and> set_up s (new_server_proxy s (newproxy_of nm pc) conn clientID) p1 u \<and> t = u\<lparr>sv_proxies := sv_proxies u @ [(nm, p1)]\<rparr>"
    then obtain p1 u where r: "nr_Success resp" and u: "set_up s (new_server_proxy s (newproxy_of nm pc) conn clientID) p1 u"
      and t: "t = u\<lparr>sv_proxies := sv_proxies u @ [(nm, p1)]\<rparr>" by blast
    have "sv_proxies u = sv_proxies s" "handles p1 \<noteq> []" using u by (auto simp: set_up_def)
    then show ?thesis using client r assms(2) t by (simp add: map_add_def)
  qed (use client assms(2) in simp)
qed

theorem registration_agrees_witness:
  "\<exists>(t :: Server) (c1 :: Client). map_of (k_proxies c1) ''web'' \<noteq> None \<and> map_of (sv_proxies t) ''web'' \<noteq> None"
proof -
  let ?s = "fresh_server DefaultServerConfig NewConnGuard None None"
  let ?pc = "\<lparr>pc_Type = ProxyTCP, pc_Port = 8080, pc_LocalAddr = ''127.0.0.1'', pc_LocalPort = 80\<rparr>"
  let ?os = "\<lparr>le_resolve = None, le_listen = None, le_data_resolve = None, le_data = Inr 40000\<rparr>"
  let ?unm = "\<lambda>_. Some (newproxy_of ''web'' ?pc)"
  let ?resp = "\<lparr>nr_Name = ''web'', nr_Success = True, nr_Error = '''', nr_RemotePort = 8080, nr_UDPDataPort = 0\<rparr>"
  let ?en = "demo_env\<lparr>se_unmResp := (\<lambda>_. Some ?resp)\<rparr>"
  let ?msg = "\<lparr>msg_Type = TypeNewProxy, msg_Data = []\<rparr>"
  obtain t where h: "handleNewProxy (\<lambda>_ _. False) ?unm ?s ?os 7 ?msg ''c'' = ([Send 7 (PNewProxyResp ?resp)], t)"
    by (simp add: handleNewProxy_def ParseMessage_def newproxy_of_def proxyAllowed_def fresh_server_def DefaultServerConfig_def
        setup_tcp_def new_server_proxy_def Let_def reply_def)
  obtain rqs c1 i1 where r: "registerProxy ?en ''web'' ?pc (demo_client\<lparr>k_proxies := []\<rparr>)
      \<lparr>inb = frameMessage TypeNewProxyResp [] @ [], tail_err = EOF\<rparr> = (rqs, c1, i1)" by (metis prod_cases3)
  have "map_of (sv_proxies t) ''web'' \<noteq> None"
    using h by (auto simp: handleNewProxy_def ParseMessage_def newproxy_of_def proxyAllowed_def fresh_server_def DefaultServerConfig_def
        setup_tcp_def new_server_proxy_def Let_def reply_def)
  moreover have "(map_of (k_proxies c1) ''web'' \<noteq> None) = (map_of (sv_proxies t) ''web'' \<noteq> None) \<and>
      (map_of (k_proxies c1) ''web'' \<noteq> None \<longrightarrow> handles (the (map_of (sv_proxies t) ''web'')) \<noteq> []) \<and> inb i1 = []"
    by (rule registration_agrees [OF _ _ _ _ _ h _ _ r]) (simp_all add: fresh_server_def demo_env_def)
  ultimately show ?thesis by blast
qed

end
